theory Spec2Isabelle
  imports Complex_Main
begin

section \<open>The probability engine of the Battleship game\<close>

text \<open>
  A shallow embedding of the probability calculator (\<^verbatim>\<open>calculateProbabilityMap\<close> and the
  functions it calls). Conventions of the embedding:

  \<^item> a \<^verbatim>\<open>Coordinate\<close> is a pair of integers \<open>(row, col)\<close>; the board's height and width are
    array lengths, hence natural numbers; ship lengths are integers;
  \<^item> a \<^verbatim>\<open>ProbabilityMap\<close> (\<^verbatim>\<open>number[][]\<close>) is a list of rows; its numbers are exact
    rationals, so the rounding of IEEE doubles is outside the model;
  \<^item> every function that mutates the map in place takes the map and returns the new one;
  \<^item> reading \<^verbatim>\<open>probabilityMap[row][col]\<close> with \<open>row\<close> outside the array throws a
    \<^verbatim>\<open>TypeError\<close> in the source (\<^verbatim>\<open>undefined[col]\<close>), and so does \<^verbatim>\<open>coordinates[0][0]\<close> on an
    empty array: these are the \<open>Inl TypeError\<close> results of the model.
\<close>

subsection \<open>Data model\<close>

type_synonym Coordinate = "int \<times> int"

type_synonym ProbabilityMap = "rat list list"

datatype ProbabilityMode = NORMAL | HUNTING | TARGETING | SUPER_AGGRESSIVE | OPTIMIZED

record SunkShip =
  sunkLength :: int
  positions :: "Coordinate list"

datatype Direction = Horizontal | Vertical

record AlignedGroup =
  direction :: Direction
  coordinates :: "Coordinate list"

datatype error = TypeError

definition bindE :: "error + 'a \<Rightarrow> ('a \<Rightarrow> error + 'b) \<Rightarrow> error + 'b" where
  "bindE x f = (case x of Inl e \<Rightarrow> Inl e | Inr v \<Rightarrow> f v)"

definition ADJACENT_DIRECTIONS :: "(int \<times> int) list" where
  "ADJACENT_DIRECTIONS = [(-1, 0), (0, 1), (1, 0), (0, -1)]"

definition ADJACENCY_FACTOR :: rat where "ADJACENCY_FACTOR = 3"
definition ALIGNMENT_FACTOR :: rat where "ALIGNMENT_FACTOR = 4"
definition COMPLETION_FACTOR :: rat where "COMPLETION_FACTOR = 5"
definition SUPER_ADJACENCY_FACTOR :: rat where "SUPER_ADJACENCY_FACTOR = 5"
definition SUPER_ALIGNMENT_FACTOR :: rat where "SUPER_ALIGNMENT_FACTOR = 8"
definition SUPER_COMPLETION_FACTOR :: rat where "SUPER_COMPLETION_FACTOR = 10"
definition OPTIMIZED_ADJACENCY_FACTOR :: rat where "OPTIMIZED_ADJACENCY_FACTOR = 10"
definition OPTIMIZED_ALIGNMENT_FACTOR :: rat where "OPTIMIZED_ALIGNMENT_FACTOR = 15"
definition OPTIMIZED_COMPLETION_FACTOR :: rat where "OPTIMIZED_COMPLETION_FACTOR = 20"
definition OPTIMIZED_PATTERN_FACTOR :: rat where "OPTIMIZED_PATTERN_FACTOR = 5"
definition ENTROPY_WEIGHT :: rat where "ENTROPY_WEIGHT = 3 / 10"

subsection \<open>Grids\<close>

text \<open>\<^verbatim>\<open>Array(height).fill(0).map(() => Array(width).fill(0))\<close>\<close>

definition zeroGrid :: "nat \<Rightarrow> nat \<Rightarrow> 'a::zero list list" where
  "zeroGrid height width = replicate height (replicate width 0)"

text \<open>\<^verbatim>\<open>m[row][col]\<close> and \<^verbatim>\<open>m[row][col] = v\<close>, used only where the source has checked or
  constructed \<open>row\<close> and \<open>col\<close> inside the grid.\<close>

definition cellAt :: "'a list list \<Rightarrow> int \<Rightarrow> int \<Rightarrow> 'a" where
  "cellAt m row col = m ! nat row ! nat col"

definition setCell :: "'a list list \<Rightarrow> int \<Rightarrow> int \<Rightarrow> 'a \<Rightarrow> 'a list list" where
  "setCell m row col v = m[nat row := (m ! nat row)[nat col := v]]"

text \<open>The loop \<^verbatim>\<open>for (row < height) for (col < width) m[row][col] = f(row, col, m[row][col])\<close>,
  where the new value of a cell depends on no other cell of the map being updated.\<close>

definition mapCells :: "nat \<Rightarrow> nat \<Rightarrow> (int \<Rightarrow> int \<Rightarrow> 'a \<Rightarrow> 'b) \<Rightarrow> 'a list list \<Rightarrow> 'b list list" where
  "mapCells height width f m =
     map (\<lambda>row. map (\<lambda>col. f (int row) (int col) (m ! row ! col)) [0..<width]) [0..<height]"

text \<open>\<^verbatim>\<open>m[row][col] *= factor\<close>.\<close>

definition scaleCell :: "rat \<Rightarrow> ProbabilityMap \<Rightarrow> Coordinate \<Rightarrow> ProbabilityMap" where
  "scaleCell factor m coord =
     setCell m (fst coord) (snd coord) (cellAt m (fst coord) (snd coord) * factor)"

text \<open>\<^verbatim>\<open>if (m[row][col] > 0) m[row][col] *= factor\<close> at a cell known to be inside the grid.\<close>

definition scaleIfPositive :: "rat \<Rightarrow> ProbabilityMap \<Rightarrow> Coordinate \<Rightarrow> ProbabilityMap" where
  "scaleIfPositive factor m coord =
     (if cellAt m (fst coord) (snd coord) > 0 then scaleCell factor m coord else m)"

text \<open>The same statement at a coordinate that the source has not checked against the board:
  a row outside the array throws, a column outside the row reads \<^verbatim>\<open>undefined\<close>, and
  \<^verbatim>\<open>undefined > 0\<close> is false.\<close>

definition boostCell :: "rat \<Rightarrow> ProbabilityMap \<Rightarrow> Coordinate \<Rightarrow> error + ProbabilityMap" where
  "boostCell factor m coord =
     (if fst coord < 0 \<or> int (length m) \<le> fst coord then Inl TypeError
      else if 0 \<le> snd coord \<and> snd coord < int (length (m ! nat (fst coord)))
        then Inr (scaleIfPositive factor m coord)
      else Inr m)"

text \<open>\<^verbatim>\<open>for (const [row, col] of cells) if (m[row][col] > 0) m[row][col] *= factor\<close>\<close>

fun boostCells :: "rat \<Rightarrow> ProbabilityMap \<Rightarrow> Coordinate list \<Rightarrow> error + ProbabilityMap" where
  "boostCells factor m [] = Inr m"
| "boostCells factor m (coord # rest) =
     (case boostCell factor m coord of
        Inl e \<Rightarrow> Inl e
      | Inr m' \<Rightarrow> boostCells factor m' rest)"

subsection \<open>Geometry and consistency primitives\<close>

definition isCoordinateInList :: "Coordinate \<Rightarrow> Coordinate list \<Rightarrow> bool" where
  "isCoordinateInList coord list =
     list_ex (\<lambda>item. fst item = fst coord \<and> snd item = snd coord) list"

definition isValidCell :: "int \<Rightarrow> int \<Rightarrow> nat \<Rightarrow> nat \<Rightarrow> bool" where
  "isValidCell row col height width =
     (row \<ge> 0 \<and> row < int height \<and> col \<ge> 0 \<and> col < int width)"

text \<open>The index search inside \<^verbatim>\<open>isConsistentWithHits\<close>: the first \<open>i\<close> with
  \<^verbatim>\<open>placement[i]\<close> equal to the hit, or \<open>-1\<close>.\<close>

fun placementIndex :: "int \<Rightarrow> Coordinate \<Rightarrow> Coordinate list \<Rightarrow> int" where
  "placementIndex i hit [] = -1"
| "placementIndex i hit (p # ps) =
     (if fst p = fst hit \<and> snd p = snd hit then i else placementIndex (i + 1) hit ps)"

fun contiguousIndices :: "int list \<Rightarrow> bool" where
  "contiguousIndices (a # b # rest) = (if b \<noteq> a + 1 then False else contiguousIndices (b # rest))"
| "contiguousIndices _ = True"

definition isConsistentWithHits :: "Coordinate list \<Rightarrow> Coordinate list \<Rightarrow> bool" where
  "isConsistentWithHits placement hits =
     (let overlappingHits = filter (\<lambda>hit. isCoordinateInList hit placement) hits in
      if length overlappingHits = 0 then True
      else contiguousIndices
             (sort (map (\<lambda>hit. placementIndex 0 hit placement) overlappingHits)))"

subsection \<open>Placement enumerator\<close>

text \<open>The inner loop of the enumerator: push the cells one by one, give up (\<open>None\<close>, the
  source's \<^verbatim>\<open>isValid = false; break\<close>) at the first one that is a miss.\<close>

fun buildPlacement :: "Coordinate list \<Rightarrow> Coordinate list \<Rightarrow> Coordinate list \<Rightarrow> Coordinate list option" where
  "buildPlacement misses placement [] = Some placement"
| "buildPlacement misses placement (coord # rest) =
     (if isCoordinateInList coord misses then None
      else buildPlacement misses (placement @ [coord]) rest)"

definition candidatePlacement :: "Coordinate list \<Rightarrow> Coordinate list \<Rightarrow> Coordinate list \<Rightarrow> Coordinate list list" where
  "candidatePlacement hits misses cells =
     (case buildPlacement misses [] cells of
        None \<Rightarrow> []
      | Some placement \<Rightarrow> if isConsistentWithHits placement hits then [placement] else [])"

definition generateValidPlacements ::
  "nat \<Rightarrow> nat \<Rightarrow> int \<Rightarrow> Coordinate list \<Rightarrow> Coordinate list \<Rightarrow> SunkShip list \<Rightarrow> Coordinate list list" where
  "generateValidPlacements boardHeight boardWidth shipLength hits misses sunkShips =
     concat (map (\<lambda>row. concat (map (\<lambda>col.
         candidatePlacement hits misses (map (\<lambda>i. (row, col + i)) [0..shipLength - 1]))
       [0..int boardWidth - shipLength])) [0..int boardHeight - 1])
     @
     concat (map (\<lambda>row. concat (map (\<lambda>col.
         candidatePlacement hits misses (map (\<lambda>i. (row + i, col)) [0..shipLength - 1]))
       [0..int boardWidth - 1])) [0..int boardHeight - shipLength])"

subsection \<open>Alignment analyzer\<close>

text \<open>The two \<^verbatim>\<open>Map\<close>s of \<^verbatim>\<open>findAlignedHits\<close>, as association lists in insertion order of
  their keys.\<close>

fun addToGroup :: "int \<Rightarrow> Coordinate \<Rightarrow> (int \<times> Coordinate list) list \<Rightarrow> (int \<times> Coordinate list) list" where
  "addToGroup k v [] = [(k, [v])]"
| "addToGroup k v ((k', vs) # rest) =
     (if k = k' then (k', vs @ [v]) # rest else (k', vs) # addToGroup k v rest)"

definition hitsByRow :: "Coordinate list \<Rightarrow> (int \<times> Coordinate list) list" where
  "hitsByRow hits = foldl (\<lambda>groups hit. addToGroup (fst hit) hit groups) [] hits"

definition hitsByCol :: "Coordinate list \<Rightarrow> (int \<times> Coordinate list) list" where
  "hitsByCol hits = foldl (\<lambda>groups hit. addToGroup (snd hit) hit groups) [] hits"

text \<open>The scan for consecutive sequences in a sorted line of hits: \<open>run\<close> is the slice from
  \<^verbatim>\<open>start\<close> up to the hit before the current one; a jump of more than one in the key, or
  the end of the line, closes it, and it is kept when it has at least two hits.\<close>

fun consecutiveRuns :: "(Coordinate \<Rightarrow> int) \<Rightarrow> Coordinate list \<Rightarrow> Coordinate list \<Rightarrow> Coordinate list list" where
  "consecutiveRuns key run [] = (if length run \<ge> 2 then [run] else [])"
| "consecutiveRuns key run (hit # rest) =
     (if key hit > key (last run) + 1
      then (if length run \<ge> 2 then [run] else []) @ consecutiveRuns key [hit] rest
      else consecutiveRuns key (run @ [hit]) rest)"

definition lineGroups :: "Direction \<Rightarrow> (Coordinate \<Rightarrow> int) \<Rightarrow> Coordinate list \<Rightarrow> AlignedGroup list" where
  "lineGroups dir key lineHits =
     (if length lineHits < 2 then []
      else case sort_key key lineHits of
             [] \<Rightarrow> []
           | first # rest \<Rightarrow>
               map (\<lambda>run. \<lparr>direction = dir, coordinates = run\<rparr>) (consecutiveRuns key [first] rest))"

definition findAlignedHits :: "Coordinate list \<Rightarrow> AlignedGroup list" where
  "findAlignedHits hits =
     concat (map (\<lambda>entry. lineGroups Horizontal snd (snd entry)) (hitsByRow hits))
     @ concat (map (\<lambda>entry. lineGroups Vertical fst (snd entry)) (hitsByCol hits))"

definition getExtensionPoints ::
  "Coordinate list \<Rightarrow> Direction \<Rightarrow> nat \<Rightarrow> nat \<Rightarrow> Coordinate list \<Rightarrow> error + Coordinate list" where
  "getExtensionPoints coords dir boardHeight boardWidth misses =
     (case dir of
        Horizontal \<Rightarrow>
          (case sort_key snd coords of
             [] \<Rightarrow> Inl TypeError
           | first # rest \<Rightarrow>
               let row = fst first;
                   minCol = snd first;
                   maxCol = snd (last (first # rest))
               in Inr ((if minCol > 0 \<and> \<not> isCoordinateInList (row, minCol - 1) misses
                        then [(row, minCol - 1)] else [])
                     @ (if maxCol < int boardWidth - 1 \<and> \<not> isCoordinateInList (row, maxCol + 1) misses
                        then [(row, maxCol + 1)] else [])))
      | Vertical \<Rightarrow>
          (case sort_key fst coords of
             [] \<Rightarrow> Inl TypeError
           | first # rest \<Rightarrow>
               let col = snd first;
                   minRow = fst first;
                   maxRow = fst (last (first # rest))
               in Inr ((if minRow > 0 \<and> \<not> isCoordinateInList (minRow - 1, col) misses
                        then [(minRow - 1, col)] else [])
                     @ (if maxRow < int boardHeight - 1 \<and> \<not> isCoordinateInList (maxRow + 1, col) misses
                        then [(maxRow + 1, col)] else []))))"

text \<open>The body of the inner loop of \<^verbatim>\<open>getAdjacentCells\<close>, for one hit and one direction.\<close>

definition adjacentStep ::
  "nat \<Rightarrow> nat \<Rightarrow> Coordinate list \<Rightarrow> Coordinate list \<Rightarrow> Coordinate \<Rightarrow> Coordinate list
     \<Rightarrow> int \<times> int \<Rightarrow> Coordinate list" where
  "adjacentStep boardHeight boardWidth hits misses hit adjacentCells d =
     (let adjRow = fst hit + fst d;
          adjCol = snd hit + snd d
      in if adjRow \<ge> 0 \<and> adjRow < int boardHeight \<and> adjCol \<ge> 0 \<and> adjCol < int boardWidth
         then (if \<not> isCoordinateInList (adjRow, adjCol) hits
                  \<and> \<not> isCoordinateInList (adjRow, adjCol) misses
                  \<and> \<not> isCoordinateInList (adjRow, adjCol) adjacentCells
               then adjacentCells @ [(adjRow, adjCol)]
               else adjacentCells)
         else adjacentCells)"

definition getAdjacentCells :: "nat \<Rightarrow> nat \<Rightarrow> Coordinate list \<Rightarrow> Coordinate list \<Rightarrow> Coordinate list" where
  "getAdjacentCells boardHeight boardWidth hits misses =
     foldl (\<lambda>adjacentCells hit.
              foldl (adjacentStep boardHeight boardWidth hits misses hit)
                adjacentCells ADJACENT_DIRECTIONS)
       [] hits"

text \<open>One step of the scans of \<^verbatim>\<open>findSmallestRemainingShip\<close>: the state is
  \<^verbatim>\<open>(consecutiveEmpty, maxConsecutiveEmpty)\<close>.\<close>

definition scanCell :: "nat \<times> nat \<Rightarrow> rat \<Rightarrow> nat \<times> nat" where
  "scanCell st v =
     (if v > 0 then (fst st + 1, max (snd st) (fst st + 1)) else (0, snd st))"

definition scanLine :: "nat \<Rightarrow> rat list \<Rightarrow> nat" where
  "scanLine maxConsecutiveEmpty line = snd (foldl scanCell (0, maxConsecutiveEmpty) line)"

definition findSmallestRemainingShip :: "ProbabilityMap \<Rightarrow> nat \<Rightarrow> nat \<Rightarrow> int" where
  "findSmallestRemainingShip m boardHeight boardWidth =
     (let afterRows = foldl scanLine 0
            (map (\<lambda>row. map (\<lambda>col. m ! row ! col) [0..<boardWidth]) [0..<boardHeight]);
          maxConsecutiveEmpty = foldl scanLine afterRows
            (map (\<lambda>col. map (\<lambda>row. m ! row ! col) [0..<boardHeight]) [0..<boardWidth])
      in if maxConsecutiveEmpty > 2 then int (min maxConsecutiveEmpty 5) else 2)"

fun completionsOf ::
  "nat \<Rightarrow> nat \<Rightarrow> Coordinate list \<Rightarrow> int \<Rightarrow> AlignedGroup list \<Rightarrow> error + Coordinate list" where
  "completionsOf boardHeight boardWidth misses shipSize [] = Inr []"
| "completionsOf boardHeight boardWidth misses shipSize (g # gs) =
     (if int (length (coordinates g)) \<ge> shipSize
      then completionsOf boardHeight boardWidth misses shipSize gs
      else bindE (getExtensionPoints (coordinates g) (direction g) boardHeight boardWidth misses)
             (\<lambda>extensions.
                bindE (completionsOf boardHeight boardWidth misses shipSize gs)
                  (\<lambda>more. Inr ((if int (length (coordinates g)) = shipSize - 1
                                then extensions else []) @ more))))"

definition findPotentialCompletions ::
  "nat \<Rightarrow> nat \<Rightarrow> Coordinate list \<Rightarrow> Coordinate list \<Rightarrow> int \<Rightarrow> error + Coordinate list" where
  "findPotentialCompletions boardHeight boardWidth hits misses shipSize =
     completionsOf boardHeight boardWidth misses shipSize (findAlignedHits hits)"

subsection \<open>Heuristic modulators\<close>

definition normalizeMap :: "ProbabilityMap \<Rightarrow> nat \<Rightarrow> nat \<Rightarrow> ProbabilityMap" where
  "normalizeMap probabilityMap boardHeight boardWidth =
     (let positive = filter (\<lambda>v. v > 0)
            (concat (map (\<lambda>row. map (\<lambda>col. probabilityMap ! row ! col) [0..<boardWidth])
                       [0..<boardHeight]));
          sum = sum_list positive;
          validCells = length positive
      in if validCells = 0 \<or> sum = 0 then probabilityMap
         else mapCells boardHeight boardWidth (\<lambda>row col v. if v > 0 then v / sum else v)
                probabilityMap)"

definition applyCheckerboardPattern :: "ProbabilityMap \<Rightarrow> nat \<Rightarrow> nat \<Rightarrow> ProbabilityMap" where
  "applyCheckerboardPattern probabilityMap boardHeight boardWidth =
     mapCells boardHeight boardWidth
       (\<lambda>row col v. if (row + col) mod 2 = 1 \<and> v > 0 then v * (1 / 2) else v) probabilityMap"

definition applyTargetingStrategy ::
  "ProbabilityMap \<Rightarrow> nat \<Rightarrow> nat \<Rightarrow> Coordinate list \<Rightarrow> Coordinate list \<Rightarrow> error + ProbabilityMap" where
  "applyTargetingStrategy probabilityMap boardHeight boardWidth hits misses =
     (if length hits = 0 then Inr probabilityMap
      else
        let alignedHits = findAlignedHits hits in
        if length alignedHits \<ge> 2 then
          (case alignedHits of
             [] \<Rightarrow> Inl TypeError
           | g # _ \<Rightarrow>
               bindE (getExtensionPoints (coordinates g) (direction g) boardHeight boardWidth misses)
                 (\<lambda>extensions. boostCells ALIGNMENT_FACTOR probabilityMap extensions))
        else
          bindE (boostCells ADJACENCY_FACTOR probabilityMap
                   (getAdjacentCells boardHeight boardWidth hits misses))
            (\<lambda>m1. bindE (findPotentialCompletions boardHeight boardWidth hits misses
                            (findSmallestRemainingShip m1 boardHeight boardWidth))
               (\<lambda>completions. boostCells COMPLETION_FACTOR m1 completions)))"

text \<open>The two nested loops over pairs of hits shared by \<^verbatim>\<open>applyPatternRecognition\<close> (factor
  1.5) and \<^verbatim>\<open>applyEnhancedPatternRecognition\<close> (\<^verbatim>\<open>OPTIMIZED_PATTERN_FACTOR\<close>): the corner
  cells are multiplied without a test on their current value.\<close>

definition boostCorner ::
  "rat \<Rightarrow> nat \<Rightarrow> nat \<Rightarrow> Coordinate list \<Rightarrow> Coordinate list \<Rightarrow> ProbabilityMap \<Rightarrow> Coordinate \<Rightarrow> ProbabilityMap" where
  "boostCorner factor boardHeight boardWidth hits misses m corner =
     (if isValidCell (fst corner) (snd corner) boardHeight boardWidth
         \<and> \<not> isCoordinateInList corner hits
         \<and> \<not> isCoordinateInList corner misses
      then scaleCell factor m corner else m)"

definition cornerStep ::
  "rat \<Rightarrow> nat \<Rightarrow> nat \<Rightarrow> Coordinate list \<Rightarrow> Coordinate list \<Rightarrow> ProbabilityMap
     \<Rightarrow> Coordinate \<times> Coordinate \<Rightarrow> ProbabilityMap" where
  "cornerStep factor boardHeight boardWidth hits misses m pr =
     (let hit1 = fst pr; hit2 = snd pr in
      if fst hit1 = fst hit2 \<and> snd hit1 = snd hit2 then m
      else if fst hit1 = fst hit2 \<or> snd hit1 = snd hit2 then m
      else boostCorner factor boardHeight boardWidth hits misses
             (boostCorner factor boardHeight boardWidth hits misses m (fst hit1, snd hit2))
             (fst hit2, snd hit1))"

definition cornerPass ::
  "rat \<Rightarrow> ProbabilityMap \<Rightarrow> nat \<Rightarrow> nat \<Rightarrow> Coordinate list \<Rightarrow> Coordinate list \<Rightarrow> ProbabilityMap" where
  "cornerPass factor probabilityMap boardHeight boardWidth hits misses =
     foldl (cornerStep factor boardHeight boardWidth hits misses) probabilityMap
       (List.product hits hits)"

definition applyPatternRecognition ::
  "ProbabilityMap \<Rightarrow> nat \<Rightarrow> nat \<Rightarrow> Coordinate list \<Rightarrow> Coordinate list \<Rightarrow> ProbabilityMap" where
  "applyPatternRecognition probabilityMap boardHeight boardWidth hits misses =
     cornerPass (3 / 2) probabilityMap boardHeight boardWidth hits misses"

text \<open>The loop over the aligned groups of \<^verbatim>\<open>applySuperAggressiveStrategy\<close> and
  \<^verbatim>\<open>applyOptimizedStrategy\<close>: the extension points of every group are boosted.\<close>

fun boostExtensions ::
  "rat \<Rightarrow> nat \<Rightarrow> nat \<Rightarrow> Coordinate list \<Rightarrow> ProbabilityMap \<Rightarrow> AlignedGroup list \<Rightarrow> error + ProbabilityMap" where
  "boostExtensions factor boardHeight boardWidth misses m [] = Inr m"
| "boostExtensions factor boardHeight boardWidth misses m (g # gs) =
     bindE (getExtensionPoints (coordinates g) (direction g) boardHeight boardWidth misses)
       (\<lambda>extensions. bindE (boostCells factor m extensions)
          (\<lambda>m'. boostExtensions factor boardHeight boardWidth misses m' gs))"

definition applySuperAggressiveStrategy ::
  "ProbabilityMap \<Rightarrow> nat \<Rightarrow> nat \<Rightarrow> Coordinate list \<Rightarrow> Coordinate list \<Rightarrow> error + ProbabilityMap" where
  "applySuperAggressiveStrategy probabilityMap boardHeight boardWidth hits misses =
     (if length hits = 0 then Inr (applyCheckerboardPattern probabilityMap boardHeight boardWidth)
      else
        let alignedHits = findAlignedHits hits in
        bindE (if length alignedHits \<ge> 2
               then boostExtensions SUPER_ALIGNMENT_FACTOR boardHeight boardWidth misses
                      probabilityMap alignedHits
               else boostCells SUPER_ADJACENCY_FACTOR probabilityMap
                      (getAdjacentCells boardHeight boardWidth hits misses))
          (\<lambda>m1. bindE (findPotentialCompletions boardHeight boardWidth hits misses
                          (findSmallestRemainingShip m1 boardHeight boardWidth))
             (\<lambda>completions. bindE (boostCells SUPER_COMPLETION_FACTOR m1 completions)
                (\<lambda>m2. Inr (applyPatternRecognition m2 boardHeight boardWidth hits misses)))))"

subsection \<open>Optimized strategy and entropy estimator\<close>

definition getActiveHits :: "Coordinate list \<Rightarrow> SunkShip list \<Rightarrow> Coordinate list" where
  "getActiveHits hits sunkShips =
     (let sunkPositions = concat (map positions sunkShips) in
      filter (\<lambda>hit. \<not> list_ex (\<lambda>sunkPos. fst sunkPos = fst hit \<and> snd sunkPos = snd hit)
                        sunkPositions) hits)"

text \<open>The three parts of \<^verbatim>\<open>applyOptimalInitialPattern\<close>: the spacing grid, the corner
  avoidance and the centre focus (the last two on a 10 by 10 board only).\<close>

definition spacingPattern :: "ProbabilityMap \<Rightarrow> nat \<Rightarrow> nat \<Rightarrow> int \<Rightarrow> ProbabilityMap" where
  "spacingPattern probabilityMap boardHeight boardWidth optimalSpacing =
     mapCells boardHeight boardWidth
       (\<lambda>row col v.
          if (row mod optimalSpacing = 0 \<and> col mod optimalSpacing = 0)
             \<or> (row mod optimalSpacing = 1 \<and> col mod optimalSpacing = 1)
          then v * 2 else v) probabilityMap"

definition cornerAvoidance :: "ProbabilityMap \<Rightarrow> nat \<Rightarrow> nat \<Rightarrow> ProbabilityMap" where
  "cornerAvoidance probabilityMap boardHeight boardWidth =
     (let h = int boardHeight; w = int boardWidth in
      foldl (scaleIfPositive (1 / 2)) probabilityMap
        [(0, 0), (0, 1), (1, 0),
         (0, w - 1), (0, w - 2), (1, w - 1),
         (h - 1, 0), (h - 2, 0), (h - 1, 1),
         (h - 1, w - 1), (h - 1, w - 2), (h - 2, w - 1)])"

definition centerStep :: "nat \<Rightarrow> nat \<Rightarrow> ProbabilityMap \<Rightarrow> Coordinate \<Rightarrow> ProbabilityMap" where
  "centerStep boardHeight boardWidth m rc =
     (if fst rc \<ge> 0 \<and> fst rc < int boardHeight \<and> snd rc \<ge> 0 \<and> snd rc < int boardWidth
         \<and> cellAt m (fst rc) (snd rc) > 0
      then scaleCell (5 / 4) m rc else m)"

definition centerFocus :: "ProbabilityMap \<Rightarrow> nat \<Rightarrow> nat \<Rightarrow> ProbabilityMap" where
  "centerFocus probabilityMap boardHeight boardWidth =
     (let centerRow = int boardHeight div 2;
          centerCol = int boardWidth div 2
      in foldl (centerStep boardHeight boardWidth) probabilityMap
           (List.product [centerRow - 1..centerRow + 1] [centerCol - 1..centerCol + 1]))"

text \<open>\<^verbatim>\<open>applyOptimalInitialPattern\<close> is reached only after the early return on an empty
  \<^verbatim>\<open>remainingShips\<close>, so \<^verbatim>\<open>Math.min(...remainingShips)\<close> has at least one argument; the
  first equation is never used by the engine. \<^verbatim>\<open>maxShipSize\<close> is computed by the source and
  never read.\<close>

fun applyOptimalInitialPattern :: "ProbabilityMap \<Rightarrow> nat \<Rightarrow> nat \<Rightarrow> int list \<Rightarrow> ProbabilityMap" where
  "applyOptimalInitialPattern probabilityMap boardHeight boardWidth [] = probabilityMap"
| "applyOptimalInitialPattern probabilityMap boardHeight boardWidth (ship # ships) =
     (let smallestShip = foldl min ship ships;
          optimalSpacing = max 2 (smallestShip - 1);
          m1 = spacingPattern probabilityMap boardHeight boardWidth optimalSpacing
      in if boardHeight = 10 \<and> boardWidth = 10
         then centerFocus (cornerAvoidance m1 boardHeight boardWidth) boardHeight boardWidth
         else m1)"

text \<open>The number of placements of one ship counted by \<^verbatim>\<open>applyInformationEntropy\<close> along one
  axis through position \<open>pos\<close> of a line of length \<open>extent\<close>; \<open>blocked j\<close> tells whether the
  cell at position \<open>j\<close> of the line is a known miss. The loop runs \<open>i\<close> upwards from
  \<^verbatim>\<open>Math.max(0, pos - shipLength + 1)\<close> while \<^verbatim>\<open>i <= pos && i + shipLength - 1 < extent\<close>.\<close>

definition placementsThrough :: "int \<Rightarrow> int \<Rightarrow> int \<Rightarrow> (int \<Rightarrow> bool) \<Rightarrow> nat" where
  "placementsThrough len pos extent blocked =
     length (filter (\<lambda>i. \<not> list_ex (\<lambda>j. j \<noteq> pos \<and> blocked j) [i..i + len - 1])
               (takeWhile (\<lambda>i. i + len - 1 < extent) [max 0 (pos - len + 1)..pos]))"

definition informationGain ::
  "nat \<Rightarrow> nat \<Rightarrow> Coordinate list \<Rightarrow> int list \<Rightarrow> int \<Rightarrow> int \<Rightarrow> nat" where
  "informationGain boardHeight boardWidth misses remainingShips row col =
     foldl (\<lambda>gain len.
              gain
              + placementsThrough len col (int boardWidth) (\<lambda>j. isCoordinateInList (row, j) misses)
              + placementsThrough len row (int boardHeight) (\<lambda>j. isCoordinateInList (j, col) misses))
       0 remainingShips"

text \<open>The three loops of \<^verbatim>\<open>applyInformationEntropy\<close>: the entropy map of raw counts, its
  normalization by the maximum, and the weighted combination. \<^verbatim>\<open>Math.max(...)\<close> over the
  entropy map is only compared with 0 and the counts are never negative, so the maximum is
  taken from 0 (on an empty board the source computes \<^verbatim>\<open>-Infinity\<close>, and the test
  \<^verbatim>\<open>maxEntropy > 0\<close> fails as it does here).\<close>

definition entropyCounts ::
  "ProbabilityMap \<Rightarrow> nat \<Rightarrow> nat \<Rightarrow> Coordinate list \<Rightarrow> int list \<Rightarrow> rat list list" where
  "entropyCounts probabilityMap boardHeight boardWidth misses remainingShips =
     mapCells boardHeight boardWidth
       (\<lambda>row col v. if v = 0 then 0
                     else of_nat (informationGain boardHeight boardWidth misses remainingShips row col))
       probabilityMap"

definition normalizeEntropy :: "rat list list \<Rightarrow> nat \<Rightarrow> nat \<Rightarrow> rat \<Rightarrow> rat list list" where
  "normalizeEntropy entropyMap boardHeight boardWidth maxEntropy =
     (if maxEntropy > 0
      then mapCells boardHeight boardWidth (\<lambda>row col e. e / maxEntropy) entropyMap
      else entropyMap)"

definition blendEntropy :: "ProbabilityMap \<Rightarrow> nat \<Rightarrow> nat \<Rightarrow> rat list list \<Rightarrow> ProbabilityMap" where
  "blendEntropy probabilityMap boardHeight boardWidth entropyMap =
     mapCells boardHeight boardWidth
       (\<lambda>row col v. if v > 0
                     then (1 - ENTROPY_WEIGHT) * v + ENTROPY_WEIGHT * cellAt entropyMap row col
                     else v)
       probabilityMap"

definition applyInformationEntropy ::
  "ProbabilityMap \<Rightarrow> nat \<Rightarrow> nat \<Rightarrow> Coordinate list \<Rightarrow> Coordinate list \<Rightarrow> int list \<Rightarrow> ProbabilityMap" where
  "applyInformationEntropy probabilityMap boardHeight boardWidth hits misses remainingShips =
     (if length (findAlignedHits hits) \<ge> 2 then probabilityMap
      else
        let counts = entropyCounts probabilityMap boardHeight boardWidth misses remainingShips;
            maxEntropy = foldl max 0 (concat counts)
        in blendEntropy probabilityMap boardHeight boardWidth
             (normalizeEntropy counts boardHeight boardWidth maxEntropy))"

definition crossStep ::
  "nat \<Rightarrow> nat \<Rightarrow> Coordinate list \<Rightarrow> Coordinate list \<Rightarrow> ProbabilityMap
     \<Rightarrow> Coordinate \<times> (int \<times> int) \<Rightarrow> ProbabilityMap" where
  "crossStep boardHeight boardWidth hits misses m step =
     (let adjRow = fst (fst step) + fst (snd step);
          adjCol = snd (fst step) + snd (snd step)
      in if isValidCell adjRow adjCol boardHeight boardWidth
            \<and> \<not> isCoordinateInList (adjRow, adjCol) hits
            \<and> \<not> isCoordinateInList (adjRow, adjCol) misses
         then scaleIfPositive 2 m (adjRow, adjCol) else m)"

definition applyEnhancedPatternRecognition ::
  "ProbabilityMap \<Rightarrow> nat \<Rightarrow> nat \<Rightarrow> Coordinate list \<Rightarrow> Coordinate list \<Rightarrow> ProbabilityMap" where
  "applyEnhancedPatternRecognition probabilityMap boardHeight boardWidth hits misses =
     cornerPass OPTIMIZED_PATTERN_FACTOR
       (foldl (crossStep boardHeight boardWidth hits misses) probabilityMap
          (List.product hits ADJACENT_DIRECTIONS))
       boardHeight boardWidth hits misses"

definition applyOptimizedStrategy ::
  "ProbabilityMap \<Rightarrow> nat \<Rightarrow> nat \<Rightarrow> Coordinate list \<Rightarrow> Coordinate list \<Rightarrow> int list \<Rightarrow> SunkShip list
     \<Rightarrow> error + ProbabilityMap" where
  "applyOptimizedStrategy probabilityMap boardHeight boardWidth hits misses remainingShips sunkShips =
     (let activeHits = getActiveHits hits sunkShips in
      if length activeHits = 0
      then Inr (applyOptimalInitialPattern probabilityMap boardHeight boardWidth remainingShips)
      else
        let alignedHits = findAlignedHits activeHits in
        bindE (if length alignedHits \<ge> 1
               then boostExtensions OPTIMIZED_ALIGNMENT_FACTOR boardHeight boardWidth misses
                      probabilityMap alignedHits
               else Inr probabilityMap)
          (\<lambda>m1.
             let isolatedHits = filter (\<lambda>hit.
                   \<not> list_ex (\<lambda>g. list_ex (\<lambda>coord. fst coord = fst hit \<and> snd coord = snd hit)
                                     (coordinates g)) alignedHits) activeHits
             in bindE (if length isolatedHits > 0
                       then boostCells OPTIMIZED_ADJACENCY_FACTOR m1
                              (getAdjacentCells boardHeight boardWidth isolatedHits misses)
                       else Inr m1)
                  (\<lambda>m2. bindE (findPotentialCompletions boardHeight boardWidth activeHits misses
                                  (findSmallestRemainingShip m2 boardHeight boardWidth))
                     (\<lambda>completions. bindE (boostCells OPTIMIZED_COMPLETION_FACTOR m2 completions)
                        (\<lambda>m3. Inr (applyInformationEntropy
                                      (applyEnhancedPatternRecognition m3 boardHeight boardWidth
                                         activeHits misses)
                                      boardHeight boardWidth hits misses remainingShips))))))"

subsection \<open>Top-level orchestrator\<close>

text \<open>One round of the loop over \<^verbatim>\<open>remainingShips\<close>: the state is
  \<^verbatim>\<open>(cellPlacementCount, totalPlacements)\<close>.\<close>

definition incrementCell :: "nat list list \<Rightarrow> Coordinate \<Rightarrow> nat list list" where
  "incrementCell counts coord =
     setCell counts (fst coord) (snd coord) (cellAt counts (fst coord) (snd coord) + 1)"

definition tallyShip ::
  "nat \<Rightarrow> nat \<Rightarrow> Coordinate list \<Rightarrow> Coordinate list \<Rightarrow> SunkShip list
     \<Rightarrow> nat list list \<times> nat \<Rightarrow> int \<Rightarrow> nat list list \<times> nat" where
  "tallyShip boardHeight boardWidth hits misses sunkShips st len =
     (let validPlacements = generateValidPlacements boardHeight boardWidth len hits misses sunkShips
      in (foldl (foldl incrementCell) (fst st) validPlacements,
          snd st + length validPlacements))"

definition tallyPlacements ::
  "nat \<Rightarrow> nat \<Rightarrow> Coordinate list \<Rightarrow> Coordinate list \<Rightarrow> int list \<Rightarrow> SunkShip list
     \<Rightarrow> nat list list \<times> nat" where
  "tallyPlacements boardHeight boardWidth hits misses remainingShips sunkShips =
     foldl (tallyShip boardHeight boardWidth hits misses sunkShips)
       (zeroGrid boardHeight boardWidth, 0) remainingShips"

text \<open>The base probability map (the loop after the tally): count divided by the total,
  and 0 on hits and misses.\<close>

definition baseProbabilityMap ::
  "nat \<Rightarrow> nat \<Rightarrow> Coordinate list \<Rightarrow> Coordinate list \<Rightarrow> nat list list \<Rightarrow> nat \<Rightarrow> ProbabilityMap" where
  "baseProbabilityMap boardHeight boardWidth hits misses cellPlacementCount totalPlacements =
     mapCells boardHeight boardWidth
       (\<lambda>row col n.
          if isCoordinateInList (row, col) hits \<or> isCoordinateInList (row, col) misses then 0
          else of_nat n / of_nat totalPlacements)
       cellPlacementCount"

text \<open>The \<^verbatim>\<open>switch (mode)\<close>.\<close>

definition applyMode ::
  "ProbabilityMode \<Rightarrow> ProbabilityMap \<Rightarrow> nat \<Rightarrow> nat \<Rightarrow> Coordinate list \<Rightarrow> Coordinate list
     \<Rightarrow> int list \<Rightarrow> SunkShip list \<Rightarrow> error + ProbabilityMap" where
  "applyMode mode probabilityMap boardHeight boardWidth hits misses remainingShips sunkShips =
     (case mode of
        HUNTING \<Rightarrow> Inr (applyCheckerboardPattern probabilityMap boardHeight boardWidth)
      | TARGETING \<Rightarrow> applyTargetingStrategy probabilityMap boardHeight boardWidth hits misses
      | SUPER_AGGRESSIVE \<Rightarrow>
          applySuperAggressiveStrategy probabilityMap boardHeight boardWidth hits misses
      | OPTIMIZED \<Rightarrow>
          applyOptimizedStrategy probabilityMap boardHeight boardWidth hits misses
            remainingShips sunkShips
      | NORMAL \<Rightarrow>
          Inr (foldl (\<lambda>m coord. setCell m (fst coord) (snd coord)
                                  (min 1 (cellAt m (fst coord) (snd coord) * ADJACENCY_FACTOR)))
                 probabilityMap (getAdjacentCells boardHeight boardWidth hits misses)))"

text \<open>The map as it is before the final normalization: \<open>None\<close> stands for the two early
  returns of the zero-filled map.\<close>

definition heuristicMap ::
  "nat \<Rightarrow> nat \<Rightarrow> Coordinate list \<Rightarrow> Coordinate list \<Rightarrow> int list \<Rightarrow> ProbabilityMode
     \<Rightarrow> SunkShip list \<Rightarrow> (error + ProbabilityMap) option" where
  "heuristicMap boardHeight boardWidth hits misses remainingShips mode sunkShips =
     (if length remainingShips = 0 then None
      else
        let mode' = (if mode = NORMAL \<and> length hits > 0 then TARGETING else mode);
            tally = tallyPlacements boardHeight boardWidth hits misses remainingShips sunkShips
        in if snd tally = 0 then None
           else Some (applyMode mode'
                        (baseProbabilityMap boardHeight boardWidth hits misses (fst tally) (snd tally))
                        boardHeight boardWidth hits misses remainingShips sunkShips))"

definition calculateProbabilityMap ::
  "nat \<Rightarrow> nat \<Rightarrow> Coordinate list \<Rightarrow> Coordinate list \<Rightarrow> int list \<Rightarrow> ProbabilityMode
     \<Rightarrow> SunkShip list \<Rightarrow> error + ProbabilityMap" where
  "calculateProbabilityMap boardHeight boardWidth hits misses remainingShips mode sunkShips =
     (case heuristicMap boardHeight boardWidth hits misses remainingShips mode sunkShips of
        None \<Rightarrow> Inr (zeroGrid boardHeight boardWidth)
      | Some r \<Rightarrow> bindE r (\<lambda>m. Inr (normalizeMap m boardHeight boardWidth)))"

subsection \<open>The engine over an explicit store\<close>

text \<open>
  The functions above take the arguments of the engine as values. To state what a call does
  to the objects of its caller, the engine is given a second time, over an explicit store.
  A store is the list of the objects allocated so far, an address is an index into it, and
  an allocation appends to it. Conventions:

  \<^item> the arrays that the caller passes (\<^verbatim>\<open>hits\<close>, \<^verbatim>\<open>misses\<close>, \<^verbatim>\<open>remainingShips\<close>,
    \<^verbatim>\<open>sunkShips\<close> and the \<^verbatim>\<open>positions\<close> of every sunk ship) are objects of the store, and the
    engine receives their addresses;
  \<^item> every statement of the source that writes to an array received as a parameter (the
    assignments to the cells of \<^verbatim>\<open>probabilityMap\<close>, and \<^verbatim>\<open>coordinates.sort\<close> in
    \<^verbatim>\<open>getExtensionPoints\<close>) is a write to the store at the address of that array;
  \<^item> an array that a function creates and hands to such a function is allocated in the
    store: the probability map, the \<^verbatim>\<open>coordinates\<close> of every aligned group (a
    \<^verbatim>\<open>slice\<close>) and the result of \<^verbatim>\<open>hits.filter\<close> in \<^verbatim>\<open>getActiveHits\<close>;
  \<^item> an array that a function creates, fills and only reads (the placements, the arrays
    of the two \<^verbatim>\<open>Map\<close>s of \<^verbatim>\<open>findAlignedHits\<close>, \<^verbatim>\<open>adjacentCells\<close>, \<^verbatim>\<open>extensions\<close>,
    \<^verbatim>\<open>completions\<close>, the entropy map) stays a value, computed by the functions above from
    the contents read from the store at that moment;
  \<^item> a coordinate pair is a value: the source has no assignment to an element of a pair;
  \<^item> the parameter \<^verbatim>\<open>mode\<close> is a variable of the call, allocated on entry with the value
    of the argument; the assignment \<^verbatim>\<open>mode = ProbabilityMode.TARGETING\<close> writes to it;
  \<^item> a function returns its result (or the error thrown) together with the store as it
    is at that moment.
\<close>

datatype object =
    CoordinateArray "Coordinate list"
  | NumberArray "int list"
  | SunkShipArray "(int \<times> nat) list"
  | MapArray ProbabilityMap
  | ModeVariable ProbabilityMode

type_synonym store = "object list"

text \<open>Reading an object of the store as the array (or variable) that the types of the
  source say it is.\<close>

definition coordinatesAt :: "store \<Rightarrow> nat \<Rightarrow> Coordinate list" where
  "coordinatesAt s a = (case s ! a of CoordinateArray cs \<Rightarrow> cs | _ \<Rightarrow> [])"

definition numbersAt :: "store \<Rightarrow> nat \<Rightarrow> int list" where
  "numbersAt s a = (case s ! a of NumberArray ns \<Rightarrow> ns | _ \<Rightarrow> [])"

definition sunkShipsAt :: "store \<Rightarrow> nat \<Rightarrow> SunkShip list" where
  "sunkShipsAt s a =
     (case s ! a of
        SunkShipArray ships \<Rightarrow>
          map (\<lambda>ship. \<lparr>sunkLength = fst ship, positions = coordinatesAt s (snd ship)\<rparr>) ships
      | _ \<Rightarrow> [])"

definition mapAt :: "store \<Rightarrow> nat \<Rightarrow> ProbabilityMap" where
  "mapAt s a = (case s ! a of MapArray m \<Rightarrow> m | _ \<Rightarrow> [])"

definition modeAt :: "store \<Rightarrow> nat \<Rightarrow> ProbabilityMode" where
  "modeAt s a = (case s ! a of ModeVariable mode \<Rightarrow> mode | _ \<Rightarrow> NORMAL)"

text \<open>A loop or a call that only assigns to cells of the map at address \<open>p\<close>.\<close>

definition updateMap :: "nat \<Rightarrow> (ProbabilityMap \<Rightarrow> ProbabilityMap) \<Rightarrow> store \<Rightarrow> store" where
  "updateMap p f s = s[p := MapArray (f (mapAt s p))]"

text \<open>\<^verbatim>\<open>findAlignedHits\<close>: the \<^verbatim>\<open>coordinates\<close> of each group of the result is a new array
  (\<^verbatim>\<open>rowHits.slice(start, i)\<close>), allocated in the order of the result; the group is returned
  as its direction and the address of that array.\<close>

fun allocGroups :: "AlignedGroup list \<Rightarrow> store \<Rightarrow> (Direction \<times> nat) list \<times> store" where
  "allocGroups [] s = ([], s)"
| "allocGroups (g # gs) s =
     (case allocGroups gs (s @ [CoordinateArray (coordinates g)]) of
        (rest, s') \<Rightarrow> ((direction g, length s) # rest, s'))"

definition findAlignedHitsS :: "nat \<Rightarrow> store \<Rightarrow> (Direction \<times> nat) list \<times> store" where
  "findAlignedHitsS hits s = allocGroups (findAlignedHits (coordinatesAt s hits)) s"

text \<open>\<^verbatim>\<open>getExtensionPoints\<close>: \<^verbatim>\<open>coordinates.sort(...)\<close> sorts the array it was given, in
  place; the rest of the function reads the sorted array.\<close>

definition getExtensionPointsS ::
  "nat \<Rightarrow> Direction \<Rightarrow> nat \<Rightarrow> nat \<Rightarrow> nat \<Rightarrow> store \<Rightarrow> (error + Coordinate list) \<times> store" where
  "getExtensionPointsS coords dir boardHeight boardWidth misses s =
     (let s1 = s[coords := CoordinateArray
                   (case dir of
                      Horizontal \<Rightarrow> sort_key snd (coordinatesAt s coords)
                    | Vertical \<Rightarrow> sort_key fst (coordinatesAt s coords))]
      in (getExtensionPoints (coordinatesAt s1 coords) dir boardHeight boardWidth
            (coordinatesAt s1 misses), s1))"

fun completionsOfS ::
  "nat \<Rightarrow> nat \<Rightarrow> nat \<Rightarrow> int \<Rightarrow> (Direction \<times> nat) list \<Rightarrow> store
     \<Rightarrow> (error + Coordinate list) \<times> store" where
  "completionsOfS boardHeight boardWidth misses shipSize [] s = (Inr [], s)"
| "completionsOfS boardHeight boardWidth misses shipSize (g # gs) s =
     (if int (length (coordinatesAt s (snd g))) \<ge> shipSize
      then completionsOfS boardHeight boardWidth misses shipSize gs s
      else case getExtensionPointsS (snd g) (fst g) boardHeight boardWidth misses s of
             (Inl e, s1) \<Rightarrow> (Inl e, s1)
           | (Inr extensions, s1) \<Rightarrow>
               (case completionsOfS boardHeight boardWidth misses shipSize gs s1 of
                  (Inl e, s2) \<Rightarrow> (Inl e, s2)
                | (Inr others, s2) \<Rightarrow>
                    (Inr ((if int (length (coordinatesAt s1 (snd g))) = shipSize - 1
                           then extensions else []) @ others), s2)))"

definition findPotentialCompletionsS ::
  "nat \<Rightarrow> nat \<Rightarrow> nat \<Rightarrow> nat \<Rightarrow> int \<Rightarrow> store \<Rightarrow> (error + Coordinate list) \<times> store" where
  "findPotentialCompletionsS boardHeight boardWidth hits misses shipSize s =
     (case findAlignedHitsS hits s of
        (alignedGroups, s1) \<Rightarrow> completionsOfS boardHeight boardWidth misses shipSize alignedGroups s1)"

text \<open>\<^verbatim>\<open>for (const [row, col] of cells) if (m[row][col] > 0) m[row][col] *= factor\<close> on the
  map at address \<open>p\<close>; a row outside the map throws after the cells before it have been
  written.\<close>

fun boostCellsS :: "rat \<Rightarrow> nat \<Rightarrow> Coordinate list \<Rightarrow> store \<Rightarrow> (error + unit) \<times> store" where
  "boostCellsS factor p [] s = (Inr (), s)"
| "boostCellsS factor p (coord # rest) s =
     (case boostCell factor (mapAt s p) coord of
        Inl e \<Rightarrow> (Inl e, s)
      | Inr m' \<Rightarrow> boostCellsS factor p rest (s[p := MapArray m']))"

definition applyTargetingStrategyS ::
  "nat \<Rightarrow> nat \<Rightarrow> nat \<Rightarrow> nat \<Rightarrow> nat \<Rightarrow> store \<Rightarrow> (error + unit) \<times> store" where
  "applyTargetingStrategyS p boardHeight boardWidth hits misses s =
     (if length (coordinatesAt s hits) = 0 then (Inr (), s)
      else
        case findAlignedHitsS hits s of
          (alignedHits, s1) \<Rightarrow>
            if length alignedHits \<ge> 2 then
              (case alignedHits of
                 [] \<Rightarrow> (Inl TypeError, s1)
               | g # _ \<Rightarrow>
                   (case getExtensionPointsS (snd g) (fst g) boardHeight boardWidth misses s1 of
                      (Inl e, s2) \<Rightarrow> (Inl e, s2)
                    | (Inr extensions, s2) \<Rightarrow> boostCellsS ALIGNMENT_FACTOR p extensions s2))
            else
              (case boostCellsS ADJACENCY_FACTOR p
                      (getAdjacentCells boardHeight boardWidth
                         (coordinatesAt s1 hits) (coordinatesAt s1 misses)) s1 of
                 (Inl e, s2) \<Rightarrow> (Inl e, s2)
               | (Inr _, s2) \<Rightarrow>
                   (case findPotentialCompletionsS boardHeight boardWidth hits misses
                           (findSmallestRemainingShip (mapAt s2 p) boardHeight boardWidth) s2 of
                      (Inl e, s3) \<Rightarrow> (Inl e, s3)
                    | (Inr completions, s3) \<Rightarrow>
                        boostCellsS COMPLETION_FACTOR p completions s3)))"


fun boostExtensionsS ::
  "rat \<Rightarrow> nat \<Rightarrow> nat \<Rightarrow> nat \<Rightarrow> nat \<Rightarrow> (Direction \<times> nat) list \<Rightarrow> store
     \<Rightarrow> (error + unit) \<times> store" where
  "boostExtensionsS factor p boardHeight boardWidth misses [] s = (Inr (), s)"
| "boostExtensionsS factor p boardHeight boardWidth misses (g # gs) s =
     (case getExtensionPointsS (snd g) (fst g) boardHeight boardWidth misses s of
        (Inl e, s1) \<Rightarrow> (Inl e, s1)
      | (Inr extensions, s1) \<Rightarrow>
          (case boostCellsS factor p extensions s1 of
             (Inl e, s2) \<Rightarrow> (Inl e, s2)
           | (Inr _, s2) \<Rightarrow> boostExtensionsS factor p boardHeight boardWidth misses gs s2))"

definition applySuperAggressiveStrategyS ::
  "nat \<Rightarrow> nat \<Rightarrow> nat \<Rightarrow> nat \<Rightarrow> nat \<Rightarrow> store \<Rightarrow> (error + unit) \<times> store" where
  "applySuperAggressiveStrategyS p boardHeight boardWidth hits misses s =
     (if length (coordinatesAt s hits) = 0
      then (Inr (), updateMap p (\<lambda>m. applyCheckerboardPattern m boardHeight boardWidth) s)
      else
        case findAlignedHitsS hits s of
          (alignedHits, s1) \<Rightarrow>
            (case (if length alignedHits \<ge> 2
                   then boostExtensionsS SUPER_ALIGNMENT_FACTOR p boardHeight boardWidth misses
                          alignedHits s1
                   else boostCellsS SUPER_ADJACENCY_FACTOR p
                          (getAdjacentCells boardHeight boardWidth
                             (coordinatesAt s1 hits) (coordinatesAt s1 misses)) s1) of
               (Inl e, s2) \<Rightarrow> (Inl e, s2)
             | (Inr _, s2) \<Rightarrow>
                 (case findPotentialCompletionsS boardHeight boardWidth hits misses
                         (findSmallestRemainingShip (mapAt s2 p) boardHeight boardWidth) s2 of
                    (Inl e, s3) \<Rightarrow> (Inl e, s3)
                  | (Inr completions, s3) \<Rightarrow>
                      (case boostCellsS SUPER_COMPLETION_FACTOR p completions s3 of
                         (Inl e, s4) \<Rightarrow> (Inl e, s4)
                       | (Inr _, s4) \<Rightarrow>
                           (Inr (), updateMap p
                              (\<lambda>m. applyPatternRecognition m boardHeight boardWidth
                                     (coordinatesAt s4 hits) (coordinatesAt s4 misses)) s4)))))"

text \<open>\<^verbatim>\<open>applyOptimizedStrategy\<close>: \<^verbatim>\<open>activeHits\<close> is a new array (\<^verbatim>\<open>hits.filter\<close>), whose
  address is passed on as the \<^verbatim>\<open>hits\<close> of the functions called with it; the groups are read
  again, after the in-place sorts, by the filter that computes \<^verbatim>\<open>isolatedHits\<close>.\<close>

definition applyOptimizedStrategyS ::
  "nat \<Rightarrow> nat \<Rightarrow> nat \<Rightarrow> nat \<Rightarrow> nat \<Rightarrow> nat \<Rightarrow> nat \<Rightarrow> store \<Rightarrow> (error + unit) \<times> store" where
  "applyOptimizedStrategyS p boardHeight boardWidth hits misses remainingShips sunkShips s =
     (let activeHits = length s;
          s0 = s @ [CoordinateArray (getActiveHits (coordinatesAt s hits) (sunkShipsAt s sunkShips))]
      in if length (coordinatesAt s0 activeHits) = 0
         then (Inr (), updateMap p
                 (\<lambda>m. applyOptimalInitialPattern m boardHeight boardWidth
                        (numbersAt s0 remainingShips)) s0)
         else
           case findAlignedHitsS activeHits s0 of
             (alignedHits, s1) \<Rightarrow>
               (case (if length alignedHits \<ge> 1
                      then boostExtensionsS OPTIMIZED_ALIGNMENT_FACTOR p boardHeight boardWidth
                             misses alignedHits s1
                      else (Inr (), s1)) of
                  (Inl e, s2) \<Rightarrow> (Inl e, s2)
                | (Inr _, s2) \<Rightarrow>
                    let isolatedHits = filter (\<lambda>hit.
                          \<not> list_ex (\<lambda>g. list_ex (\<lambda>coord. fst coord = fst hit \<and> snd coord = snd hit)
                                            (coordinatesAt s2 (snd g))) alignedHits)
                          (coordinatesAt s2 activeHits)
                    in (case (if length isolatedHits > 0
                              then boostCellsS OPTIMIZED_ADJACENCY_FACTOR p
                                     (getAdjacentCells boardHeight boardWidth isolatedHits
                                        (coordinatesAt s2 misses)) s2
                              else (Inr (), s2)) of
                          (Inl e, s3) \<Rightarrow> (Inl e, s3)
                        | (Inr _, s3) \<Rightarrow>
                            (case findPotentialCompletionsS boardHeight boardWidth activeHits misses
                                    (findSmallestRemainingShip (mapAt s3 p) boardHeight boardWidth)
                                    s3 of
                               (Inl e, s4) \<Rightarrow> (Inl e, s4)
                             | (Inr completions, s4) \<Rightarrow>
                                 (case boostCellsS OPTIMIZED_COMPLETION_FACTOR p completions s4 of
                                    (Inl e, s5) \<Rightarrow> (Inl e, s5)
                                  | (Inr _, s5) \<Rightarrow>
                                      let s6 = updateMap p
                                            (\<lambda>m. applyEnhancedPatternRecognition m boardHeight
                                                   boardWidth (coordinatesAt s5 activeHits)
                                                   (coordinatesAt s5 misses)) s5
                                      in (Inr (), updateMap p
                                            (\<lambda>m. applyInformationEntropy m boardHeight boardWidth
                                                   (coordinatesAt s6 hits) (coordinatesAt s6 misses)
                                                   (numbersAt s6 remainingShips)) s6))))))"

definition applyModeS ::
  "ProbabilityMode \<Rightarrow> nat \<Rightarrow> nat \<Rightarrow> nat \<Rightarrow> nat \<Rightarrow> nat \<Rightarrow> nat \<Rightarrow> nat \<Rightarrow> store
     \<Rightarrow> (error + unit) \<times> store" where
  "applyModeS mode p boardHeight boardWidth hits misses remainingShips sunkShips s =
     (case mode of
        HUNTING \<Rightarrow>
          (Inr (), updateMap p (\<lambda>m. applyCheckerboardPattern m boardHeight boardWidth) s)
      | TARGETING \<Rightarrow> applyTargetingStrategyS p boardHeight boardWidth hits misses s
      | SUPER_AGGRESSIVE \<Rightarrow> applySuperAggressiveStrategyS p boardHeight boardWidth hits misses s
      | OPTIMIZED \<Rightarrow>
          applyOptimizedStrategyS p boardHeight boardWidth hits misses remainingShips sunkShips s
      | NORMAL \<Rightarrow>
          (Inr (), updateMap p
             (\<lambda>m. foldl (\<lambda>m coord. setCell m (fst coord) (snd coord)
                                     (min 1 (cellAt m (fst coord) (snd coord) * ADJACENCY_FACTOR)))
                    m (getAdjacentCells boardHeight boardWidth
                         (coordinatesAt s hits) (coordinatesAt s misses))) s))"

text \<open>\<^verbatim>\<open>calculateProbabilityMap\<close>: the call allocates its parameter \<^verbatim>\<open>mode\<close> and the
  probability map, and returns the address of the map.\<close>

definition calculateProbabilityMapS ::
  "nat \<Rightarrow> nat \<Rightarrow> nat \<Rightarrow> nat \<Rightarrow> nat \<Rightarrow> ProbabilityMode \<Rightarrow> nat \<Rightarrow> store \<Rightarrow> (error + nat) \<times> store" where
  "calculateProbabilityMapS boardHeight boardWidth hits misses remainingShips modeArgument sunkShips s =
     (let mode = length s;
          s0 = s @ [ModeVariable modeArgument];
          probabilityMap = length s0;
          s1 = s0 @ [MapArray (zeroGrid boardHeight boardWidth)]
      in if length (numbersAt s1 remainingShips) = 0 then (Inr probabilityMap, s1)
         else
           let s2 = (if modeAt s1 mode = NORMAL \<and> length (coordinatesAt s1 hits) > 0
                     then s1[mode := ModeVariable TARGETING] else s1);
               tally = tallyPlacements boardHeight boardWidth (coordinatesAt s2 hits)
                         (coordinatesAt s2 misses) (numbersAt s2 remainingShips)
                         (sunkShipsAt s2 sunkShips)
           in if snd tally = 0 then (Inr probabilityMap, s2)
              else
                let s3 = s2[probabilityMap := MapArray
                             (baseProbabilityMap boardHeight boardWidth (coordinatesAt s2 hits)
                                (coordinatesAt s2 misses) (fst tally) (snd tally))]
                in case applyModeS (modeAt s3 mode) probabilityMap boardHeight boardWidth hits
                          misses remainingShips sunkShips s3 of
                     (Inl e, s4) \<Rightarrow> (Inl e, s4)
                   | (Inr _, s4) \<Rightarrow>
                       (Inr probabilityMap,
                        updateMap probabilityMap
                          (\<lambda>m. normalizeMap m boardHeight boardWidth) s4))"

text \<open>The map that the caller receives: the contents, when the call returns, of the array
  whose address is returned.\<close>

definition returnedMap :: "(error + nat) \<times> store \<Rightarrow> error + ProbabilityMap" where
  "returnedMap r = (case fst r of Inl e \<Rightarrow> Inl e | Inr p \<Rightarrow> Inr (mapAt (snd r) p))"

text \<open>The store \<open>s\<close> of the caller holds the arguments \<open>hits\<close>, \<open>misses\<close>, \<open>remainingShips\<close>
  and \<open>sunkShips\<close> at the addresses given, the \<^verbatim>\<open>positions\<close> of the sunk ships being arrays of
  \<open>s\<close> as well.\<close>

definition argumentsAt ::
  "store \<Rightarrow> nat \<Rightarrow> nat \<Rightarrow> nat \<Rightarrow> nat
     \<Rightarrow> Coordinate list \<Rightarrow> Coordinate list \<Rightarrow> int list \<Rightarrow> SunkShip list \<Rightarrow> bool" where
  "argumentsAt s hitsA missesA shipsA sunkA hits misses remainingShips sunkShips \<longleftrightarrow>
     hitsA < length s \<and> s ! hitsA = CoordinateArray hits
     \<and> missesA < length s \<and> s ! missesA = CoordinateArray misses
     \<and> shipsA < length s \<and> s ! shipsA = NumberArray remainingShips
     \<and> sunkA < length s
     \<and> (case s ! sunkA of
           SunkShipArray ships \<Rightarrow> list_all (\<lambda>ship. snd ship < length s) ships
         | _ \<Rightarrow> False)
     \<and> sunkShipsAt s sunkA = sunkShips"

subsection \<open>Vocabulary of the properties\<close>

text \<open>A grid of \<open>height\<close> rows of \<open>width\<close> cells each.\<close>

definition wfGrid :: "nat \<Rightarrow> nat \<Rightarrow> 'a list list \<Rightarrow> bool" where
  "wfGrid height width m \<longleftrightarrow> length m = height \<and> (\<forall>row \<in> set m. length row = width)"

text \<open>The step from \<open>m\<close> to \<open>m'\<close> keeps the shape of the board and raises no cell that is 0.\<close>

definition keepsZeros :: "nat \<Rightarrow> nat \<Rightarrow> ProbabilityMap \<Rightarrow> ProbabilityMap \<Rightarrow> bool" where
  "keepsZeros height width m m' \<longleftrightarrow>
     wfGrid height width m' \<and> (\<forall>r < height. \<forall>c < width. m ! r ! c = 0 \<longrightarrow> m' ! r ! c = 0)"

definition inBounds :: "nat \<Rightarrow> nat \<Rightarrow> Coordinate list \<Rightarrow> bool" where
  "inBounds height width cells \<longleftrightarrow>
     (\<forall>coord \<in> set cells. isValidCell (fst coord) (snd coord) height width)"

text \<open>Well-formed input: positive dimensions, all coordinates on the board, Hit and Miss
  sets disjoint.\<close>

definition wellFormedInput :: "nat \<Rightarrow> nat \<Rightarrow> Coordinate list \<Rightarrow> Coordinate list \<Rightarrow> bool" where
  "wellFormedInput height width hits misses \<longleftrightarrow>
     0 < height \<and> 0 < width \<and> inBounds height width hits \<and> inBounds height width misses
     \<and> set hits \<inter> set misses = {}"

text \<open>From the store \<open>s\<close> to the store \<open>s'\<close> no object is lost and no object of \<open>s\<close> other
  than the one at address \<open>p\<close> is changed.\<close>

definition keepsOthers :: "nat \<Rightarrow> store \<Rightarrow> store \<Rightarrow> bool" where
  "keepsOthers p s s' \<longleftrightarrow> length s \<le> length s' \<and> (\<forall>a < length s. a \<noteq> p \<longrightarrow> s' ! a = s ! a)"

text \<open>The outcome \<open>r\<close> of a function over the store that writes to the map at address \<open>p\<close>
  is the outcome \<open>result\<close> of the function over values: the same error, or the same map,
  found in the store at \<open>p\<close>.\<close>

definition yields :: "(error + unit) \<times> store \<Rightarrow> nat \<Rightarrow> error + ProbabilityMap \<Rightarrow> bool" where
  "yields r p result \<longleftrightarrow>
     (case result of
        Inl e \<Rightarrow> fst r = Inl e
      | Inr m \<Rightarrow> fst r = Inr () \<and> mapAt (snd r) p = m)"


text \<open>A cross of hits on a board of 16 by 16 cells: every cell of row 8 and of column 8
  except the cell (8,8) where they meet.\<close>

definition crossOfHits :: "Coordinate list" where
  "crossOfHits =
     map (\<lambda>col. (8, col)) ([0..7] @ [9..15]) @ map (\<lambda>row. (row, 8)) ([0..7] @ [9..15])"


subsection \<open>Placements as the specification counts them\<close>

text \<open>Written from the words of the specification, to be compared with the enumerator: a
  placement of a ship of length \<open>len\<close> is an orientation and a start cell on the board such
  that the ship, laid from the start cell to the right (horizontal) or downwards
  (vertical), stays on the board; it covers the cells of its row (column) from the start
  cell on, \<open>len\<close> of them.\<close>

definition fitsBoard :: "nat \<Rightarrow> nat \<Rightarrow> int \<Rightarrow> Direction \<times> int \<times> int \<Rightarrow> bool" where
  "fitsBoard height width len pl =
     (case pl of
        (Horizontal, row, col) \<Rightarrow> col + len \<le> int width
      | (Vertical, row, col) \<Rightarrow> row + len \<le> int height)"

definition specPlacements :: "nat \<Rightarrow> nat \<Rightarrow> int \<Rightarrow> (Direction \<times> int \<times> int) list" where
  "specPlacements height width len =
     filter (fitsBoard height width len)
       (List.product [Horizontal, Vertical]
          (List.product [0..int height - 1] [0..int width - 1]))"

definition covers :: "int \<Rightarrow> Direction \<times> int \<times> int \<Rightarrow> Coordinate \<Rightarrow> bool" where
  "covers len pl cell =
     (case pl of
        (Horizontal, row, col) \<Rightarrow> fst cell = row \<and> col \<le> snd cell \<and> snd cell < col + len
      | (Vertical, row, col) \<Rightarrow> snd cell = col \<and> row \<le> fst cell \<and> fst cell < row + len)"

definition coverCount :: "nat \<Rightarrow> nat \<Rightarrow> int \<Rightarrow> Coordinate \<Rightarrow> nat" where
  "coverCount height width len cell =
     length (filter (\<lambda>pl. covers len pl cell) (specPlacements height width len))"

text \<open>The cells of such a placement, in the order in which the enumerator lists them.\<close>

definition cellsOf :: "int \<Rightarrow> Direction \<times> int \<times> int \<Rightarrow> Coordinate list" where
  "cellsOf len pl =
     (case pl of
        (Horizontal, row, col) \<Rightarrow> map (\<lambda>i. (row, col + i)) [0..len - 1]
      | (Vertical, row, col) \<Rightarrow> map (\<lambda>i. (row + i, col)) [0..len - 1])"

section \<open>Properties\<close>

subsection \<open>Errors and membership\<close>

lemma bindE_Inr [simp]: "bindE (Inr v) f = f v"
  by (simp add: bindE_def)

lemma bindE_Inl [simp]: "bindE (Inl e) f = Inl e"
  by (simp add: bindE_def)

lemma isCoordinateInList_iff [simp]: "isCoordinateInList coord list \<longleftrightarrow> coord \<in> set list"
  by (auto simp: isCoordinateInList_def list_ex_iff prod_eq_iff)

subsection \<open>Grids\<close>

lemma wfGrid_row: "wfGrid h w m \<Longrightarrow> r < h \<Longrightarrow> length (m ! r) = w"
  by (simp add: wfGrid_def)

lemma wfGrid_zeroGrid: "wfGrid h w (zeroGrid h w)"
  by (simp add: wfGrid_def zeroGrid_def)

lemma wfGrid_mapCells: "wfGrid h w (mapCells h w f m)"
  by (auto simp: wfGrid_def mapCells_def)

lemma nth_mapCells:
  "r < h \<Longrightarrow> c < w \<Longrightarrow> mapCells h w f m ! r ! c = f (int r) (int c) (m ! r ! c)"
  by (simp add: mapCells_def)

lemma wfGrid_setCell:
  assumes "wfGrid h w m"
  shows "wfGrid h w (setCell m r c v)"
proof (cases "nat r < length m")
  case True
  then have "length ((m ! nat r)[nat c := v]) = w"
    using assms by (simp add: wfGrid_def)
  moreover have "set (m[nat r := (m ! nat r)[nat c := v]])
      \<subseteq> insert ((m ! nat r)[nat c := v]) (set m)"
    by (rule set_update_subset_insert)
  ultimately show ?thesis
    using assms by (auto simp: wfGrid_def setCell_def)
next
  case False
  then have "m[nat r := (m ! nat r)[nat c := v]] = m"
    by (simp add: list_update_beyond)
  then show ?thesis using assms by (simp add: setCell_def)
qed

lemma nth_setCell:
  assumes "wfGrid h w m" "0 \<le> r" "0 \<le> c" "r' < h" "c' < w"
  shows "setCell m r c v ! r' ! c' = (if r = int r' \<and> c = int c' then v else m ! r' ! c')"
proof (cases "nat r = r'")
  case True
  with assms have "setCell m r c v ! r' = (m ! r')[nat c := v]"
    by (simp add: setCell_def wfGrid_def)
  moreover from assms have "length (m ! r') = w" by (simp add: wfGrid_row)
  ultimately show ?thesis using assms True
    by (auto simp: nth_list_update)
next
  case False
  with assms show ?thesis by (auto simp: setCell_def)
qed

lemma cellAt_nat: "cellAt m (int r) (int c) = m ! r ! c"
  by (simp add: cellAt_def)

lemma keepsZeros_refl: "wfGrid h w m \<Longrightarrow> keepsZeros h w m m"
  by (simp add: keepsZeros_def)

lemma keepsZeros_trans: "keepsZeros h w a b \<Longrightarrow> keepsZeros h w b c \<Longrightarrow> keepsZeros h w a c"
  by (simp add: keepsZeros_def)

lemma keepsZeros_wf: "keepsZeros h w m m' \<Longrightarrow> wfGrid h w m'"
  by (simp add: keepsZeros_def)

lemma keepsZeros_mapCells:
  "(\<And>r c. f r c 0 = 0) \<Longrightarrow> keepsZeros h w m (mapCells h w f m)"
  by (simp add: keepsZeros_def wfGrid_mapCells nth_mapCells)

lemma keepsZeros_setCell:
  assumes "wfGrid h w m" "0 \<le> r" "0 \<le> c" "cellAt m r c = 0 \<Longrightarrow> v = 0"
  shows "keepsZeros h w m (setCell m r c v)"
  unfolding keepsZeros_def
proof (intro conjI allI impI)
  show "wfGrid h w (setCell m r c v)" using assms(1) by (rule wfGrid_setCell)
next
  fix r' c' assume rc: "r' < h" "c' < w" and z: "m ! r' ! c' = 0"
  show "setCell m r c v ! r' ! c' = 0"
  proof (cases "r = int r' \<and> c = int c'")
    case True
    with z have "cellAt m r c = 0" by (simp add: cellAt_def)
    with assms(4) True rc assms(1-3) show ?thesis by (simp add: nth_setCell)
  next
    case False
    then have "setCell m r c v ! r' ! c' = m ! r' ! c'"
      using rc assms(1-3) nth_setCell [of h w m r c r' c' v] by auto
    with z show ?thesis by simp
  qed
qed

lemma keepsZeros_scaleCell:
  "wfGrid h w m \<Longrightarrow> 0 \<le> fst rc \<Longrightarrow> 0 \<le> snd rc \<Longrightarrow> keepsZeros h w m (scaleCell f m rc)"
  unfolding scaleCell_def by (rule keepsZeros_setCell) simp_all

lemma keepsZeros_scaleIfPositive:
  "wfGrid h w m \<Longrightarrow> 0 \<le> fst rc \<Longrightarrow> 0 \<le> snd rc \<Longrightarrow> keepsZeros h w m (scaleIfPositive f m rc)"
  by (simp add: scaleIfPositive_def keepsZeros_scaleCell keepsZeros_refl)

lemma keepsZeros_foldl:
  assumes step: "\<And>m x. wfGrid h w m \<Longrightarrow> x \<in> set xs \<Longrightarrow> keepsZeros h w m (step m x)"
    and wf: "wfGrid h w m"
  shows "keepsZeros h w m (foldl step m xs)"
  using assms
proof (induction xs arbitrary: m)
  case Nil
  then show ?case by (simp add: keepsZeros_refl)
next
  case (Cons x xs)
  have one: "keepsZeros h w m (step m x)" using Cons.prems by simp
  then have "wfGrid h w (step m x)" by (rule keepsZeros_wf)
  then have "keepsZeros h w (step m x) (foldl step (step m x) xs)"
    using Cons.prems(1) by (intro Cons.IH) simp_all
  with one show ?case by (auto intro: keepsZeros_trans)
qed

lemma boostCell_keepsZeros:
  assumes "wfGrid h w m" "0 \<le> fst rc" "fst rc < int h"
  shows "\<exists>m'. boostCell f m rc = Inr m' \<and> keepsZeros h w m m'"
  using assms
  by (auto simp: boostCell_def wfGrid_def intro: keepsZeros_scaleIfPositive keepsZeros_refl)

lemma boostCells_keepsZeros:
  assumes "wfGrid h w m" "\<forall>rc \<in> set cells. 0 \<le> fst rc \<and> fst rc < int h"
  shows "\<exists>m'. boostCells f m cells = Inr m' \<and> keepsZeros h w m m'"
  using assms
proof (induction cells arbitrary: m)
  case Nil
  then show ?case by (simp add: keepsZeros_refl)
next
  case (Cons rc cells)
  then obtain m1 where m1: "boostCell f m rc = Inr m1" "keepsZeros h w m m1"
    using boostCell_keepsZeros [of h w m rc f] by auto
  then have "wfGrid h w m1" by (simp add: keepsZeros_wf)
  with Cons obtain m2 where "boostCells f m1 cells = Inr m2" "keepsZeros h w m1 m2"
    by fastforce
  with m1 show ?case by (auto intro: keepsZeros_trans)
qed

lemma inBounds_rows: "inBounds h w cells \<Longrightarrow> \<forall>rc \<in> set cells. 0 \<le> fst rc \<and> fst rc < int h"
  by (simp add: inBounds_def isValidCell_def)

subsection \<open>Alignment analyzer: groups are made of hits\<close>

lemma addToGroup_cells:
  "(\<Union>e \<in> set (addToGroup k v groups). set (snd e)) = insert v (\<Union>e \<in> set groups. set (snd e))"
  by (induction k v groups rule: addToGroup.induct) auto

lemma foldl_addToGroup_cells:
  "(\<Union>e \<in> set (foldl (\<lambda>groups hit. addToGroup (key hit) hit groups) acc hits). set (snd e))
     = (\<Union>e \<in> set acc. set (snd e)) \<union> set hits"
  by (induction hits arbitrary: acc) (simp_all add: addToGroup_cells)

lemma hitsByRow_cells: "e \<in> set (hitsByRow hits) \<Longrightarrow> set (snd e) \<subseteq> set hits"
  using foldl_addToGroup_cells [of fst "[]" hits] by (auto simp: hitsByRow_def)

lemma hitsByCol_cells: "e \<in> set (hitsByCol hits) \<Longrightarrow> set (snd e) \<subseteq> set hits"
  using foldl_addToGroup_cells [of snd "[]" hits] by (auto simp: hitsByCol_def)

lemma consecutiveRuns_sub:
  "run' \<in> set (consecutiveRuns key run rest) \<Longrightarrow> set run' \<subseteq> set run \<union> set rest \<and> 2 \<le> length run'"
  by (induction rest arbitrary: run) (fastforce split: if_splits)+

lemma lineGroups_sub:
  assumes "g \<in> set (lineGroups dir key xs)"
  shows "set (coordinates g) \<subseteq> set xs \<and> 2 \<le> length (coordinates g)"
proof (cases "sort_key key xs")
  case Nil
  with assms show ?thesis by (simp add: lineGroups_def split: if_splits)
next
  case (Cons first rest)
  with assms obtain run where run: "run \<in> set (consecutiveRuns key [first] rest)"
    and g: "coordinates g = run"
    by (auto simp: lineGroups_def split: if_splits)
  have "set (sort_key key xs) = set xs" by simp
  with Cons have "set [first] \<union> set rest = set xs" by simp
  with consecutiveRuns_sub [OF run] g show ?thesis by simp
qed

lemma findAlignedHits_sub:
  assumes "g \<in> set (findAlignedHits hits)"
  shows "set (coordinates g) \<subseteq> set hits \<and> 2 \<le> length (coordinates g)"
  using assms lineGroups_sub hitsByRow_cells hitsByCol_cells
  unfolding findAlignedHits_def by fastforce

text \<open>Groups whose cells are on the board.\<close>

lemma findAlignedHits_inBounds:
  assumes "inBounds h w hits" "g \<in> set (findAlignedHits hits)"
  shows "coordinates g \<noteq> [] \<and> inBounds h w (coordinates g)"
  using findAlignedHits_sub [OF assms(2)] assms(1) by (auto simp: inBounds_def)

subsection \<open>Extension points, neighbours and completions are on the board\<close>

lemma sort_key_first_last:
  assumes "xs \<noteq> []"
  obtains first rest where "sort_key key xs = first # rest" "first \<in> set xs"
    "last (first # rest) \<in> set xs"
proof -
  have "sort_key key xs \<noteq> []" using assms by (metis length_0_conv length_sort)
  then obtain first rest where fr: "sort_key key xs = first # rest" by (cases "sort_key key xs") auto
  have "set (first # rest) = set xs" using fr by (metis set_sort)
  moreover have "last (first # rest) \<in> set (first # rest)" by (rule last_in_set) simp
  ultimately show thesis using fr that by auto
qed

lemma getExtensionPoints_inBounds:
  assumes "coords \<noteq> []" "inBounds h w coords"
  shows "\<exists>exts. getExtensionPoints coords dir h w misses = Inr exts \<and> inBounds h w exts"
proof (cases dir)
  case Horizontal
  from assms(1) obtain first rest where fr: "sort_key snd coords = first # rest"
    "first \<in> set coords" "last (first # rest) \<in> set coords"
    by (rule sort_key_first_last)
  with assms(2) have "isValidCell (fst first) (snd first) h w"
    "isValidCell (fst (last (first # rest))) (snd (last (first # rest))) h w"
    by (auto simp: inBounds_def)
  with Horizontal fr(1) show ?thesis
    by (auto simp: getExtensionPoints_def Let_def inBounds_def isValidCell_def)
next
  case Vertical
  from assms(1) obtain first rest where fr: "sort_key fst coords = first # rest"
    "first \<in> set coords" "last (first # rest) \<in> set coords"
    by (rule sort_key_first_last)
  with assms(2) have "isValidCell (fst first) (snd first) h w"
    "isValidCell (fst (last (first # rest))) (snd (last (first # rest))) h w"
    by (auto simp: inBounds_def)
  with Vertical fr(1) show ?thesis
    by (auto simp: getExtensionPoints_def Let_def inBounds_def isValidCell_def)
qed

lemma adjacentStep_inBounds:
  "inBounds h w acc \<Longrightarrow> inBounds h w (adjacentStep h w hits misses hit acc d)"
  by (auto simp: adjacentStep_def Let_def inBounds_def isValidCell_def)

lemma foldl_adjacentStep_inBounds:
  "inBounds h w acc \<Longrightarrow> inBounds h w (foldl (adjacentStep h w hits misses hit) acc ds)"
  by (induction ds arbitrary: acc) (simp_all add: adjacentStep_inBounds)

lemma getAdjacentCells_inBounds: "inBounds h w (getAdjacentCells h w hits misses)"
proof -
  have "inBounds h w acc \<Longrightarrow>
        inBounds h w (foldl (\<lambda>adjacentCells hit.
              foldl (adjacentStep h w hits misses hit) adjacentCells ADJACENT_DIRECTIONS) acc xs)"
    for acc xs
    by (induction xs arbitrary: acc) (simp_all add: foldl_adjacentStep_inBounds)
  from this [of "[]" hits] show ?thesis by (simp add: getAdjacentCells_def inBounds_def)
qed

lemma completionsOf_inBounds:
  assumes "\<forall>g \<in> set gs. coordinates g \<noteq> [] \<and> inBounds h w (coordinates g)"
  shows "\<exists>cells. completionsOf h w misses shipSize gs = Inr cells \<and> inBounds h w cells"
  using assms
proof (induction gs)
  case Nil
  then show ?case by (simp add: inBounds_def)
next
  case (Cons g gs)
  then obtain more where more: "completionsOf h w misses shipSize gs = Inr more" "inBounds h w more"
    by auto
  from Cons.prems obtain exts where
    exts: "getExtensionPoints (coordinates g) (direction g) h w misses = Inr exts" "inBounds h w exts"
    using getExtensionPoints_inBounds [of "coordinates g" h w "direction g" misses] by auto
  from more exts show ?case by (auto simp: inBounds_def)
qed

lemma findPotentialCompletions_inBounds:
  assumes "inBounds h w hits"
  shows "\<exists>cells. findPotentialCompletions h w hits misses shipSize = Inr cells \<and> inBounds h w cells"
  unfolding findPotentialCompletions_def
  using assms by (intro completionsOf_inBounds) (simp add: findAlignedHits_inBounds)

lemma boostExtensions_keepsZeros:
  assumes "wfGrid h w m" "\<forall>g \<in> set gs. coordinates g \<noteq> [] \<and> inBounds h w (coordinates g)"
  shows "\<exists>m'. boostExtensions f h w misses m gs = Inr m' \<and> keepsZeros h w m m'"
  using assms
proof (induction gs arbitrary: m)
  case Nil
  then show ?case by (simp add: keepsZeros_refl)
next
  case (Cons g gs)
  from Cons.prems obtain exts where
    exts: "getExtensionPoints (coordinates g) (direction g) h w misses = Inr exts" "inBounds h w exts"
    using getExtensionPoints_inBounds [of "coordinates g" h w "direction g" misses] by auto
  with Cons.prems obtain m1 where m1: "boostCells f m exts = Inr m1" "keepsZeros h w m m1"
    using boostCells_keepsZeros [of h w m exts f] inBounds_rows by blast
  then have "wfGrid h w m1" by (simp add: keepsZeros_wf)
  with Cons obtain m2 where "boostExtensions f h w misses m1 gs = Inr m2" "keepsZeros h w m1 m2"
    by fastforce
  with exts m1 show ?case by (auto intro: keepsZeros_trans)
qed

subsection \<open>No heuristic pass raises a cell that is 0\<close>

lemma applyCheckerboardPattern_keepsZeros:
  "keepsZeros h w m (applyCheckerboardPattern m h w)"
  unfolding applyCheckerboardPattern_def by (rule keepsZeros_mapCells) simp

lemma boostCorner_keepsZeros:
  "wfGrid h w m \<Longrightarrow> keepsZeros h w m (boostCorner f h w hits misses m corner)"
  by (simp add: boostCorner_def isValidCell_def keepsZeros_scaleCell keepsZeros_refl)

lemma cornerStep_keepsZeros:
  assumes "wfGrid h w m"
  shows "keepsZeros h w m (cornerStep f h w hits misses m pr)"
proof -
  let ?m1 = "boostCorner f h w hits misses m (fst (fst pr), snd (snd pr))"
  have one: "keepsZeros h w m ?m1" using assms by (rule boostCorner_keepsZeros)
  then have "keepsZeros h w ?m1 (boostCorner f h w hits misses ?m1 (fst (snd pr), snd (fst pr)))"
    by (intro boostCorner_keepsZeros) (rule keepsZeros_wf)
  with one have "keepsZeros h w m (boostCorner f h w hits misses ?m1 (fst (snd pr), snd (fst pr)))"
    by (rule keepsZeros_trans)
  with assms show ?thesis by (simp add: cornerStep_def Let_def keepsZeros_refl)
qed

lemma cornerPass_keepsZeros:
  "wfGrid h w m \<Longrightarrow> keepsZeros h w m (cornerPass f m h w hits misses)"
  unfolding cornerPass_def by (rule keepsZeros_foldl) (simp_all add: cornerStep_keepsZeros)

lemma applyPatternRecognition_keepsZeros:
  "wfGrid h w m \<Longrightarrow> keepsZeros h w m (applyPatternRecognition m h w hits misses)"
  by (simp add: applyPatternRecognition_def cornerPass_keepsZeros)

lemma boostAdjacent_keepsZeros:
  assumes "wfGrid h w m"
  shows "\<exists>m'. boostCells f m (getAdjacentCells h w hits misses) = Inr m' \<and> keepsZeros h w m m'"
  using assms getAdjacentCells_inBounds [of h w hits misses]
  by (intro boostCells_keepsZeros inBounds_rows)

lemma boostCompletions_keepsZeros:
  assumes "wfGrid h w m" "inBounds h w hits"
  shows "\<exists>m'. bindE (findPotentialCompletions h w hits misses shipSize)
                 (\<lambda>completions. boostCells f m completions) = Inr m'
               \<and> keepsZeros h w m m'"
proof -
  from assms(2) obtain cells where
    cells: "findPotentialCompletions h w hits misses shipSize = Inr cells" "inBounds h w cells"
    using findPotentialCompletions_inBounds by blast
  with assms(1) show ?thesis
    using boostCells_keepsZeros [of h w m cells f] inBounds_rows [of h w cells] by simp
qed

lemma applyTargetingStrategy_keepsZeros:
  assumes wf: "wfGrid h w m" and hits: "inBounds h w hits"
  shows "\<exists>m'. applyTargetingStrategy m h w hits misses = Inr m' \<and> keepsZeros h w m m'"
proof (cases "length hits = 0")
  case True
  with wf show ?thesis by (simp add: applyTargetingStrategy_def keepsZeros_refl)
next
  case False
  show ?thesis
  proof (cases "2 \<le> length (findAlignedHits hits)")
    case True
    then obtain g gs where ggs: "findAlignedHits hits = g # gs"
      by (cases "findAlignedHits hits") auto
    then have "g \<in> set (findAlignedHits hits)" by simp
    with hits have "coordinates g \<noteq> []" "inBounds h w (coordinates g)"
      using findAlignedHits_inBounds by blast+
    then obtain exts where
      exts: "getExtensionPoints (coordinates g) (direction g) h w misses = Inr exts"
        "inBounds h w exts"
      using getExtensionPoints_inBounds by blast
    with wf obtain m' where "boostCells ALIGNMENT_FACTOR m exts = Inr m'" "keepsZeros h w m m'"
      using boostCells_keepsZeros [of h w m exts] inBounds_rows [of h w exts] by blast
    with False True ggs exts show ?thesis
      by (simp add: applyTargetingStrategy_def Let_def)
  next
    case few: False
    from wf obtain m1 where
      m1: "boostCells ADJACENCY_FACTOR m (getAdjacentCells h w hits misses) = Inr m1"
        "keepsZeros h w m m1"
      using boostAdjacent_keepsZeros by blast
    then have "wfGrid h w m1" by (simp add: keepsZeros_wf)
    with hits obtain m2 where
      "bindE (findPotentialCompletions h w hits misses (findSmallestRemainingShip m1 h w))
         (\<lambda>completions. boostCells COMPLETION_FACTOR m1 completions) = Inr m2"
      "keepsZeros h w m1 m2"
      using boostCompletions_keepsZeros by blast
    with False few m1 show ?thesis
      by (auto simp: applyTargetingStrategy_def Let_def intro: keepsZeros_trans)
  qed
qed

lemma applySuperAggressiveStrategy_keepsZeros:
  assumes wf: "wfGrid h w m" and hits: "inBounds h w hits"
  shows "\<exists>m'. applySuperAggressiveStrategy m h w hits misses = Inr m' \<and> keepsZeros h w m m'"
proof (cases "length hits = 0")
  case True
  then show ?thesis
    by (simp add: applySuperAggressiveStrategy_def applyCheckerboardPattern_keepsZeros)
next
  case False
  let ?first = "if 2 \<le> length (findAlignedHits hits)
     then boostExtensions SUPER_ALIGNMENT_FACTOR h w misses m (findAlignedHits hits)
     else boostCells SUPER_ADJACENCY_FACTOR m (getAdjacentCells h w hits misses)"
  have "\<exists>m1. ?first = Inr m1 \<and> keepsZeros h w m m1"
    using wf hits boostAdjacent_keepsZeros [OF wf]
      boostExtensions_keepsZeros [OF wf, of "findAlignedHits hits"] findAlignedHits_inBounds
    by auto
  then obtain m1 where m1: "?first = Inr m1" "keepsZeros h w m m1" by blast
  then have "wfGrid h w m1" by (simp add: keepsZeros_wf)
  with hits obtain m2 where
    m2: "bindE (findPotentialCompletions h w hits misses (findSmallestRemainingShip m1 h w))
         (\<lambda>completions. boostCells SUPER_COMPLETION_FACTOR m1 completions) = Inr m2"
      "keepsZeros h w m1 m2"
    using boostCompletions_keepsZeros by blast
  then have "keepsZeros h w m2 (applyPatternRecognition m2 h w hits misses)"
    by (intro applyPatternRecognition_keepsZeros) (rule keepsZeros_wf)
  with m1(2) m2(2) have "keepsZeros h w m (applyPatternRecognition m2 h w hits misses)"
    by (blast intro: keepsZeros_trans)
  moreover have "applySuperAggressiveStrategy m h w hits misses
      = Inr (applyPatternRecognition m2 h w hits misses)"
  proof -
    from m2(1) obtain completions where
      c: "findPotentialCompletions h w hits misses (findSmallestRemainingShip m1 h w) = Inr completions"
        "boostCells SUPER_COMPLETION_FACTOR m1 completions = Inr m2"
      by (cases "findPotentialCompletions h w hits misses (findSmallestRemainingShip m1 h w)") auto
    with False m1(1) show ?thesis
      by (simp add: applySuperAggressiveStrategy_def Let_def)
  qed
  ultimately show ?thesis by simp
qed

lemma getActiveHits_inBounds: "inBounds h w hits \<Longrightarrow> inBounds h w (getActiveHits hits sunkShips)"
  by (simp add: getActiveHits_def inBounds_def)

lemma spacingPattern_keepsZeros: "keepsZeros h w m (spacingPattern m h w spacing)"
  unfolding spacingPattern_def by (rule keepsZeros_mapCells) simp

lemma cornerAvoidance_keepsZeros:
  assumes "wfGrid 10 10 m"
  shows "keepsZeros 10 10 m (cornerAvoidance m 10 10)"
  unfolding cornerAvoidance_def Let_def
  by (rule keepsZeros_foldl) (use assms in \<open>auto intro!: keepsZeros_scaleIfPositive\<close>)

lemma centerStep_keepsZeros: "wfGrid h w m \<Longrightarrow> keepsZeros h w m (centerStep h w m rc)"
  by (simp add: centerStep_def keepsZeros_scaleCell keepsZeros_refl)

lemma centerFocus_keepsZeros: "wfGrid h w m \<Longrightarrow> keepsZeros h w m (centerFocus m h w)"
  unfolding centerFocus_def Let_def
  by (rule keepsZeros_foldl) (simp_all add: centerStep_keepsZeros)

lemma applyOptimalInitialPattern_keepsZeros:
  assumes "wfGrid h w m"
  shows "keepsZeros h w m (applyOptimalInitialPattern m h w remainingShips)"
proof (cases remainingShips)
  case Nil
  with assms show ?thesis by (simp add: keepsZeros_refl)
next
  case (Cons ship ships)
  let ?m1 = "spacingPattern m h w (max 2 (foldl min ship ships - 1))"
  have one: "keepsZeros h w m ?m1" by (rule spacingPattern_keepsZeros)
  show ?thesis
  proof (cases "h = 10 \<and> w = 10")
    case True
    from one True have wf1: "wfGrid 10 10 ?m1" by (simp add: keepsZeros_wf)
    then have two: "keepsZeros 10 10 ?m1 (cornerAvoidance ?m1 10 10)"
      by (rule cornerAvoidance_keepsZeros)
    then have "keepsZeros 10 10 (cornerAvoidance ?m1 10 10)
        (centerFocus (cornerAvoidance ?m1 10 10) 10 10)"
      by (intro centerFocus_keepsZeros) (rule keepsZeros_wf)
    with one two True have "keepsZeros h w m (centerFocus (cornerAvoidance ?m1 10 10) 10 10)"
      by (auto intro: keepsZeros_trans)
    with Cons True show ?thesis by (simp add: Let_def)
  next
    case False
    with Cons one show ?thesis by (auto simp: Let_def)
  qed
qed

lemma crossStep_keepsZeros: "wfGrid h w m \<Longrightarrow> keepsZeros h w m (crossStep h w hits misses m step)"
  by (simp add: crossStep_def Let_def isValidCell_def keepsZeros_scaleIfPositive keepsZeros_refl)

lemma applyEnhancedPatternRecognition_keepsZeros:
  assumes "wfGrid h w m"
  shows "keepsZeros h w m (applyEnhancedPatternRecognition m h w hits misses)"
proof -
  let ?m1 = "foldl (crossStep h w hits misses) m (List.product hits ADJACENT_DIRECTIONS)"
  have one: "keepsZeros h w m ?m1"
    by (rule keepsZeros_foldl) (simp_all add: crossStep_keepsZeros assms)
  then have "keepsZeros h w ?m1 (cornerPass OPTIMIZED_PATTERN_FACTOR ?m1 h w hits misses)"
    by (intro cornerPass_keepsZeros) (rule keepsZeros_wf)
  with one show ?thesis
    unfolding applyEnhancedPatternRecognition_def by (rule keepsZeros_trans)
qed

lemma blendEntropy_keepsZeros: "keepsZeros h w m (blendEntropy m h w entropyMap)"
  unfolding blendEntropy_def by (rule keepsZeros_mapCells) simp

lemma applyInformationEntropy_keepsZeros:
  "wfGrid h w m \<Longrightarrow> keepsZeros h w m (applyInformationEntropy m h w hits misses remainingShips)"
  by (simp add: applyInformationEntropy_def Let_def blendEntropy_keepsZeros keepsZeros_refl)

lemma isolatedHits_inBounds:
  "inBounds h w hits \<Longrightarrow> inBounds h w (filter P hits)"
  by (simp add: inBounds_def)

lemma applyOptimizedStrategy_keepsZeros:
  assumes wf: "wfGrid h w m" and hits: "inBounds h w hits"
  shows "\<exists>m'. applyOptimizedStrategy m h w hits misses remainingShips sunkShips = Inr m'
               \<and> keepsZeros h w m m'"
proof (cases "length (getActiveHits hits sunkShips) = 0")
  case True
  with wf show ?thesis
    by (simp add: applyOptimizedStrategy_def Let_def applyOptimalInitialPattern_keepsZeros)
next
  case False
  define active where "active = getActiveHits hits sunkShips"
  define aligned where "aligned = findAlignedHits active"
  define isolated where "isolated = filter (\<lambda>hit.
       \<not> list_ex (\<lambda>g. list_ex (\<lambda>coord. fst coord = fst hit \<and> snd coord = snd hit)
                         (coordinates g)) aligned) active"
  have active: "inBounds h w active"
    unfolding active_def using hits by (rule getActiveHits_inBounds)
  let ?first = "if 1 \<le> length aligned
     then boostExtensions OPTIMIZED_ALIGNMENT_FACTOR h w misses m aligned else Inr m"
  have "\<exists>m1. ?first = Inr m1 \<and> keepsZeros h w m m1"
    using wf active boostExtensions_keepsZeros [OF wf, of aligned] findAlignedHits_inBounds
    unfolding aligned_def by (auto simp: keepsZeros_refl)
  then obtain m1 where m1: "?first = Inr m1" "keepsZeros h w m m1" by blast
  then have wf1: "wfGrid h w m1" by (simp add: keepsZeros_wf)
  let ?second = "if 0 < length isolated
     then boostCells OPTIMIZED_ADJACENCY_FACTOR m1 (getAdjacentCells h w isolated misses)
     else Inr m1"
  have "\<exists>m2. ?second = Inr m2 \<and> keepsZeros h w m1 m2"
    using boostAdjacent_keepsZeros [OF wf1] wf1 by (auto simp: keepsZeros_refl)
  then obtain m2 where m2: "?second = Inr m2" "keepsZeros h w m1 m2" by blast
  then have wf2: "wfGrid h w m2" by (simp add: keepsZeros_wf)
  with active obtain m3 where
    m3: "bindE (findPotentialCompletions h w active misses (findSmallestRemainingShip m2 h w))
         (\<lambda>completions. boostCells OPTIMIZED_COMPLETION_FACTOR m2 completions) = Inr m3"
      "keepsZeros h w m2 m3"
    using boostCompletions_keepsZeros by blast
  then have wf3: "wfGrid h w m3" by (simp add: keepsZeros_wf)
  let ?m4 = "applyEnhancedPatternRecognition m3 h w active misses"
  have m4: "keepsZeros h w m3 ?m4"
    using wf3 by (rule applyEnhancedPatternRecognition_keepsZeros)
  then have "keepsZeros h w ?m4 (applyInformationEntropy ?m4 h w hits misses remainingShips)"
    by (intro applyInformationEntropy_keepsZeros) (rule keepsZeros_wf)
  with m1(2) m2(2) m3(2) m4
  have all: "keepsZeros h w m (applyInformationEntropy ?m4 h w hits misses remainingShips)"
    by (blast intro: keepsZeros_trans)
  from m3(1) obtain completions where
    c: "findPotentialCompletions h w active misses (findSmallestRemainingShip m2 h w) = Inr completions"
      "boostCells OPTIMIZED_COMPLETION_FACTOR m2 completions = Inr m3"
    by (cases "findPotentialCompletions h w active misses (findSmallestRemainingShip m2 h w)") auto
  have "applyOptimizedStrategy m h w hits misses remainingShips sunkShips
      = Inr (applyInformationEntropy ?m4 h w hits misses remainingShips)"
    using False m1(1) m2(1) c
    unfolding applyOptimizedStrategy_def Let_def active_def [symmetric] aligned_def [symmetric]
      isolated_def [symmetric]
    by simp
  with all show ?thesis by simp
qed

lemma normalAdjacency_keepsZeros:
  assumes "wfGrid h w m"
  shows "keepsZeros h w m
     (foldl (\<lambda>m coord. setCell m (fst coord) (snd coord)
                          (min 1 (cellAt m (fst coord) (snd coord) * ADJACENCY_FACTOR)))
        m (getAdjacentCells h w hits misses))"
proof (rule keepsZeros_foldl)
  fix m' :: ProbabilityMap and x
  assume "wfGrid h w m'" "x \<in> set (getAdjacentCells h w hits misses)"
  moreover from this(2) have "0 \<le> fst x" "0 \<le> snd x"
    using getAdjacentCells_inBounds [of h w hits misses]
    by (auto simp: inBounds_def isValidCell_def)
  ultimately show "keepsZeros h w m'
     (setCell m' (fst x) (snd x) (min 1 (cellAt m' (fst x) (snd x) * ADJACENCY_FACTOR)))"
    by (intro keepsZeros_setCell) simp_all
qed (rule assms)

lemma applyMode_keepsZeros:
  assumes wf: "wfGrid h w m" and hits: "inBounds h w hits"
  shows "\<exists>m'. applyMode mode m h w hits misses remainingShips sunkShips = Inr m'
               \<and> keepsZeros h w m m'"
proof (cases mode)
  case NORMAL
  then show ?thesis by (simp add: applyMode_def normalAdjacency_keepsZeros [OF wf])
next
  case HUNTING
  then show ?thesis by (simp add: applyMode_def applyCheckerboardPattern_keepsZeros)
next
  case TARGETING
  then show ?thesis using applyTargetingStrategy_keepsZeros [OF wf hits] by (simp add: applyMode_def)
next
  case SUPER_AGGRESSIVE
  then show ?thesis
    using applySuperAggressiveStrategy_keepsZeros [OF wf hits] by (simp add: applyMode_def)
next
  case OPTIMIZED
  then show ?thesis
    using applyOptimizedStrategy_keepsZeros [OF wf hits] by (simp add: applyMode_def)
qed

lemma normalizeMap_keepsZeros: "wfGrid h w m \<Longrightarrow> keepsZeros h w m (normalizeMap m h w)"
  by (auto simp: normalizeMap_def Let_def keepsZeros_refl intro: keepsZeros_mapCells)

lemma wfGrid_baseProbabilityMap: "wfGrid h w (baseProbabilityMap h w hits misses counts n)"
  by (simp add: baseProbabilityMap_def wfGrid_mapCells)

lemma baseProbabilityMap_zero:
  "r < h \<Longrightarrow> c < w \<Longrightarrow> (int r, int c) \<in> set hits \<union> set misses \<Longrightarrow>
   baseProbabilityMap h w hits misses counts n ! r ! c = 0"
  by (auto simp: baseProbabilityMap_def nth_mapCells)

text \<open>The engine returns a map on well-formed input; the map before the final
  normalization exists whenever a placement survives.\<close>

lemma heuristicMap_cases:
  assumes "inBounds h w hits"
  shows "heuristicMap h w hits misses remainingShips mode sunkShips = None
     \<or> (\<exists>pre. heuristicMap h w hits misses remainingShips mode sunkShips = Some (Inr pre)
           \<and> wfGrid h w pre
           \<and> (\<forall>r < h. \<forall>c < w. (int r, int c) \<in> set hits \<union> set misses \<longrightarrow> pre ! r ! c = 0))"
proof (cases "heuristicMap h w hits misses remainingShips mode sunkShips")
  case None
  then show ?thesis by simp
next
  case (Some res)
  define tally where "tally = tallyPlacements h w hits misses remainingShips sunkShips"
  define base where "base = baseProbabilityMap h w hits misses (fst tally) (snd tally)"
  define mode' where "mode' = (if mode = NORMAL \<and> length hits > 0 then TARGETING else mode)"
  from Some have res: "res = applyMode mode' base h w hits misses remainingShips sunkShips"
    unfolding heuristicMap_def Let_def tally_def [symmetric] base_def mode'_def
    by (auto split: if_splits)
  have "wfGrid h w base" unfolding base_def by (rule wfGrid_baseProbabilityMap)
  with assms obtain pre where pre: "res = Inr pre" "keepsZeros h w base pre"
    unfolding res using applyMode_keepsZeros by blast
  have "pre ! r ! c = 0" if "r < h" "c < w" "(int r, int c) \<in> set hits \<union> set misses" for r c
  proof -
    from that have "base ! r ! c = 0" unfolding base_def by (rule baseProbabilityMap_zero)
    with pre(2) that show ?thesis by (simp add: keepsZeros_def)
  qed
  with Some pre show ?thesis by (auto simp: keepsZeros_def)
qed

subsection \<open>The final normalizer\<close>

lemma concat_rows:
  assumes "wfGrid h w m"
  shows "concat (map (\<lambda>row. map (\<lambda>col. m ! row ! col) [0..<w]) [0..<h]) = concat m"
proof -
  have "map (\<lambda>row. map (\<lambda>col. m ! row ! col) [0..<w]) [0..<h] = map (\<lambda>row. m ! row) [0..<h]"
    using assms by (auto simp: wfGrid_def intro!: nth_equalityI)
  also have "\<dots> = m" using assms map_nth [of m] by (simp add: wfGrid_def)
  finally show ?thesis by simp
qed

lemma concat_mapCells:
  assumes "wfGrid h w m"
  shows "concat (mapCells h w (\<lambda>row col. g) m) = map g (concat m)"
proof -
  have "mapCells h w (\<lambda>row col. g) m
      = map (map g) (map (\<lambda>row. map (\<lambda>col. m ! row ! col) [0..<w]) [0..<h])"
    by (simp add: mapCells_def comp_def)
  then have "concat (mapCells h w (\<lambda>row col. g) m)
      = map g (concat (map (\<lambda>row. map (\<lambda>col. m ! row ! col) [0..<w]) [0..<h]))"
    by (simp only: map_concat)
  with assms show ?thesis by (simp add: concat_rows)
qed

lemma sum_list_positive:
  fixes ys :: "rat list"
  assumes "ys \<noteq> []" "\<forall>y \<in> set ys. 0 < y"
  shows "0 < sum_list ys"
  using assms by (induction ys) (auto intro: add_pos_nonneg sum_list_nonneg less_imp_le)

lemma member_le_sum_list_rat:
  fixes ys :: "rat list"
  assumes "\<forall>y \<in> set ys. 0 \<le> y" "v \<in> set ys"
  shows "v \<le> sum_list ys"
  using assms
proof (induction ys)
  case Nil
  then show ?case by simp
next
  case (Cons y ys)
  have "0 \<le> sum_list ys" using Cons.prems(1) by (intro sum_list_nonneg) simp
  with Cons show ?case by (auto intro: order_trans add_increasing)
qed

lemma scaled_sum_is_one:
  fixes xs :: "rat list"
  defines "s \<equiv> sum_list (filter (\<lambda>v. 0 < v) xs)"
  assumes pos: "filter (\<lambda>v. 0 < v) xs \<noteq> []"
  shows "sum_list (filter (\<lambda>v. 0 < v) (map (\<lambda>v. if 0 < v then v / s else v) xs)) = 1"
    and "\<forall>v \<in> set (map (\<lambda>v. if 0 < v then v / s else v) xs). v \<le> 1"
proof -
  have s: "0 < s" unfolding s_def using pos by (intro sum_list_positive) auto
  have "filter (\<lambda>v. 0 < v) (map (\<lambda>v. if 0 < v then v / s else v) xs)
      = map (\<lambda>v. v / s) (filter (\<lambda>v. 0 < v) xs)"
    using s by (induction xs) auto
  moreover have "sum_list (map (\<lambda>v. v / s) ys) = sum_list ys / s" for ys
    by (induction ys) (simp_all add: add_divide_distrib)
  ultimately show "sum_list (filter (\<lambda>v. 0 < v) (map (\<lambda>v. if 0 < v then v / s else v) xs)) = 1"
    using s by (simp add: s_def)
  show "\<forall>v \<in> set (map (\<lambda>v. if 0 < v then v / s else v) xs). v \<le> 1"
  proof
    fix v assume "v \<in> set (map (\<lambda>v. if 0 < v then v / s else v) xs)"
    then obtain x where x: "x \<in> set xs" "v = (if 0 < x then x / s else x)" by auto
    show "v \<le> 1"
    proof (cases "0 < x")
      case True
      with x(1) have "x \<in> set (filter (\<lambda>v. 0 < v) xs)" by simp
      then have "x \<le> s" unfolding s_def by (intro member_le_sum_list_rat) auto
      with s x(2) True show ?thesis by simp
    next
      case False
      with x(2) show ?thesis by simp
    qed
  qed
qed

lemma normalizeMap_sum:
  assumes wf: "wfGrid h w m"
  shows "((\<exists>v \<in> set (concat (normalizeMap m h w)). 0 < v)
            \<longrightarrow> sum_list (filter (\<lambda>v. 0 < v) (concat (normalizeMap m h w))) = 1)
         \<and> (\<forall>v \<in> set (concat (normalizeMap m h w)). v \<le> 1)"
proof (cases "filter (\<lambda>v. 0 < v) (concat m) = []")
  case True
  then have "normalizeMap m h w = m"
    using wf by (simp add: normalizeMap_def Let_def concat_rows)
  moreover from True have neg: "\<forall>v \<in> set (concat m). \<not> 0 < v"
    by (simp add: filter_empty_conv)
  moreover have "v \<le> 1" if "v \<in> set (concat m)" for v
  proof -
    from neg that have "\<not> 0 < v" by blast
    then show ?thesis by simp
  qed
  ultimately show ?thesis by simp
next
  case False
  let ?s = "sum_list (filter (\<lambda>v. 0 < v) (concat m))"
  have "0 < ?s" using False by (intro sum_list_positive) auto
  with False have "normalizeMap m h w = mapCells h w (\<lambda>row col v. if 0 < v then v / ?s else v) m"
    using wf by (simp add: normalizeMap_def Let_def concat_rows)
  with wf have "concat (normalizeMap m h w) = map (\<lambda>v. if 0 < v then v / ?s else v) (concat m)"
    by (simp add: concat_mapCells)
  with scaled_sum_is_one [OF False] show ?thesis
    by simp
qed

subsection \<open>Hit and miss cells\<close>

lemma calculateProbabilityMap_shape:
  assumes "inBounds h w hits"
  shows "\<exists>m. calculateProbabilityMap h w hits misses remainingShips mode sunkShips = Inr m
     \<and> wfGrid h w m
     \<and> (\<forall>r < h. \<forall>c < w. (int r, int c) \<in> set hits \<union> set misses \<longrightarrow> m ! r ! c = 0)
     \<and> ((\<exists>v \<in> set (concat m). 0 < v) \<longrightarrow> sum_list (filter (\<lambda>v. 0 < v) (concat m)) = 1)
     \<and> (\<forall>v \<in> set (concat m). v \<le> 1)
     \<and> (\<forall>pre. heuristicMap h w hits misses remainingShips mode sunkShips = Some (Inr pre)
           \<longrightarrow> (\<forall>r < h. \<forall>c < w. pre ! r ! c = 0 \<longrightarrow> m ! r ! c = 0))"
  using heuristicMap_cases [OF assms, of misses remainingShips mode sunkShips]
proof (elim disjE exE conjE)
  assume none: "heuristicMap h w hits misses remainingShips mode sunkShips = None"
  then have "calculateProbabilityMap h w hits misses remainingShips mode sunkShips
      = Inr (zeroGrid h w)"
    by (simp add: calculateProbabilityMap_def)
  moreover have "zeroGrid h w ! r ! c = (0::rat)" if "r < h" "c < w" for r c
    using that by (simp add: zeroGrid_def)
  moreover have zero: "\<forall>v \<in> set (concat (zeroGrid h w :: ProbabilityMap)). v = 0"
    by (auto simp: zeroGrid_def)
  moreover from zero have "\<forall>v \<in> set (concat (zeroGrid h w :: ProbabilityMap)). \<not> 0 < v \<and> v \<le> 1"
    by fastforce
  ultimately show ?thesis using none wfGrid_zeroGrid [of h w] by simp
next
  fix pre
  assume some: "heuristicMap h w hits misses remainingShips mode sunkShips = Some (Inr pre)"
    and wf: "wfGrid h w pre"
    and zero: "\<forall>r < h. \<forall>c < w. (int r, int c) \<in> set hits \<union> set misses \<longrightarrow> pre ! r ! c = 0"
  from some have res: "calculateProbabilityMap h w hits misses remainingShips mode sunkShips
      = Inr (normalizeMap pre h w)"
    by (simp add: calculateProbabilityMap_def)
  have keep: "keepsZeros h w pre (normalizeMap pre h w)"
    using wf by (rule normalizeMap_keepsZeros)
  with zero normalizeMap_sum [OF wf] res some show ?thesis
    by (simp add: keepsZeros_def)
qed

text \<open>
  Claim C2. For every well-formed input (positive dimensions, all coordinates on the board,
  Hit and Miss sets disjoint) and every mode, \<open>calculateProbabilityMap\<close> returns a map
  (it does not throw), and the map is exactly 0 at every Hit coordinate and at every Miss
  coordinate. The same holds of the map before the final normalization, whatever the
  heuristic passes of the mode have done.
\<close>

theorem C2_hit_and_miss_cells_zero:
  assumes "wellFormedInput boardHeight boardWidth hits misses"
  shows "\<exists>m. calculateProbabilityMap boardHeight boardWidth hits misses remainingShips mode sunkShips
               = Inr m
     \<and> (\<forall>coord \<in> set hits \<union> set misses. cellAt m (fst coord) (snd coord) = 0)
     \<and> (\<forall>pre. heuristicMap boardHeight boardWidth hits misses remainingShips mode sunkShips
                 = Some (Inr pre)
           \<longrightarrow> (\<forall>coord \<in> set hits \<union> set misses. cellAt pre (fst coord) (snd coord) = 0))"
proof -
  from assms have hits: "inBounds boardHeight boardWidth hits"
    and all: "inBounds boardHeight boardWidth (hits @ misses)"
    by (auto simp: wellFormedInput_def inBounds_def)
  have onBoard: "\<exists>r < boardHeight. \<exists>c < boardWidth. coord = (int r, int c)"
    if "coord \<in> set hits \<union> set misses" for coord
  proof -
    from all that have "isValidCell (fst coord) (snd coord) boardHeight boardWidth"
      by (auto simp: inBounds_def)
    then have "nat (fst coord) < boardHeight" "nat (snd coord) < boardWidth"
      "coord = (int (nat (fst coord)), int (nat (snd coord)))"
      by (auto simp: isValidCell_def prod_eq_iff)
    then show ?thesis by blast
  qed
  from calculateProbabilityMap_shape [OF hits, of misses remainingShips mode sunkShips]
  obtain m where m: "calculateProbabilityMap boardHeight boardWidth hits misses remainingShips
        mode sunkShips = Inr m"
    and zero: "\<forall>r < boardHeight. \<forall>c < boardWidth.
        (int r, int c) \<in> set hits \<union> set misses \<longrightarrow> m ! r ! c = 0"
    by blast
  have "cellAt m (fst coord) (snd coord) = 0" if "coord \<in> set hits \<union> set misses" for coord
    using onBoard [OF that] zero that by (auto simp: cellAt_def)
  moreover have "cellAt pre (fst coord) (snd coord) = 0"
    if pre: "heuristicMap boardHeight boardWidth hits misses remainingShips mode sunkShips
               = Some (Inr pre)"
      and coord: "coord \<in> set hits \<union> set misses" for pre coord
    using heuristicMap_cases [OF hits, of misses remainingShips mode sunkShips] pre
      onBoard [OF coord] coord
    by (auto simp: cellAt_def)
  ultimately show ?thesis using m by blast
qed

theorem C2_hit_and_miss_cells_zero_witness:
  "wellFormedInput 10 10 [(2, 3), (2, 4)] [(0, 0), (1, 1), (3, 3)]
   \<and> (\<exists>m. calculateProbabilityMap 10 10 [(2, 3), (2, 4)] [(0, 0), (1, 1), (3, 3)] [5, 4, 3]
              OPTIMIZED [] = Inr m
          \<and> cellAt m 2 3 = 0 \<and> cellAt m 2 4 = 0
          \<and> cellAt m 0 0 = 0 \<and> cellAt m 1 1 = 0 \<and> cellAt m 3 3 = 0)"
proof -
  have wf: "wellFormedInput 10 10 [(2, 3), (2, 4)] [(0, 0), (1, 1), (3, 3)]"
    by (simp add: wellFormedInput_def inBounds_def isValidCell_def)
  from C2_hit_and_miss_cells_zero [OF wf, of "[5, 4, 3]" OPTIMIZED "[]"] wf
  show ?thesis by auto
qed

text \<open>
  In the model, whose numbers are exact rationals, the final normalizer does what its
  comment says on every well-formed input: the engine returns a map \<open>m\<close> such that, if
  some cell of \<open>m\<close> is strictly positive, the strictly positive cells of \<open>m\<close> sum to 1; every
  cell is at most 1; and every cell that was 0 before the final normalization is 0 in \<open>m\<close>.
  (The doubles of the source do not follow the model when a product overflows: see the
  cross of hits below.)
\<close>

lemma final_normalization_exact:
  assumes "wellFormedInput boardHeight boardWidth hits misses"
  shows "\<exists>m. calculateProbabilityMap boardHeight boardWidth hits misses remainingShips mode sunkShips
               = Inr m
     \<and> wfGrid boardHeight boardWidth m
     \<and> ((\<exists>v \<in> set (concat m). 0 < v) \<longrightarrow> sum_list (filter (\<lambda>v. 0 < v) (concat m)) = 1)
     \<and> (\<forall>v \<in> set (concat m). v \<le> 1)
     \<and> (\<forall>pre. heuristicMap boardHeight boardWidth hits misses remainingShips mode sunkShips
                 = Some (Inr pre)
           \<longrightarrow> (\<forall>r < boardHeight. \<forall>c < boardWidth. pre ! r ! c = 0 \<longrightarrow> m ! r ! c = 0))"
proof -
  from assms have "inBounds boardHeight boardWidth hits"
    by (simp add: wellFormedInput_def)
  from calculateProbabilityMap_shape [OF this, of misses remainingShips mode sunkShips]
  show ?thesis by blast
qed

subsection \<open>No remaining ships\<close>

text \<open>
  Claim C6. For every board size, Hit set, Miss set, mode and \<open>sunkShips\<close> value,
  \<open>calculateProbabilityMap\<close> with \<open>remainingShips = []\<close> returns (without throwing) the map of
  \<open>height\<close> rows of \<open>width\<close> cells, every cell being 0.
\<close>

theorem C6_no_ships_zero_map:
  "calculateProbabilityMap boardHeight boardWidth hits misses [] mode sunkShips
     = Inr (replicate boardHeight (replicate boardWidth 0))"
  by (simp add: calculateProbabilityMap_def heuristicMap_def zeroGrid_def)

subsection \<open>The engine over the store: the targeting strategy\<close>

lemma coordinatesAt_cong: "s' ! a = s ! a \<Longrightarrow> coordinatesAt s' a = coordinatesAt s a"
  by (simp add: coordinatesAt_def)

lemma numbersAt_cong: "s' ! a = s ! a \<Longrightarrow> numbersAt s' a = numbersAt s a"
  by (simp add: numbersAt_def)

lemma mapAt_cong: "s' ! a = s ! a \<Longrightarrow> mapAt s' a = mapAt s a"
  by (simp add: mapAt_def)

lemma mapAt_update: "p < length s \<Longrightarrow> mapAt (s[p := MapArray m]) p = m"
  by (simp add: mapAt_def)

lemma coordinatesAt_update: "a < length s \<Longrightarrow> coordinatesAt (s[a := CoordinateArray cs]) a = cs"
  by (simp add: coordinatesAt_def)

lemma coordinatesAt_other: "a \<noteq> b \<Longrightarrow> coordinatesAt (s[b := v]) a = coordinatesAt s a"
  by (simp add: coordinatesAt_def)

lemma allocGroups_run:
  "allocGroups gs s
     = (map (\<lambda>ag. (direction (snd ag), fst ag)) (List.enumerate (length s) gs),
        s @ map (\<lambda>g. CoordinateArray (coordinates g)) gs)"
proof (induction gs arbitrary: s)
  case Nil
  then show ?case by simp
next
  case (Cons g gs)
  from Cons [of "s @ [CoordinateArray (coordinates g)]"] show ?case by simp
qed

lemma sort_key_twice: "sort_key f (sort_key f xs) = sort_key f xs"
  by (rule sort_key_id_if_sorted) simp

lemma getExtensionPoints_sorted:
  "getExtensionPoints (case dir of Horizontal \<Rightarrow> sort_key snd coords | Vertical \<Rightarrow> sort_key fst coords)
     dir h w misses
   = getExtensionPoints coords dir h w misses"
  by (cases dir) (simp_all add: getExtensionPoints_def sort_key_twice)

lemma getExtensionPointsS_run:
  assumes "a < length s" "misses \<noteq> a"
  shows "getExtensionPointsS a dir h w misses s
     = (getExtensionPoints (coordinatesAt s a) dir h w (coordinatesAt s misses),
        s[a := CoordinateArray
                 (case dir of Horizontal \<Rightarrow> sort_key snd (coordinatesAt s a)
                            | Vertical \<Rightarrow> sort_key fst (coordinatesAt s a))])"
  using assms
  by (simp add: getExtensionPointsS_def Let_def coordinatesAt_update coordinatesAt_other
      getExtensionPoints_sorted)

lemma completionsOfS_run:
  assumes "k + length gs \<le> length s" "misses < k"
    "\<forall>i < length gs. coordinatesAt s (k + i) = coordinates (gs ! i)"
  shows "fst (completionsOfS h w misses shipSize
                (map (\<lambda>ag. (direction (snd ag), fst ag)) (List.enumerate k gs)) s)
       = completionsOf h w (coordinatesAt s misses) shipSize gs
     \<and> length (snd (completionsOfS h w misses shipSize
                      (map (\<lambda>ag. (direction (snd ag), fst ag)) (List.enumerate k gs)) s)) = length s
     \<and> (\<forall>a < k. snd (completionsOfS h w misses shipSize
                      (map (\<lambda>ag. (direction (snd ag), fst ag)) (List.enumerate k gs)) s) ! a = s ! a)"
  using assms
proof (induction gs arbitrary: k s)
  case Nil
  then show ?case by simp
next
  case (Cons g gs)
  let ?rest = "map (\<lambda>ag. (direction (snd ag), fst ag)) (List.enumerate (Suc k) gs)"
  from Cons.prems(3) have head: "coordinatesAt s k = coordinates g" by force
  have tail: "\<forall>i < length gs. coordinatesAt s (Suc k + i) = coordinates (gs ! i)"
    using Cons.prems(3) by force
  show ?case
  proof (cases "int (length (coordinates g)) \<ge> shipSize")
    case True
    from Cons.prems have "Suc k + length gs \<le> length s" "misses < Suc k" by simp_all
    from Cons.IH [OF this tail] True head show ?thesis
      by simp
  next
    case False
    let ?s1 = "s[k := CoordinateArray
                 (case direction g of Horizontal \<Rightarrow> sort_key snd (coordinatesAt s k)
                                    | Vertical \<Rightarrow> sort_key fst (coordinatesAt s k))]"
    from Cons.prems have k: "k < length s" "misses \<noteq> k" by simp_all
    have run: "getExtensionPointsS k (direction g) h w misses s
        = (getExtensionPoints (coordinates g) (direction g) h w (coordinatesAt s misses), ?s1)"
      using getExtensionPointsS_run [OF k] head by simp
    have len1: "length (coordinatesAt ?s1 k) = length (coordinates g)"
      using k(1) head by (cases "direction g") (simp_all add: coordinatesAt_update)
    have misses1: "coordinatesAt ?s1 misses = coordinatesAt s misses"
      using k(2) by (simp add: coordinatesAt_other)
    have "Suc k + length gs \<le> length ?s1" "misses < Suc k"
      using Cons.prems by simp_all
    moreover have "\<forall>i < length gs. coordinatesAt ?s1 (Suc k + i) = coordinates (gs ! i)"
      using tail by (simp add: coordinatesAt_other)
    ultimately have ih:
      "fst (completionsOfS h w misses shipSize ?rest ?s1)
         = completionsOf h w (coordinatesAt s misses) shipSize gs"
      "length (snd (completionsOfS h w misses shipSize ?rest ?s1)) = length s"
      "\<forall>a < Suc k. snd (completionsOfS h w misses shipSize ?rest ?s1) ! a = ?s1 ! a"
      using Cons.IH [of "Suc k" ?s1] misses1 by simp_all
    from ih(3) have below: "\<forall>a < k. snd (completionsOfS h w misses shipSize ?rest ?s1) ! a = s ! a"
      by simp
    show ?thesis
    proof (cases "getExtensionPoints (coordinates g) (direction g) h w (coordinatesAt s misses)")
      case (Inl e)
      with False head run show ?thesis
        by simp
    next
      case (Inr extensions)
      with False head run len1 ih(1,2) below show ?thesis
        by (cases "completionsOfS h w misses shipSize ?rest ?s1";
            cases "fst (completionsOfS h w misses shipSize ?rest ?s1)")
          simp_all
    qed
  qed
qed

lemma keepsOthers_refl: "keepsOthers p s s"
  by (simp add: keepsOthers_def)

lemma keepsOthers_trans: "keepsOthers p s s1 \<Longrightarrow> keepsOthers p s1 s2 \<Longrightarrow> keepsOthers p s s2"
  by (auto simp: keepsOthers_def)

lemma keepsOthers_nth: "keepsOthers p s s' \<Longrightarrow> a < length s \<Longrightarrow> a \<noteq> p \<Longrightarrow> s' ! a = s ! a"
  by (simp add: keepsOthers_def)

lemma keepsOthers_length: "keepsOthers p s s' \<Longrightarrow> a < length s \<Longrightarrow> a < length s'"
  by (simp add: keepsOthers_def)

lemma keepsOthers_update: "keepsOthers p s (s[p := v])"
  by (simp add: keepsOthers_def)

lemma keepsOthers_updateMap: "keepsOthers p s (updateMap p f s)"
  by (simp add: updateMap_def keepsOthers_update)

lemma mapAt_updateMap: "p < length s \<Longrightarrow> mapAt (updateMap p f s) p = f (mapAt s p)"
  by (simp add: updateMap_def mapAt_update)

lemma yields_Inr: "yields (Inr (), s) p (Inr (mapAt s p))"
  by (simp add: yields_def)

lemma findPotentialCompletionsS_run:
  assumes "hits < length s" "misses < length s"
  shows "fst (findPotentialCompletionsS h w hits misses shipSize s)
       = findPotentialCompletions h w (coordinatesAt s hits) (coordinatesAt s misses) shipSize
     \<and> length s \<le> length (snd (findPotentialCompletionsS h w hits misses shipSize s))
     \<and> (\<forall>a < length s. snd (findPotentialCompletionsS h w hits misses shipSize s) ! a = s ! a)"
proof -
  let ?gs = "findAlignedHits (coordinatesAt s hits)"
  let ?s1 = "s @ map (\<lambda>g. CoordinateArray (coordinates g)) ?gs"
  let ?groups = "map (\<lambda>ag. (direction (snd ag), fst ag)) (List.enumerate (length s) ?gs)"
  have run: "findPotentialCompletionsS h w hits misses shipSize s
      = completionsOfS h w misses shipSize ?groups ?s1"
    by (simp add: findPotentialCompletionsS_def findAlignedHitsS_def allocGroups_run)
  have "length s + length ?gs \<le> length ?s1" by simp
  moreover have "\<forall>i < length ?gs. coordinatesAt ?s1 (length s + i) = coordinates (?gs ! i)"
    by (simp add: coordinatesAt_def nth_append)
  moreover have "coordinatesAt ?s1 misses = coordinatesAt s misses"
    using assms(2) by (simp add: coordinatesAt_def nth_append)
  ultimately have
    "fst (completionsOfS h w misses shipSize ?groups ?s1)
       = completionsOf h w (coordinatesAt s misses) shipSize ?gs"
    "length (snd (completionsOfS h w misses shipSize ?groups ?s1)) = length ?s1"
    "\<forall>a < length s. snd (completionsOfS h w misses shipSize ?groups ?s1) ! a = ?s1 ! a"
    using completionsOfS_run [of "length s" ?gs ?s1 misses h w shipSize] assms(2) by simp_all
  then show ?thesis
    unfolding run by (simp add: findPotentialCompletions_def nth_append)
qed

lemma boostCellsS_run:
  assumes "p < length s"
  shows "length (snd (boostCellsS f p cells s)) = length s
     \<and> (\<forall>a. a \<noteq> p \<longrightarrow> snd (boostCellsS f p cells s) ! a = s ! a)
     \<and> yields (boostCellsS f p cells s) p (boostCells f (mapAt s p) cells)"
  using assms
proof (induction cells arbitrary: s)
  case Nil
  then show ?case by (simp add: yields_def)
next
  case (Cons c cells)
  show ?case
  proof (cases "boostCell f (mapAt s p) c")
    case (Inl e)
    then show ?thesis by (simp add: yields_def)
  next
    case (Inr m1)
    let ?s1 = "s[p := MapArray m1]"
    from Cons.prems have "p < length ?s1" by simp
    from Cons.IH [OF this] Inr Cons.prems show ?thesis
      by (simp add: mapAt_update)
  qed
qed

lemma boostCellsS_keeps: "p < length s \<Longrightarrow> keepsOthers p s (snd (boostCellsS f p cells s))"
  using boostCellsS_run [of p s f cells] by (simp add: keepsOthers_def)

lemma findAlignedHitsS_run:
  "findAlignedHitsS hits s
     = (map (\<lambda>ag. (direction (snd ag), fst ag))
          (List.enumerate (length s) (findAlignedHits (coordinatesAt s hits))),
        s @ map (\<lambda>g. CoordinateArray (coordinates g)) (findAlignedHits (coordinatesAt s hits)))"
  by (simp add: findAlignedHitsS_def allocGroups_run)

lemma append_reads:
  assumes "a < length s"
  shows "coordinatesAt (s @ new) a = coordinatesAt s a" "mapAt (s @ new) a = mapAt s a"
    "numbersAt (s @ new) a = numbersAt s a" "modeAt (s @ new) a = modeAt s a"
  using assms by (simp_all add: coordinatesAt_def mapAt_def numbersAt_def modeAt_def nth_append)

lemma keepsOthers_append: "keepsOthers p s (s @ new)"
  by (simp add: keepsOthers_def nth_append)

lemma keepsOthers_reads:
  assumes "keepsOthers p s s'" "a < length s" "a \<noteq> p"
  shows "coordinatesAt s' a = coordinatesAt s a" "numbersAt s' a = numbersAt s a"
  using keepsOthers_nth [OF assms] by (simp_all add: coordinatesAt_def numbersAt_def)

lemma applyTargetingStrategyS_run:
  assumes p: "p < length s" and hits: "hits < length s" "hits \<noteq> p"
    and misses: "misses < length s" "misses \<noteq> p"
  shows "keepsOthers p s (snd (applyTargetingStrategyS p h w hits misses s))
     \<and> yields (applyTargetingStrategyS p h w hits misses s) p
         (applyTargetingStrategy (mapAt s p) h w (coordinatesAt s hits) (coordinatesAt s misses))"
proof (cases "length (coordinatesAt s hits) = 0")
  case True
  then show ?thesis
    by (simp add: applyTargetingStrategyS_def applyTargetingStrategy_def keepsOthers_refl yields_def)
next
  case False
  define gs where "gs = findAlignedHits (coordinatesAt s hits)"
  define s1 where "s1 = s @ map (\<lambda>g. CoordinateArray (coordinates g)) gs"
  define groups where "groups = map (\<lambda>ag. (direction (snd ag), fst ag)) (List.enumerate (length s) gs)"
  have aligned: "findAlignedHitsS hits s = (groups, s1)"
    by (simp add: findAlignedHitsS_run gs_def s1_def groups_def)
  have len: "length groups = length gs" by (simp add: groups_def)
  have k1: "keepsOthers p s s1" unfolding s1_def by (rule keepsOthers_append)
  have read1: "coordinatesAt s1 hits = coordinatesAt s hits"
    "coordinatesAt s1 misses = coordinatesAt s misses" "mapAt s1 p = mapAt s p"
    using p hits misses by (simp_all add: s1_def append_reads)
  have p1: "p < length s1" "hits < length s1" "misses < length s1"
    using p hits misses by (simp_all add: s1_def)
  show ?thesis
  proof (cases "length gs \<ge> 2")
    case True
    then obtain g rest where gs: "gs = g # rest" by (cases gs) auto
    then obtain others where groups: "groups = (direction g, length s) # others"
      by (simp add: groups_def)
    have at: "length s < length s1" "misses \<noteq> length s" "coordinatesAt s1 (length s) = coordinates g"
      using misses by (simp_all add: s1_def gs coordinatesAt_def nth_append)
    define s2 where "s2 = s1[length s := CoordinateArray
          (case direction g of Horizontal \<Rightarrow> sort_key snd (coordinates g)
                             | Vertical \<Rightarrow> sort_key fst (coordinates g))]"
    have ext: "getExtensionPointsS (length s) (direction g) h w misses s1
        = (getExtensionPoints (coordinates g) (direction g) h w (coordinatesAt s misses), s2)"
      using getExtensionPointsS_run [OF at(1,2), of "direction g" h w] at(3) read1
      by (cases "direction g") (simp_all add: s2_def)
    have k2: "keepsOthers p s s2"
      using k1 by (auto simp: s2_def keepsOthers_def)
    have p2: "p < length s2" "mapAt s2 p = mapAt s p"
      using p1 p read1 by (simp_all add: s2_def mapAt_def)
    show ?thesis
    proof (cases "getExtensionPoints (coordinates g) (direction g) h w (coordinatesAt s misses)")
      case (Inl e)
      with False True aligned len groups ext k2 show ?thesis
        by (simp add: applyTargetingStrategyS_def applyTargetingStrategy_def
            gs_def [symmetric] gs yields_def)
    next
      case (Inr extensions)
      have "keepsOthers p s2 (snd (boostCellsS ALIGNMENT_FACTOR p extensions s2))"
        using p2(1) by (rule boostCellsS_keeps)
      with k2 have "keepsOthers p s (snd (boostCellsS ALIGNMENT_FACTOR p extensions s2))"
        by (rule keepsOthers_trans)
      moreover have "yields (boostCellsS ALIGNMENT_FACTOR p extensions s2) p
          (boostCells ALIGNMENT_FACTOR (mapAt s p) extensions)"
        using boostCellsS_run [OF p2(1), of ALIGNMENT_FACTOR extensions] p2(2) by simp
      ultimately show ?thesis
        using False True aligned len groups ext Inr
        by (simp add: applyTargetingStrategyS_def applyTargetingStrategy_def
            gs_def [symmetric] gs)
    qed
  next
    case short: False
    define cells where "cells = getAdjacentCells h w (coordinatesAt s hits) (coordinatesAt s misses)"
    define r2 where "r2 = boostCellsS ADJACENCY_FACTOR p cells s1"
    have run2: "length (snd r2) = length s1" "\<forall>a. a \<noteq> p \<longrightarrow> snd r2 ! a = s1 ! a"
      "yields r2 p (boostCells ADJACENCY_FACTOR (mapAt s p) cells)"
      using boostCellsS_run [OF p1(1), of ADJACENCY_FACTOR cells] read1 by (simp_all add: r2_def)
    have k2: "keepsOthers p s (snd r2)"
      using k1 run2(1,2) by (auto simp: keepsOthers_def)
    show ?thesis
    proof (cases "boostCells ADJACENCY_FACTOR (mapAt s p) cells")
      case (Inl e)
      with run2(3) have "fst r2 = Inl e" by (simp add: yields_def)
      then have "applyTargetingStrategyS p h w hits misses s = (Inl e, snd r2)"
        using False short aligned len read1
        by (cases r2) (simp add: applyTargetingStrategyS_def cells_def r2_def)
      with Inl k2 False short show ?thesis
        by (simp add: applyTargetingStrategy_def gs_def [symmetric] cells_def [symmetric] yields_def)
    next
      case (Inr m1)
      with run2(3) have r2: "fst r2 = Inr ()" "mapAt (snd r2) p = m1" by (simp_all add: yields_def)
      define size where "size = findSmallestRemainingShip m1 h w"
      define r3 where "r3 = findPotentialCompletionsS h w hits misses size (snd r2)"
      have in2: "hits < length (snd r2)" "misses < length (snd r2)" "p < length (snd r2)"
        using p1 run2(1) by simp_all
      have read2: "coordinatesAt (snd r2) hits = coordinatesAt s hits"
        "coordinatesAt (snd r2) misses = coordinatesAt s misses"
        using keepsOthers_reads [OF k2] hits misses by simp_all
      have run3: "fst r3 = findPotentialCompletions h w (coordinatesAt s hits) (coordinatesAt s misses) size"
        "length (snd r2) \<le> length (snd r3)" "\<forall>a < length (snd r2). snd r3 ! a = snd r2 ! a"
        using findPotentialCompletionsS_run [OF in2(1,2), of h w size] read2
        by (simp_all add: r3_def)
      have k3: "keepsOthers p s (snd r3)"
        using k2 run3(2,3) by (auto simp: keepsOthers_def)
      have p3: "p < length (snd r3)" "mapAt (snd r3) p = m1"
        using in2(3) run3(2,3) r2(2) by (simp_all add: mapAt_def)
      have step: "applyTargetingStrategyS p h w hits misses s
          = (case fst r3 of Inl e \<Rightarrow> (Inl e, snd r3)
             | Inr completions \<Rightarrow> boostCellsS COMPLETION_FACTOR p completions (snd r3))"
        using False short aligned len read1 r2
        by (cases r2; cases r3)
          (auto simp: applyTargetingStrategyS_def cells_def r2_def r3_def size_def split: sum.splits)
      have pure: "applyTargetingStrategy (mapAt s p) h w (coordinatesAt s hits) (coordinatesAt s misses)
          = bindE (fst r3) (\<lambda>completions. boostCells COMPLETION_FACTOR m1 completions)"
        using False short Inr
        by (simp add: applyTargetingStrategy_def gs_def [symmetric] cells_def [symmetric]
            run3(1) size_def)
      show ?thesis
      proof (cases "fst r3")
        case (Inl e)
        with step pure k3 show ?thesis by (simp add: yields_def)
      next
        case (Inr completions)
        have "keepsOthers p (snd r3) (snd (boostCellsS COMPLETION_FACTOR p completions (snd r3)))"
          using p3(1) by (rule boostCellsS_keeps)
        with k3 have "keepsOthers p s (snd (boostCellsS COMPLETION_FACTOR p completions (snd r3)))"
          by (rule keepsOthers_trans)
        moreover have "yields (boostCellsS COMPLETION_FACTOR p completions (snd r3)) p
            (boostCells COMPLETION_FACTOR m1 completions)"
          using boostCellsS_run [OF p3(1), of COMPLETION_FACTOR completions] p3(2) by simp
        ultimately show ?thesis using step pure Inr by simp
      qed
    qed
  qed
qed

lemma argumentsAt_reads:
  assumes "argumentsAt s hitsA missesA shipsA sunkA hits misses remainingShips sunkShips"
    and "\<forall>a < length s. s' ! a = s ! a"
  shows "coordinatesAt s' hitsA = hits" "coordinatesAt s' missesA = misses"
    "numbersAt s' shipsA = remainingShips" "sunkShipsAt s' sunkA = sunkShips"
proof -
  from assms show "coordinatesAt s' hitsA = hits" "coordinatesAt s' missesA = misses"
    "numbersAt s' shipsA = remainingShips"
    by (simp_all add: argumentsAt_def coordinatesAt_def numbersAt_def)
  from assms(1) obtain ships where ships: "s ! sunkA = SunkShipArray ships"
    "\<forall>ship \<in> set ships. snd ship < length s" "sunkShipsAt s sunkA = sunkShips" "sunkA < length s"
    by (auto simp: argumentsAt_def list_all_iff split: object.splits)
  with assms(2) have "s' ! sunkA = SunkShipArray ships"
    "\<forall>ship \<in> set ships. coordinatesAt s' (snd ship) = coordinatesAt s (snd ship)"
    by (simp_all add: coordinatesAt_def)
  then have "sunkShipsAt s' sunkA = sunkShipsAt s sunkA"
    using ships(1) by (simp add: sunkShipsAt_def)
  with ships(3) show "sunkShipsAt s' sunkA = sunkShips" by simp
qed

lemma length_updateMap [simp]: "length (updateMap p f s) = length s"
  by (simp add: updateMap_def)

lemma take_unchanged:
  assumes "length s \<le> length s'" "\<forall>a < length s. s' ! a = s ! a"
  shows "take (length s) s' = s"
  using assms by (intro nth_equalityI) simp_all

lemma calculateProbabilityMapS_targeting:
  assumes args: "argumentsAt s hitsA missesA shipsA sunkA hits misses remainingShips sunkShips"
    and mode: "mode = TARGETING \<or> mode = NORMAL \<and> hits \<noteq> []"
  shows "returnedMap (calculateProbabilityMapS h w hitsA missesA shipsA mode sunkA s)
       = calculateProbabilityMap h w hits misses remainingShips mode sunkShips
     \<and> take (length s) (snd (calculateProbabilityMapS h w hitsA missesA shipsA mode sunkA s)) = s"
proof -
  define n where "n = length s"
  define p where "p = length (s @ [ModeVariable mode])"
  define s1 where "s1 = (s @ [ModeVariable mode]) @ [MapArray (zeroGrid h w)]"
  define s2 where "s2 = (if modeAt s1 n = NORMAL \<and> length (coordinatesAt s1 hitsA) > 0
     then s1[n := ModeVariable TARGETING] else s1)"
  define tallyS where "tallyS = tallyPlacements h w (coordinatesAt s2 hitsA)
     (coordinatesAt s2 missesA) (numbersAt s2 shipsA) (sunkShipsAt s2 sunkA)"
  define s3 where "s3 = s2[p := MapArray (baseProbabilityMap h w (coordinatesAt s2 hitsA)
     (coordinatesAt s2 missesA) (fst tallyS) (snd tallyS))]"
  define tally where "tally = tallyPlacements h w hits misses remainingShips sunkShips"
  define base where "base = baseProbabilityMap h w hits misses (fst tally) (snd tally)"
  have unfold: "calculateProbabilityMapS h w hitsA missesA shipsA mode sunkA s
      = (if length (numbersAt s1 shipsA) = 0 then (Inr p, s1)
         else if snd tallyS = 0 then (Inr p, s2)
         else case applyModeS (modeAt s3 n) p h w hitsA missesA shipsA sunkA s3 of
                (Inl e, s4) \<Rightarrow> (Inl e, s4)
              | (Inr _, s4) \<Rightarrow> (Inr p, updateMap p (\<lambda>m. normalizeMap m h w) s4))"
    by (simp only: calculateProbabilityMapS_def Let_def n_def p_def s1_def s2_def tallyS_def s3_def)
  from args have inside: "hitsA < n" "missesA < n" "shipsA < n" "sunkA < n"
    by (simp_all add: argumentsAt_def n_def)
  have pn: "p = Suc n" by (simp add: p_def n_def)
  have same1: "\<forall>a < length s. s1 ! a = s ! a" by (simp add: s1_def nth_append)
  have len1: "length s1 = Suc (Suc n)" by (simp add: s1_def n_def)
  have same2: "\<forall>a < length s. s2 ! a = s ! a"
    using same1 by (simp add: s2_def n_def)
  have len2: "length s2 = Suc (Suc n)" using len1 by (simp add: s2_def)
  have same3: "\<forall>a < length s. s3 ! a = s ! a"
    using same2 by (simp add: s3_def pn n_def)
  have len3: "length s3 = Suc (Suc n)" using len2 by (simp add: s3_def)
  note r1 = argumentsAt_reads [OF args same1]
  note r2 = argumentsAt_reads [OF args same2]
  note r3 = argumentsAt_reads [OF args same3]
  have tallyS: "tallyS = tally" by (simp add: tallyS_def tally_def r2)
  have zero: "mapAt s1 p = zeroGrid h w" "mapAt s2 p = zeroGrid h w"
    by (simp_all add: s1_def s2_def pn n_def mapAt_def nth_append)
  have mode1: "modeAt s1 n = mode" by (simp add: s1_def n_def modeAt_def nth_append)
  have mode3: "modeAt s3 n = TARGETING"
    using mode mode1 r1(1) len1 by (auto simp: s3_def s2_def pn modeAt_def)
  have base3: "mapAt s3 p = base"
    using len2 by (simp add: s3_def pn mapAt_update base_def tallyS r2)
  have pure: "calculateProbabilityMap h w hits misses remainingShips mode sunkShips
      = (if length remainingShips = 0 then Inr (zeroGrid h w)
         else if snd tally = 0 then Inr (zeroGrid h w)
         else bindE (applyTargetingStrategy base h w hits misses)
                (\<lambda>m. Inr (normalizeMap m h w)))"
    using mode
    by (auto simp: calculateProbabilityMap_def heuristicMap_def Let_def tally_def [symmetric]
        base_def [symmetric] applyMode_def)
  show ?thesis
  proof (cases "length remainingShips = 0 \<or> snd tally = 0")
    case True
    with unfold pure zero same1 same2 len1 len2 r1 tallyS show ?thesis
      by (auto simp: returnedMap_def n_def intro!: take_unchanged)
  next
    case False
    define r where "r = applyTargetingStrategyS p h w hitsA missesA s3"
    have "p < length s3" "hitsA < length s3" "hitsA \<noteq> p" "missesA < length s3" "missesA \<noteq> p"
      using inside len3 by (simp_all add: pn)
    from applyTargetingStrategyS_run [OF this, of h w] r3 base3
    have keeps: "keepsOthers p s3 (snd r)"
      and res: "yields r p (applyTargetingStrategy base h w hits misses)"
      by (simp_all add: r_def)
    from keeps same3 len3 have same4: "\<forall>a < length s. snd r ! a = s ! a"
      and len4: "length s \<le> length (snd r)" "p < length (snd r)"
      by (auto simp: keepsOthers_def pn n_def)
    have step: "calculateProbabilityMapS h w hitsA missesA shipsA mode sunkA s
        = (case r of (Inl e, s4) \<Rightarrow> (Inl e, s4)
           | (Inr _, s4) \<Rightarrow> (Inr p, updateMap p (\<lambda>m. normalizeMap m h w) s4))"
      using False unfold r1 tallyS mode3 by (simp add: applyModeS_def r_def)
    show ?thesis
    proof (cases "applyTargetingStrategy base h w hits misses")
      case (Inl e)
      with res have "fst r = Inl e" by (simp add: yields_def)
      with False step pure Inl same4 len4 show ?thesis
        by (cases r) (auto simp: returnedMap_def intro!: take_unchanged)
    next
      case (Inr m)
      with res have "fst r = Inr ()" "mapAt (snd r) p = m" by (simp_all add: yields_def)
      moreover have "\<forall>a < length s. updateMap p (\<lambda>m. normalizeMap m h w) (snd r) ! a = s ! a"
        using same4 by (simp add: updateMap_def pn n_def)
      ultimately show ?thesis
        using False step pure Inr len4
        by (cases r) (auto simp: returnedMap_def mapAt_updateMap intro!: take_unchanged)
    qed
  qed
qed

subsection \<open>The automatic upgrade of NORMAL to TARGETING\<close>

text \<open>
  Claim C5. With a non-empty Hit set, \<open>calculateProbabilityMap\<close> called with mode \<open>NORMAL\<close>
  returns exactly what it returns with mode \<open>TARGETING\<close> on the same input. Moreover, when
  the arguments are objects of the caller's store \<open>s\<close>, the call over the store, with either
  of the two modes, returns that same map, and the store it leaves behind begins with \<open>s\<close>
  itself: no object that existed before the call has been changed, neither the arrays
  passed as arguments nor any variable from which the caller took the value of \<open>mode\<close>. (The
  assignment of \<open>TARGETING\<close> goes to the parameter, a variable allocated by the call; the
  in-place sorts go to the arrays allocated for the aligned groups.)
\<close>

theorem C5_normal_upgrades_to_targeting:
  "hits \<noteq> [] \<Longrightarrow>
   calculateProbabilityMap boardHeight boardWidth hits misses remainingShips NORMAL sunkShips
     = calculateProbabilityMap boardHeight boardWidth hits misses remainingShips TARGETING sunkShips
   \<and> (argumentsAt s hitsA missesA shipsA sunkA hits misses remainingShips sunkShips \<longrightarrow>
        returnedMap (calculateProbabilityMapS boardHeight boardWidth hitsA missesA shipsA NORMAL sunkA s)
          = calculateProbabilityMap boardHeight boardWidth hits misses remainingShips NORMAL sunkShips
      \<and> returnedMap (calculateProbabilityMapS boardHeight boardWidth hitsA missesA shipsA TARGETING sunkA s)
          = calculateProbabilityMap boardHeight boardWidth hits misses remainingShips TARGETING sunkShips
      \<and> take (length s)
            (snd (calculateProbabilityMapS boardHeight boardWidth hitsA missesA shipsA NORMAL sunkA s))
          = s
      \<and> take (length s)
            (snd (calculateProbabilityMapS boardHeight boardWidth hitsA missesA shipsA TARGETING sunkA s))
          = s)"
proof -
  assume hits: "hits \<noteq> []"
  then have "calculateProbabilityMap boardHeight boardWidth hits misses remainingShips NORMAL sunkShips
      = calculateProbabilityMap boardHeight boardWidth hits misses remainingShips TARGETING sunkShips"
    by (simp add: calculateProbabilityMap_def heuristicMap_def)
  moreover have "returnedMap (calculateProbabilityMapS boardHeight boardWidth hitsA missesA shipsA mode sunkA s)
          = calculateProbabilityMap boardHeight boardWidth hits misses remainingShips mode sunkShips
      \<and> take (length s)
            (snd (calculateProbabilityMapS boardHeight boardWidth hitsA missesA shipsA mode sunkA s))
          = s"
    if "argumentsAt s hitsA missesA shipsA sunkA hits misses remainingShips sunkShips"
      and "mode = NORMAL \<or> mode = TARGETING" for mode
    using calculateProbabilityMapS_targeting [OF that(1), of mode boardHeight boardWidth] that(2) hits
    by blast
  ultimately show ?thesis by blast
qed

theorem C5_normal_upgrades_to_targeting_witness:
  "[(2, 3), (2, 4)] \<noteq> ([] :: Coordinate list)
   \<and> argumentsAt
        [CoordinateArray [(2, 3), (2, 4)], CoordinateArray [(0, 0), (1, 1), (3, 3)],
         NumberArray [5, 4, 3], SunkShipArray [], ModeVariable NORMAL]
        0 1 2 3 [(2, 3), (2, 4)] [(0, 0), (1, 1), (3, 3)] [5, 4, 3] []
   \<and> calculateProbabilityMap 10 10 [(2, 3), (2, 4)] [(0, 0), (1, 1), (3, 3)] [5, 4, 3] NORMAL []
     = calculateProbabilityMap 10 10 [(2, 3), (2, 4)] [(0, 0), (1, 1), (3, 3)] [5, 4, 3]
         TARGETING []
   \<and> returnedMap (calculateProbabilityMapS 10 10 0 1 2 NORMAL 3
        [CoordinateArray [(2, 3), (2, 4)], CoordinateArray [(0, 0), (1, 1), (3, 3)],
         NumberArray [5, 4, 3], SunkShipArray [], ModeVariable NORMAL])
     = calculateProbabilityMap 10 10 [(2, 3), (2, 4)] [(0, 0), (1, 1), (3, 3)] [5, 4, 3] NORMAL []
   \<and> take 5 (snd (calculateProbabilityMapS 10 10 0 1 2 NORMAL 3
        [CoordinateArray [(2, 3), (2, 4)], CoordinateArray [(0, 0), (1, 1), (3, 3)],
         NumberArray [5, 4, 3], SunkShipArray [], ModeVariable NORMAL]))
     = [CoordinateArray [(2, 3), (2, 4)], CoordinateArray [(0, 0), (1, 1), (3, 3)],
        NumberArray [5, 4, 3], SunkShipArray [], ModeVariable NORMAL]"
proof -
  let ?s = "[CoordinateArray [(2, 3), (2, 4)], CoordinateArray [(0, 0), (1, 1), (3, 3)],
         NumberArray [5, 4, 3], SunkShipArray [], ModeVariable NORMAL]"
  have ne: "[(2, 3), (2, 4)] \<noteq> ([] :: Coordinate list)" by simp
  have args: "argumentsAt ?s 0 1 2 3 [(2, 3), (2, 4)] [(0, 0), (1, 1), (3, 3)] [5, 4, 3] []"
    by (simp add: argumentsAt_def sunkShipsAt_def)
  from C5_normal_upgrades_to_targeting [OF ne, of 10 10 "[(0, 0), (1, 1), (3, 3)]" "[5, 4, 3]" "[]"
      ?s 0 1 2 3] args
  show ?thesis by (simp add: eval_nat_numeral)
qed

subsection \<open>Sunk ships outside the optimized mode\<close>

text \<open>
  Claim C10. In every mode other than \<open>OPTIMIZED\<close> the map returned by
  \<open>calculateProbabilityMap\<close> is the same for any two values of \<open>sunkShips\<close>, and the
  placement enumerator returns the same placements whatever \<open>sunkShips\<close> is: it never
  excludes a placement for overlapping a sunk ship.
\<close>

theorem C10_sunk_ships_ignored:
  "mode \<noteq> OPTIMIZED \<Longrightarrow>
   calculateProbabilityMap boardHeight boardWidth hits misses remainingShips mode sunkShips
     = calculateProbabilityMap boardHeight boardWidth hits misses remainingShips mode sunkShips'
   \<and> generateValidPlacements boardHeight boardWidth len hits misses sunkShips
     = generateValidPlacements boardHeight boardWidth len hits misses sunkShips'"
proof -
  assume mode: "mode \<noteq> OPTIMIZED"
  have gen: "generateValidPlacements boardHeight boardWidth n hits misses sunkShips
      = generateValidPlacements boardHeight boardWidth n hits misses sunkShips'" for n
    by (simp add: generateValidPlacements_def)
  have "tallyShip boardHeight boardWidth hits misses sunkShips
      = tallyShip boardHeight boardWidth hits misses sunkShips'"
    by (intro ext) (simp add: tallyShip_def gen)
  then have tally: "tallyPlacements boardHeight boardWidth hits misses remainingShips sunkShips
      = tallyPlacements boardHeight boardWidth hits misses remainingShips sunkShips'"
    by (simp add: tallyPlacements_def)
  have "applyMode md m boardHeight boardWidth hits misses remainingShips sunkShips
      = applyMode md m boardHeight boardWidth hits misses remainingShips sunkShips'"
    if "md \<noteq> OPTIMIZED" for md m
    using that by (cases md) (simp_all add: applyMode_def)
  with mode tally
  have "heuristicMap boardHeight boardWidth hits misses remainingShips mode sunkShips
      = heuristicMap boardHeight boardWidth hits misses remainingShips mode sunkShips'"
    by (simp add: heuristicMap_def Let_def)
  then show ?thesis
    by (simp add: calculateProbabilityMap_def gen)
qed

theorem C10_sunk_ships_ignored_witness:
  "SUPER_AGGRESSIVE \<noteq> OPTIMIZED \<and>
   calculateProbabilityMap 3 3 [(0, 0), (0, 1)] [(2, 2)] [2] SUPER_AGGRESSIVE []
     = calculateProbabilityMap 3 3 [(0, 0), (0, 1)] [(2, 2)] [2] SUPER_AGGRESSIVE
         [\<lparr>sunkLength = 2, positions = [(0, 0), (0, 1)]\<rparr>] \<and>
   generateValidPlacements 3 3 2 [(0, 0), (0, 1)] [(2, 2)] []
     = generateValidPlacements 3 3 2 [(0, 0), (0, 1)] [(2, 2)]
         [\<lparr>sunkLength = 2, positions = [(0, 0), (0, 1)]\<rparr>]"
proof -
  have ne: "SUPER_AGGRESSIVE \<noteq> OPTIMIZED" by simp
  from C10_sunk_ships_ignored [OF ne, of 3 3 "[(0, 0), (0, 1)]" "[(2, 2)]" "[2]" "[]"
      "[\<lparr>sunkLength = 2, positions = [(0, 0), (0, 1)]\<rparr>]" 2]
  show ?thesis by simp
qed

subsection \<open>The placement tally\<close>

lemma buildPlacement_eq:
  "buildPlacement misses acc cells
     = (if \<forall>c \<in> set cells. c \<notin> set misses then Some (acc @ cells) else None)"
  by (induction cells arbitrary: acc) auto

lemma candidatePlacement_eq:
  "candidatePlacement hits misses cells
     = (if (\<forall>c \<in> set cells. c \<notin> set misses) \<and> isConsistentWithHits cells hits
        then [cells] else [])"
  by (simp add: candidatePlacement_def buildPlacement_eq)

lemma generateValidPlacements_inBounds:
  assumes "p \<in> set (generateValidPlacements h w len hits misses sunkShips)"
  shows "inBounds h w p"
  using assms
  by (auto simp: generateValidPlacements_def candidatePlacement_eq inBounds_def isValidCell_def
      split: if_splits)

lemma wfGrid_incrementCell: "wfGrid h w counts \<Longrightarrow> wfGrid h w (incrementCell counts coord)"
  by (simp add: incrementCell_def wfGrid_setCell)

lemma nth_incrementCell:
  assumes "wfGrid h w counts" "isValidCell (fst coord) (snd coord) h w" "r < h" "c < w"
  shows "incrementCell counts coord ! r ! c
     = counts ! r ! c + (if coord = (int r, int c) then 1 else 0)"
  using assms nth_setCell [of h w counts "fst coord" "snd coord" r c]
  by (auto simp: incrementCell_def isValidCell_def cellAt_def prod_eq_iff)

lemma foldl_incrementCell:
  assumes "wfGrid h w counts" "inBounds h w p" "r < h" "c < w"
  shows "wfGrid h w (foldl incrementCell counts p)
     \<and> foldl incrementCell counts p ! r ! c = counts ! r ! c + count_list p (int r, int c)"
  using assms(1,2)
proof (induction p arbitrary: counts)
  case Nil
  then show ?case by simp
next
  case (Cons coord p)
  from Cons.prems have valid: "isValidCell (fst coord) (snd coord) h w" and rest: "inBounds h w p"
    by (simp_all add: inBounds_def)
  have wf1: "wfGrid h w (incrementCell counts coord)"
    using Cons.prems(1) by (rule wfGrid_incrementCell)
  from Cons.IH [OF wf1 rest] nth_incrementCell [OF Cons.prems(1) valid assms(3,4)]
  show ?case by auto
qed

lemma foldl_foldl_incrementCell:
  assumes "wfGrid h w counts" "\<forall>p \<in> set ps. inBounds h w p" "r < h" "c < w"
  shows "wfGrid h w (foldl (foldl incrementCell) counts ps)
     \<and> foldl (foldl incrementCell) counts ps ! r ! c
       = counts ! r ! c + sum_list (map (\<lambda>p. count_list p (int r, int c)) ps)"
  using assms(1,2)
proof (induction ps arbitrary: counts)
  case Nil
  then show ?case by simp
next
  case (Cons p ps)
  from Cons.prems have p: "inBounds h w p" and rest: "\<forall>p \<in> set ps. inBounds h w p" by simp_all
  from foldl_incrementCell [OF Cons.prems(1) p assms(3,4)]
  have wf1: "wfGrid h w (foldl incrementCell counts p)"
    and one: "foldl incrementCell counts p ! r ! c = counts ! r ! c + count_list p (int r, int c)"
    by simp_all
  from Cons.IH [OF wf1 rest] one show ?case by simp
qed

text \<open>All placements that survive, over all remaining ships, in the order of the source.\<close>

lemma tallyShips_count:
  assumes "wfGrid h w (fst st)" "r < h" "c < w"
  shows "wfGrid h w (fst (foldl (tallyShip h w hits misses sunkShips) st ships))
     \<and> fst (foldl (tallyShip h w hits misses sunkShips) st ships) ! r ! c
       = fst st ! r ! c
         + sum_list (map (\<lambda>p. count_list p (int r, int c))
             (concat (map (\<lambda>len. generateValidPlacements h w len hits misses sunkShips) ships)))
     \<and> snd (foldl (tallyShip h w hits misses sunkShips) st ships)
       = snd st
         + length (concat (map (\<lambda>len. generateValidPlacements h w len hits misses sunkShips) ships))"
  using assms(1)
proof (induction ships arbitrary: st)
  case Nil
  then show ?case by simp
next
  case (Cons len ships)
  let ?ps = "generateValidPlacements h w len hits misses sunkShips"
  let ?st1 = "tallyShip h w hits misses sunkShips st len"
  have "\<forall>p \<in> set ?ps. inBounds h w p" by (simp add: generateValidPlacements_inBounds)
  from foldl_foldl_incrementCell [OF Cons.prems this assms(2,3)]
  have wf1: "wfGrid h w (fst ?st1)"
    and one: "fst ?st1 ! r ! c
        = fst st ! r ! c + sum_list (map (\<lambda>p. count_list p (int r, int c)) ?ps)"
    and tot: "snd ?st1 = snd st + length ?ps"
    by (simp_all add: tallyShip_def Let_def)
  from Cons.IH [OF wf1] one tot show ?case by simp
qed

lemma tallyPlacements_count:
  assumes "r < h" "c < w"
  shows "fst (tallyPlacements h w hits misses ships sunkShips) ! r ! c
       = sum_list (map (\<lambda>p. count_list p (int r, int c))
           (concat (map (\<lambda>len. generateValidPlacements h w len hits misses sunkShips) ships)))"
    and "snd (tallyPlacements h w hits misses ships sunkShips)
       = length (concat (map (\<lambda>len. generateValidPlacements h w len hits misses sunkShips) ships))"
    and "wfGrid h w (fst (tallyPlacements h w hits misses ships sunkShips))"
proof -
  have wf: "wfGrid h w (fst (zeroGrid h w :: nat list list, 0 :: nat))"
    by (simp add: wfGrid_zeroGrid)
  have z: "(zeroGrid h w :: nat list list) ! r ! c = 0"
    using assms by (simp add: zeroGrid_def)
  from tallyShips_count [OF wf assms, of hits misses sunkShips ships] z
  show "fst (tallyPlacements h w hits misses ships sunkShips) ! r ! c
       = sum_list (map (\<lambda>p. count_list p (int r, int c))
           (concat (map (\<lambda>len. generateValidPlacements h w len hits misses sunkShips) ships)))"
    and "snd (tallyPlacements h w hits misses ships sunkShips)
       = length (concat (map (\<lambda>len. generateValidPlacements h w len hits misses sunkShips) ships))"
    and "wfGrid h w (fst (tallyPlacements h w hits misses ships sunkShips))"
    by (simp_all add: tallyPlacements_def)
qed

subsection \<open>With no hit and no miss the enumerator lists the placements of the specification\<close>

lemma isConsistentWithHits_no_hits: "isConsistentWithHits placement []"
  by (simp add: isConsistentWithHits_def)

lemma distinct_count_list_indicator:
  "distinct xs \<Longrightarrow> count_list xs x = (if x \<in> set xs then 1 else 0)"
  by (induction xs) auto

lemma filter_fits_upto:
  "1 \<le> len \<Longrightarrow> filter (\<lambda>i. i + len \<le> n) [0..n - 1] = [0..n - len]"
  by (rule sorted_distinct_set_unique) (auto intro: sorted_wrt_filter)

lemma filter_product:
  "filter (\<lambda>pr. P (fst pr) (snd pr)) (List.product xs ys)
     = concat (map (\<lambda>x. map (Pair x) (filter (P x) ys)) xs)"
  by (induction xs) (simp_all add: filter_map comp_def)

lemma concat_map_if:
  "concat (map (\<lambda>x. if P x then f x else []) xs) = concat (map f (filter P xs))"
  by (induction xs) simp_all

lemma generateValidPlacements_spec:
  assumes "1 \<le> len"
  shows "generateValidPlacements h w len [] [] sunkShips
     = map (cellsOf len) (specPlacements h w len)"
proof -
  let ?rows = "[0..int h - 1]" and ?cols = "[0..int w - 1]"
  have hor: "filter (fitsBoard h w len) (map (Pair Horizontal) (List.product ?rows ?cols))
      = map (Pair Horizontal) (concat (map (\<lambda>row. map (Pair row) [0..int w - len]) ?rows))"
  proof -
    have "filter (fitsBoard h w len) (map (Pair Horizontal) (List.product ?rows ?cols))
        = map (Pair Horizontal)
            (filter (\<lambda>pr. snd pr + len \<le> int w) (List.product ?rows ?cols))"
      by (simp add: filter_map comp_def fitsBoard_def case_prod_unfold)
    also have "filter (\<lambda>pr. snd pr + len \<le> int w) (List.product ?rows ?cols)
        = concat (map (\<lambda>row. map (Pair row) (filter (\<lambda>col. col + len \<le> int w) ?cols)) ?rows)"
      using filter_product [of "\<lambda>row col. col + len \<le> int w" ?rows ?cols] by simp
    finally show ?thesis using assms by (simp add: filter_fits_upto)
  qed
  have ver: "filter (fitsBoard h w len) (map (Pair Vertical) (List.product ?rows ?cols))
      = map (Pair Vertical) (concat (map (\<lambda>row. map (Pair row) ?cols) [0..int h - len]))"
  proof -
    have "filter (fitsBoard h w len) (map (Pair Vertical) (List.product ?rows ?cols))
        = map (Pair Vertical)
            (filter (\<lambda>pr. fst pr + len \<le> int h) (List.product ?rows ?cols))"
      by (simp add: filter_map comp_def fitsBoard_def case_prod_unfold)
    also have "filter (\<lambda>pr. fst pr + len \<le> int h) (List.product ?rows ?cols)
        = concat (map (\<lambda>row. map (Pair row) (filter (\<lambda>col. row + len \<le> int h) ?cols)) ?rows)"
      using filter_product [of "\<lambda>row col. row + len \<le> int h" ?rows ?cols] by simp
    also have "\<dots> = concat (map (\<lambda>row. if row + len \<le> int h then map (Pair row) ?cols else []) ?rows)"
      by (intro arg_cong [where f = concat] map_cong) auto
    also have "\<dots> = concat (map (\<lambda>row. map (Pair row) ?cols)
                         (filter (\<lambda>row. row + len \<le> int h) ?rows))"
      by (rule concat_map_if)
    finally show ?thesis using assms by (simp add: filter_fits_upto)
  qed
  have "specPlacements h w len
      = map (Pair Horizontal) (concat (map (\<lambda>row. map (Pair row) [0..int w - len]) ?rows))
        @ map (Pair Vertical) (concat (map (\<lambda>row. map (Pair row) ?cols) [0..int h - len]))"
    by (simp add: specPlacements_def hor ver)
  then show ?thesis
    by (simp add: generateValidPlacements_def candidatePlacement_eq isConsistentWithHits_no_hits
        cellsOf_def map_concat comp_def)
qed

lemma count_list_cellsOf:
  "count_list (cellsOf len pl) cell = (if covers len pl cell then 1 else 0)"
proof -
  have line: "count_list (map f [0..len - 1]) cell
      = (if \<exists>i. 0 \<le> i \<and> i < len \<and> f i = cell then 1 else 0)"
    if "inj f" for f :: "int \<Rightarrow> Coordinate"
  proof -
    have "distinct (map f [0..len - 1])"
      using that by (simp add: distinct_map inj_on_def inj_def)
    then have "count_list (map f [0..len - 1]) cell
        = (if cell \<in> set (map f [0..len - 1]) then 1 else 0)"
      by (rule distinct_count_list_indicator)
    also have "cell \<in> set (map f [0..len - 1]) \<longleftrightarrow> (\<exists>i. 0 \<le> i \<and> i < len \<and> f i = cell)"
      by auto
    finally show ?thesis .
  qed
  obtain d row col where pl: "pl = (d, row, col)" by (cases pl)
  show ?thesis
  proof (cases d)
    case Horizontal
    have "(\<exists>i. 0 \<le> i \<and> i < len \<and> (row, col + i) = cell)
        \<longleftrightarrow> fst cell = row \<and> col \<le> snd cell \<and> snd cell < col + len"
      by (cases cell) (auto intro: exI [of _ "snd cell - col"])
    with line [of "\<lambda>i. (row, col + i)"] pl Horizontal show ?thesis
      by (simp add: cellsOf_def covers_def inj_def)
  next
    case Vertical
    have "(\<exists>i. 0 \<le> i \<and> i < len \<and> (row + i, col) = cell)
        \<longleftrightarrow> snd cell = col \<and> row \<le> fst cell \<and> fst cell < row + len"
      by (cases cell) (auto intro: exI [of _ "fst cell - row"])
    with line [of "\<lambda>i. (row + i, col)"] pl Vertical show ?thesis
      by (simp add: cellsOf_def covers_def inj_def)
  qed
qed

lemma sum_list_indicator:
  "sum_list (map (\<lambda>x. if P x then 1 else 0) xs) = length (filter P xs)"
  by (induction xs) simp_all

lemma specPlacements_nonempty:
  assumes "0 < h" "0 < w" "1 \<le> len" "len \<le> int h \<or> len \<le> int w"
  shows "0 < length (specPlacements h w len)"
proof -
  have "(if len \<le> int w then (Horizontal, 0, 0) else (Vertical, 0, 0))
      \<in> set (specPlacements h w len)"
    using assms by (auto simp: specPlacements_def fitsBoard_def)
  then have "specPlacements h w len \<noteq> []" by auto
  then show ?thesis by simp
qed

lemma tally_no_information:
  assumes "1 \<le> len" "r < h" "c < w"
  shows "fst (tallyPlacements h w [] [] [len] sunkShips) ! r ! c
       = coverCount h w len (int r, int c)"
    and "snd (tallyPlacements h w [] [] [len] sunkShips) = length (specPlacements h w len)"
proof -
  have gen: "concat (map (\<lambda>n. generateValidPlacements h w n [] [] sunkShips) [len])
      = map (cellsOf len) (specPlacements h w len)"
    using assms(1) by (simp add: generateValidPlacements_spec)
  show "fst (tallyPlacements h w [] [] [len] sunkShips) ! r ! c
       = coverCount h w len (int r, int c)"
    unfolding tallyPlacements_count(1) [OF assms(2,3)] gen
    by (simp add: comp_def count_list_cellsOf sum_list_indicator coverCount_def)
  show "snd (tallyPlacements h w [] [] [len] sunkShips) = length (specPlacements h w len)"
    unfolding tallyPlacements_count(2) [OF assms(2,3)] gen by simp
qed

lemma heuristicMap_no_information:
  assumes "0 < snd (tallyPlacements h w [] [] ships sunkShips)" "ships \<noteq> []"
  shows "heuristicMap h w [] [] ships NORMAL sunkShips
     = Some (Inr (baseProbabilityMap h w [] []
          (fst (tallyPlacements h w [] [] ships sunkShips))
          (snd (tallyPlacements h w [] [] ships sunkShips))))"
proof -
  have adj: "getAdjacentCells h w [] [] = []"
    by (simp add: getAdjacentCells_def)
  show ?thesis
    using assms by (simp add: heuristicMap_def Let_def applyMode_def adj)
qed

lemma base_no_information:
  assumes "1 \<le> len" "r < h" "c < w"
  shows "baseProbabilityMap h w [] []
          (fst (tallyPlacements h w [] [] [len] sunkShips))
          (snd (tallyPlacements h w [] [] [len] sunkShips)) ! r ! c
      = of_nat (coverCount h w len (int r, int c)) / of_nat (length (specPlacements h w len))"
  using assms tally_no_information [OF assms, of sunkShips]
  by (simp add: baseProbabilityMap_def nth_mapCells)

text \<open>
  Claim C7. On a board with no hit and no miss and a single remaining ship of length \<open>len\<close>
  that fits the board in at least one orientation, the engine reaches the heuristics with a
  base probability map whose every cell is the number of placements covering the cell
  divided by the number of all placements, the placements being counted as the
  specification describes them (\<open>specPlacements\<close>, \<open>coverCount\<close>); in mode \<open>NORMAL\<close> no
  heuristic changes that map, and the engine returns it normalized.
\<close>

theorem C7_base_probability_is_cover_ratio:
  assumes "0 < boardHeight" "0 < boardWidth" "1 \<le> len"
    "len \<le> int boardHeight \<or> len \<le> int boardWidth"
  shows "\<exists>base. heuristicMap boardHeight boardWidth [] [] [len] NORMAL sunkShips = Some (Inr base)
     \<and> calculateProbabilityMap boardHeight boardWidth [] [] [len] NORMAL sunkShips
         = Inr (normalizeMap base boardHeight boardWidth)
     \<and> wfGrid boardHeight boardWidth base
     \<and> 0 < length (specPlacements boardHeight boardWidth len)
     \<and> (\<forall>r < boardHeight. \<forall>c < boardWidth.
           base ! r ! c
             = of_nat (coverCount boardHeight boardWidth len (int r, int c))
               / of_nat (length (specPlacements boardHeight boardWidth len)))"
proof -
  let ?tally = "tallyPlacements boardHeight boardWidth [] [] [len] sunkShips"
  let ?base = "baseProbabilityMap boardHeight boardWidth [] [] (fst ?tally) (snd ?tally)"
  have pos: "0 < length (specPlacements boardHeight boardWidth len)"
    using assms by (rule specPlacements_nonempty)
  have "snd ?tally = length (specPlacements boardHeight boardWidth len)"
    using tally_no_information(2) [OF assms(3)] assms(1,2) by blast
  with pos have "0 < snd ?tally" by simp
  then have heur: "heuristicMap boardHeight boardWidth [] [] [len] NORMAL sunkShips
      = Some (Inr ?base)"
    by (intro heuristicMap_no_information) simp_all
  then have calc: "calculateProbabilityMap boardHeight boardWidth [] [] [len] NORMAL sunkShips
      = Inr (normalizeMap ?base boardHeight boardWidth)"
    by (simp add: calculateProbabilityMap_def)
  have wf: "wfGrid boardHeight boardWidth ?base"
    by (rule wfGrid_baseProbabilityMap)
  have cells: "\<forall>r < boardHeight. \<forall>c < boardWidth.
      ?base ! r ! c
        = of_nat (coverCount boardHeight boardWidth len (int r, int c))
          / of_nat (length (specPlacements boardHeight boardWidth len))"
    using base_no_information [OF assms(3)] by blast
  from heur calc wf pos cells show ?thesis by blast
qed

theorem C7_base_probability_is_cover_ratio_witness:
  "(0::nat) < 10 \<and> (1::int) \<le> 3 \<and> ((3::int) \<le> int 10 \<or> (3::int) \<le> int 10)
   \<and> coverCount 10 10 3 (0, 0) = 2 \<and> coverCount 10 10 3 (5, 5) = 6
   \<and> length (specPlacements 10 10 3) = 160
   \<and> (\<exists>base. heuristicMap 10 10 [] [] [3] NORMAL [] = Some (Inr base)
         \<and> calculateProbabilityMap 10 10 [] [] [3] NORMAL [] = Inr (normalizeMap base 10 10)
         \<and> base ! 0 ! 0 = 2 / 160 \<and> base ! 5 ! 5 = 6 / 160)"
proof -
  have n: "coverCount 10 10 3 (0, 0) = 2" "coverCount 10 10 3 (5, 5) = 6"
    "length (specPlacements 10 10 3) = 160"
    by code_simp+
  have h: "(0::nat) < 10" "(1::int) \<le> 3" "(3::int) \<le> int 10 \<or> (3::int) \<le> int 10"
    by simp_all
  from C7_base_probability_is_cover_ratio [OF h(1) h(1) h(2) h(3), of "[]"]
  obtain base where base: "heuristicMap 10 10 [] [] [3] NORMAL [] = Some (Inr base)"
    "calculateProbabilityMap 10 10 [] [] [3] NORMAL [] = Inr (normalizeMap base 10 10)"
    and cells: "\<And>r c. r < 10 \<Longrightarrow> c < 10 \<Longrightarrow> base ! r ! c
        = of_nat (coverCount 10 10 3 (int r, int c)) / of_nat (length (specPlacements 10 10 3))"
    by blast
  have "base ! 0 ! 0 = 2 / 160" using cells [of 0 0] n by simp
  moreover have "base ! 5 ! 5 = 6 / 160" using cells [of 5 5] n by simp
  ultimately show ?thesis using n base by simp
qed

subsection \<open>Contradictory input\<close>

lemma tallyShips_total:
  "snd (foldl (tallyShip h w hits misses sunkShips) st ships)
     = snd st
       + length (concat (map (\<lambda>len. generateValidPlacements h w len hits misses sunkShips) ships))"
  by (induction ships arbitrary: st) (simp_all add: tallyShip_def Let_def)

lemma tallyPlacements_total:
  "snd (tallyPlacements h w hits misses ships sunkShips)
     = length (concat (map (\<lambda>len. generateValidPlacements h w len hits misses sunkShips) ships))"
  by (simp add: tallyPlacements_def tallyShips_total)

lemma normalizeMap_positive:
  assumes wf: "wfGrid h w m" and rc: "r < h" "c < w" and pos: "0 < m ! r ! c"
  shows "0 < normalizeMap m h w ! r ! c"
proof -
  let ?positive = "filter (\<lambda>v. 0 < v) (concat m)"
  from wf rc have "m ! r \<in> set m" "m ! r ! c \<in> set (m ! r)"
    by (simp_all add: wfGrid_def)
  with pos have "m ! r ! c \<in> set ?positive" by auto
  then have ne: "?positive \<noteq> []" by (metis empty_iff empty_set)
  then have s: "0 < sum_list ?positive" by (intro sum_list_positive) auto
  with ne wf have "normalizeMap m h w
      = mapCells h w (\<lambda>row col v. if 0 < v then v / sum_list ?positive else v) m"
    by (simp add: normalizeMap_def Let_def concat_rows)
  with rc pos s show ?thesis by (simp add: nth_mapCells)
qed

text \<open>
  Claim C1, as amended. Whenever no placement of any remaining ship survives the
  enumeration and the consistency filter, \<open>calculateProbabilityMap\<close> returns the all-zero
  map, in every mode. (A hit that no surviving placement covers does not by itself empty
  the map: a placement that overlaps no hit counts as consistent.)
\<close>

theorem C1_no_surviving_placement_zero_map:
  assumes "\<forall>len \<in> set remainingShips.
             generateValidPlacements boardHeight boardWidth len hits misses sunkShips = []"
  shows "calculateProbabilityMap boardHeight boardWidth hits misses remainingShips mode sunkShips
     = Inr (replicate boardHeight (replicate boardWidth 0))"
proof -
  from assms have
    "concat (map (\<lambda>len. generateValidPlacements boardHeight boardWidth len hits misses sunkShips)
       remainingShips) = []"
    by simp
  then have "snd (tallyPlacements boardHeight boardWidth hits misses remainingShips sunkShips) = 0"
    by (simp only: tallyPlacements_total list.size)
  then show ?thesis
    by (simp add: calculateProbabilityMap_def heuristicMap_def Let_def zeroGrid_def)
qed

theorem C1_no_surviving_placement_zero_map_witness:
  "generateValidPlacements 2 2 2 [(0, 0)] [(0, 1), (1, 0)] [] = []
   \<and> calculateProbabilityMap 2 2 [(0, 0)] [(0, 1), (1, 0)] [2] NORMAL [] = Inr [[0, 0], [0, 0]]
   \<and> calculateProbabilityMap 2 2 [(0, 0)] [(0, 1), (1, 0)] [2] HUNTING [] = Inr [[0, 0], [0, 0]]
   \<and> calculateProbabilityMap 2 2 [(0, 0)] [(0, 1), (1, 0)] [2] TARGETING [] = Inr [[0, 0], [0, 0]]
   \<and> calculateProbabilityMap 2 2 [(0, 0)] [(0, 1), (1, 0)] [2] SUPER_AGGRESSIVE []
       = Inr [[0, 0], [0, 0]]
   \<and> calculateProbabilityMap 2 2 [(0, 0)] [(0, 1), (1, 0)] [2] OPTIMIZED [] = Inr [[0, 0], [0, 0]]"
proof -
  have gen: "generateValidPlacements 2 2 2 [(0, 0)] [(0, 1), (1, 0)] [] = []"
    by code_simp
  then have none: "\<forall>len \<in> set [2]. generateValidPlacements 2 2 len [(0, 0)] [(0, 1), (1, 0)] [] = []"
    by simp
  have z: "replicate 2 (replicate 2 (0::rat)) = [[0, 0], [0, 0]]"
    by (simp add: numeral_2_eq_2)
  from gen C1_no_surviving_placement_zero_map [OF none] z show ?thesis
    by simp
qed

text \<open>
  Claim C1, as stated, fails on the 10 by 10 board: with a hit at (0,0), misses at (0,1)
  and (1,0) and one remaining ship of length 2, no placement covers the hit, yet 174
  placements elsewhere on the board survive and the engine returns a map that is not
  all-zero (its cell (5,5) is positive).
\<close>

theorem C1_contradictory_input_counterexample:
  "calculateProbabilityMap 10 10 [(0, 0)] [(0, 1), (1, 0)] [2] NORMAL [] \<noteq> Inr (zeroGrid 10 10)
   \<and> calculateProbabilityMap 10 10 [(0, 0)] [(0, 1), (1, 0)] [2] NORMAL [] \<noteq> Inl TypeError"
proof -
  let ?hits = "[(0, 0)] :: Coordinate list"
  let ?misses = "[(0, 1), (1, 0)] :: Coordinate list"
  let ?tally = "tallyPlacements 10 10 ?hits ?misses [2] []"
  let ?base = "baseProbabilityMap 10 10 ?hits ?misses (fst ?tally) (snd ?tally)"
  have total: "snd ?tally = 174"
    unfolding tallyPlacements_total by code_simp
  have "fst ?tally ! 5 ! 5
      = sum_list (map (\<lambda>p. count_list p (int 5, int 5))
          (concat (map (\<lambda>len. generateValidPlacements 10 10 len ?hits ?misses []) [2])))"
    by (rule tallyPlacements_count) simp_all
  also have "\<dots> = 4" by code_simp
  finally have count: "fst ?tally ! 5 ! 5 = 4" .
  have base: "?base ! 5 ! 5 = 4 / 174"
    using count total by (simp add: baseProbabilityMap_def nth_mapCells)
  have adj: "getAdjacentCells 10 10 ?hits ?misses = []"
    by code_simp
  have aligned: "findAlignedHits ?hits = []"
    by code_simp
  have "applyTargetingStrategy ?base 10 10 ?hits ?misses = Inr ?base"
    by (simp add: applyTargetingStrategy_def adj aligned findPotentialCompletions_def)
  then have "heuristicMap 10 10 ?hits ?misses [2] NORMAL [] = Some (Inr ?base)"
    using total by (simp add: heuristicMap_def Let_def applyMode_def)
  then have res: "calculateProbabilityMap 10 10 ?hits ?misses [2] NORMAL []
      = Inr (normalizeMap ?base 10 10)"
    by (simp add: calculateProbabilityMap_def)
  have "0 < normalizeMap ?base 10 10 ! 5 ! 5"
    using base by (intro normalizeMap_positive wfGrid_baseProbabilityMap) simp_all
  moreover have "(zeroGrid 10 10 :: ProbabilityMap) ! 5 ! 5 = 0"
    by (simp add: zeroGrid_def)
  ultimately have "normalizeMap ?base 10 10 \<noteq> zeroGrid 10 10" by auto
  with res show ?thesis by simp
qed

subsection \<open>Two adjacent hits in a row: the engine on a 5 by 5 board\<close>

text \<open>The stages of the engine on the board of 5 by 5 cells with hits at (2,1) and (2,2),
  no miss and one remaining ship of length 3, evaluated one after the other.\<close>

lemma pair_tally:
  "tallyPlacements 5 5 [(2, 1), (2, 2)] [] [3] []
     = ([[2, 3, 4, 3, 2], [3, 4, 5, 4, 3], [4, 5, 6, 5, 4], [3, 4, 5, 4, 3], [2, 3, 4, 3, 2]], 30)"
  by code_simp

lemma pair_base:
  "baseProbabilityMap 5 5 [(2, 1), (2, 2)] []
     [[2, 3, 4, 3, 2], [3, 4, 5, 4, 3], [4, 5, 6, 5, 4], [3, 4, 5, 4, 3], [2, 3, 4, 3, 2]] 30
   = [[1 / 15, 1 / 10, 2 / 15, 1 / 10, 1 / 15],
      [1 / 10, 2 / 15, 1 / 6, 2 / 15, 1 / 10],
      [2 / 15, 0, 0, 1 / 6, 2 / 15],
      [1 / 10, 2 / 15, 1 / 6, 2 / 15, 1 / 10],
      [1 / 15, 1 / 10, 2 / 15, 1 / 10, 1 / 15]]"
  by code_simp

lemma pair_aligned:
  "findAlignedHits [(2, 1), (2, 2)]
     = [\<lparr>direction = Horizontal, coordinates = [(2, 1), (2, 2)]\<rparr>]"
  by code_simp

lemma pair_adjacent:
  "getAdjacentCells 5 5 [(2, 1), (2, 2)] [] = [(1, 1), (3, 1), (2, 0), (1, 2), (2, 3), (3, 2)]"
  by code_simp

lemma pair_completions: "findPotentialCompletions 5 5 [(2, 1), (2, 2)] [] 5 = Inr []"
  by code_simp

lemma pair_boost_targeting:
  "boostCells 3
     [[1 / 15, 1 / 10, 2 / 15, 1 / 10, 1 / 15],
      [1 / 10, 2 / 15, 1 / 6, 2 / 15, 1 / 10],
      [2 / 15, 0, 0, 1 / 6, 2 / 15],
      [1 / 10, 2 / 15, 1 / 6, 2 / 15, 1 / 10],
      [1 / 15, 1 / 10, 2 / 15, 1 / 10, 1 / 15]]
     [(1, 1), (3, 1), (2, 0), (1, 2), (2, 3), (3, 2)]
   = Inr [[1 / 15, 1 / 10, 2 / 15, 1 / 10, 1 / 15],
          [1 / 10, 2 / 5, 1 / 2, 2 / 15, 1 / 10],
          [2 / 5, 0, 0, 1 / 2, 2 / 15],
          [1 / 10, 2 / 5, 1 / 2, 2 / 15, 1 / 10],
          [1 / 15, 1 / 10, 2 / 15, 1 / 10, 1 / 15]]"
  by code_simp

lemma pair_smallest_targeting:
  "findSmallestRemainingShip
     [[1 / 15, 1 / 10, 2 / 15, 1 / 10, 1 / 15],
      [1 / 10, 2 / 5, 1 / 2, 2 / 15, 1 / 10],
      [2 / 5, 0, 0, 1 / 2, 2 / 15],
      [1 / 10, 2 / 5, 1 / 2, 2 / 15, 1 / 10],
      [1 / 15, 1 / 10, 2 / 15, 1 / 10, 1 / 15]] 5 5 = 5"
  by code_simp

lemma pair_normalize_targeting:
  "normalizeMap
     [[1 / 15, 1 / 10, 2 / 15, 1 / 10, 1 / 15],
      [1 / 10, 2 / 5, 1 / 2, 2 / 15, 1 / 10],
      [2 / 5, 0, 0, 1 / 2, 2 / 15],
      [1 / 10, 2 / 5, 1 / 2, 2 / 15, 1 / 10],
      [1 / 15, 1 / 10, 2 / 15, 1 / 10, 1 / 15]] 5 5
   = [[2 / 133, 3 / 133, 4 / 133, 3 / 133, 2 / 133],
      [3 / 133, 12 / 133, 15 / 133, 4 / 133, 3 / 133],
      [12 / 133, 0, 0, 15 / 133, 4 / 133],
      [3 / 133, 12 / 133, 15 / 133, 4 / 133, 3 / 133],
      [2 / 133, 3 / 133, 4 / 133, 3 / 133, 2 / 133]]"
  by code_simp

lemma pair_boost_aggressive:
  "boostCells 5
     [[1 / 15, 1 / 10, 2 / 15, 1 / 10, 1 / 15],
      [1 / 10, 2 / 15, 1 / 6, 2 / 15, 1 / 10],
      [2 / 15, 0, 0, 1 / 6, 2 / 15],
      [1 / 10, 2 / 15, 1 / 6, 2 / 15, 1 / 10],
      [1 / 15, 1 / 10, 2 / 15, 1 / 10, 1 / 15]]
     [(1, 1), (3, 1), (2, 0), (1, 2), (2, 3), (3, 2)]
   = Inr [[1 / 15, 1 / 10, 2 / 15, 1 / 10, 1 / 15],
      [1 / 10, 2 / 3, 5 / 6, 2 / 15, 1 / 10],
      [2 / 3, 0, 0, 5 / 6, 2 / 15],
      [1 / 10, 2 / 3, 5 / 6, 2 / 15, 1 / 10],
      [1 / 15, 1 / 10, 2 / 15, 1 / 10, 1 / 15]]"
  by code_simp

lemma pair_smallest_aggressive:
  "findSmallestRemainingShip
     [[1 / 15, 1 / 10, 2 / 15, 1 / 10, 1 / 15],
      [1 / 10, 2 / 3, 5 / 6, 2 / 15, 1 / 10],
      [2 / 3, 0, 0, 5 / 6, 2 / 15],
      [1 / 10, 2 / 3, 5 / 6, 2 / 15, 1 / 10],
      [1 / 15, 1 / 10, 2 / 15, 1 / 10, 1 / 15]] 5 5 = 5"
  by code_simp

lemma pair_normalize_aggressive:
  "normalizeMap
     [[1 / 15, 1 / 10, 2 / 15, 1 / 10, 1 / 15],
      [1 / 10, 2 / 3, 5 / 6, 2 / 15, 1 / 10],
      [2 / 3, 0, 0, 5 / 6, 2 / 15],
      [1 / 10, 2 / 3, 5 / 6, 2 / 15, 1 / 10],
      [1 / 15, 1 / 10, 2 / 15, 1 / 10, 1 / 15]] 5 5
   = [[2 / 187, 3 / 187, 4 / 187, 3 / 187, 2 / 187],
      [3 / 187, 20 / 187, 25 / 187, 4 / 187, 3 / 187],
      [20 / 187, 0, 0, 25 / 187, 4 / 187],
      [3 / 187, 20 / 187, 25 / 187, 4 / 187, 3 / 187],
      [2 / 187, 3 / 187, 4 / 187, 3 / 187, 2 / 187]]"
  by code_simp

lemma pair_no_corner: "cornerPass f m 5 5 [(2, 1), (2, 2)] [] = m"
  by (simp add: cornerPass_def cornerStep_def)

lemma pair_targeting_strategy:
  "applyTargetingStrategy
     [[1 / 15, 1 / 10, 2 / 15, 1 / 10, 1 / 15],
      [1 / 10, 2 / 15, 1 / 6, 2 / 15, 1 / 10],
      [2 / 15, 0, 0, 1 / 6, 2 / 15],
      [1 / 10, 2 / 15, 1 / 6, 2 / 15, 1 / 10],
      [1 / 15, 1 / 10, 2 / 15, 1 / 10, 1 / 15]] 5 5 [(2, 1), (2, 2)] []
   = Inr [[1 / 15, 1 / 10, 2 / 15, 1 / 10, 1 / 15],
      [1 / 10, 2 / 5, 1 / 2, 2 / 15, 1 / 10],
      [2 / 5, 0, 0, 1 / 2, 2 / 15],
      [1 / 10, 2 / 5, 1 / 2, 2 / 15, 1 / 10],
      [1 / 15, 1 / 10, 2 / 15, 1 / 10, 1 / 15]]"
  by (simp add: applyTargetingStrategy_def pair_aligned pair_adjacent ADJACENCY_FACTOR_def
      COMPLETION_FACTOR_def pair_boost_targeting pair_smallest_targeting pair_completions
      del: boostCells.simps(2))

lemma pair_aggressive_strategy:
  "applySuperAggressiveStrategy
     [[1 / 15, 1 / 10, 2 / 15, 1 / 10, 1 / 15],
      [1 / 10, 2 / 15, 1 / 6, 2 / 15, 1 / 10],
      [2 / 15, 0, 0, 1 / 6, 2 / 15],
      [1 / 10, 2 / 15, 1 / 6, 2 / 15, 1 / 10],
      [1 / 15, 1 / 10, 2 / 15, 1 / 10, 1 / 15]] 5 5 [(2, 1), (2, 2)] []
   = Inr [[1 / 15, 1 / 10, 2 / 15, 1 / 10, 1 / 15],
      [1 / 10, 2 / 3, 5 / 6, 2 / 15, 1 / 10],
      [2 / 3, 0, 0, 5 / 6, 2 / 15],
      [1 / 10, 2 / 3, 5 / 6, 2 / 15, 1 / 10],
      [1 / 15, 1 / 10, 2 / 15, 1 / 10, 1 / 15]]"
  by (simp add: applySuperAggressiveStrategy_def pair_aligned pair_adjacent
      SUPER_ADJACENCY_FACTOR_def SUPER_COMPLETION_FACTOR_def pair_boost_aggressive
      pair_smallest_aggressive pair_completions applyPatternRecognition_def pair_no_corner
      del: boostCells.simps(2))

text \<open>
  Claim C4 (the code departs from it). The hits (2,1) and (2,2) are two aligned hits: the
  alignment analyzer returns one group. In TARGETING mode the engine nevertheless takes its
  branch for "no aligned hits": the map before the final normalization is the base map with
  the extension points (2,0) and (2,3) multiplied by 3, not by 4, and with the four cells
  above and below the hits multiplied by 3 as well.
\<close>

theorem C4_targeting_one_group_takes_adjacency_branch:
  "findAlignedHits [(2, 1), (2, 2)]
     = [\<lparr>direction = Horizontal, coordinates = [(2, 1), (2, 2)]\<rparr>]
   \<and> getExtensionPoints [(2, 1), (2, 2)] Horizontal 5 5 [] = Inr [(2, 0), (2, 3)]
   \<and> baseProbabilityMap 5 5 [(2, 1), (2, 2)] []
         (fst (tallyPlacements 5 5 [(2, 1), (2, 2)] [] [3] []))
         (snd (tallyPlacements 5 5 [(2, 1), (2, 2)] [] [3] []))
       = [[1 / 15, 1 / 10, 2 / 15, 1 / 10, 1 / 15],
      [1 / 10, 2 / 15, 1 / 6, 2 / 15, 1 / 10],
      [2 / 15, 0, 0, 1 / 6, 2 / 15],
      [1 / 10, 2 / 15, 1 / 6, 2 / 15, 1 / 10],
      [1 / 15, 1 / 10, 2 / 15, 1 / 10, 1 / 15]]
   \<and> heuristicMap 5 5 [(2, 1), (2, 2)] [] [3] TARGETING []
       = Some (Inr [[1 / 15, 1 / 10, 2 / 15, 1 / 10, 1 / 15],
      [1 / 10, 2 / 5, 1 / 2, 2 / 15, 1 / 10],
      [2 / 5, 0, 0, 1 / 2, 2 / 15],
      [1 / 10, 2 / 5, 1 / 2, 2 / 15, 1 / 10],
      [1 / 15, 1 / 10, 2 / 15, 1 / 10, 1 / 15]])"
proof -
  have "getExtensionPoints [(2, 1), (2, 2)] Horizontal 5 5 [] = Inr [(2, 0), (2, 3)]"
    by code_simp
  then show ?thesis
    by (simp add: pair_aligned heuristicMap_def applyMode_def pair_tally pair_base
        pair_targeting_strategy)
qed

text \<open>
  Claim C8 (the code departs from it). On the same input, in the modes TARGETING and
  SUPER_AGGRESSIVE, the returned map gives the extension cell (2,0) the value of the cells
  (1,1) and (3,1) above and below the hits, and less than the cells (1,2) and (3,2); the
  extension cell (2,3) has the value of (1,2) and (3,2).
\<close>

theorem C8_extension_cells_not_preferred:
  "calculateProbabilityMap 5 5 [(2, 1), (2, 2)] [] [3] TARGETING []
     = Inr [[2 / 133, 3 / 133, 4 / 133, 3 / 133, 2 / 133],
      [3 / 133, 12 / 133, 15 / 133, 4 / 133, 3 / 133],
      [12 / 133, 0, 0, 15 / 133, 4 / 133],
      [3 / 133, 12 / 133, 15 / 133, 4 / 133, 3 / 133],
      [2 / 133, 3 / 133, 4 / 133, 3 / 133, 2 / 133]]
   \<and> calculateProbabilityMap 5 5 [(2, 1), (2, 2)] [] [3] SUPER_AGGRESSIVE []
     = Inr [[2 / 187, 3 / 187, 4 / 187, 3 / 187, 2 / 187],
      [3 / 187, 20 / 187, 25 / 187, 4 / 187, 3 / 187],
      [20 / 187, 0, 0, 25 / 187, 4 / 187],
      [3 / 187, 20 / 187, 25 / 187, 4 / 187, 3 / 187],
      [2 / 187, 3 / 187, 4 / 187, 3 / 187, 2 / 187]]"
  by (simp add: calculateProbabilityMap_def heuristicMap_def applyMode_def pair_tally pair_base
      pair_targeting_strategy pair_aggressive_strategy pair_normalize_targeting
      pair_normalize_aggressive)

subsection \<open>Hits of sunk ships and the entropy blend\<close>

text \<open>The stages of the optimized strategy on the board of 5 by 5 cells with two sunk ships
  of length 2, at (0,0), (0,1) and at (4,0), (4,1), one further hit at (2,3), no miss and
  one remaining ship of length 3.\<close>

lemma sunk_tally:
  "tallyPlacements 5 5 [(0, 0), (0, 1), (4, 0), (4, 1), (2, 3)] [] [3]
     [\<lparr>sunkLength = 2, positions = [(0, 0), (0, 1)]\<rparr>,
      \<lparr>sunkLength = 2, positions = [(4, 0), (4, 1)]\<rparr>]
     = ([[2, 3, 4, 3, 2], [3, 4, 5, 4, 3], [4, 5, 6, 5, 4], [3, 4, 5, 4, 3], [2, 3, 4, 3, 2]], 30)"
  by code_simp

lemma sunk_base:
  "baseProbabilityMap 5 5 [(0, 0), (0, 1), (4, 0), (4, 1), (2, 3)] []
     [[2, 3, 4, 3, 2], [3, 4, 5, 4, 3], [4, 5, 6, 5, 4], [3, 4, 5, 4, 3], [2, 3, 4, 3, 2]] 30
   = [[0, 0, 2 / 15, 1 / 10, 1 / 15],
      [1 / 10, 2 / 15, 1 / 6, 2 / 15, 1 / 10],
      [2 / 15, 1 / 6, 1 / 5, 0, 2 / 15],
      [1 / 10, 2 / 15, 1 / 6, 2 / 15, 1 / 10],
      [0, 0, 2 / 15, 1 / 10, 1 / 15]]"
  by code_simp

lemma sunk_active:
  "getActiveHits [(0, 0), (0, 1), (4, 0), (4, 1), (2, 3)]
     [\<lparr>sunkLength = 2, positions = [(0, 0), (0, 1)]\<rparr>,
      \<lparr>sunkLength = 2, positions = [(4, 0), (4, 1)]\<rparr>] = [(2, 3)]"
  by code_simp

lemma sunk_aligned_all:
  "findAlignedHits [(0, 0), (0, 1), (4, 0), (4, 1), (2, 3)]
     = [\<lparr>direction = Horizontal, coordinates = [(0, 0), (0, 1)]\<rparr>,
        \<lparr>direction = Horizontal, coordinates = [(4, 0), (4, 1)]\<rparr>]"
  by code_simp

lemma sunk_aligned_active: "findAlignedHits [(2, 3)] = []"
  by code_simp

lemma sunk_adjacent: "getAdjacentCells 5 5 [(2, 3)] [] = [(1, 3), (2, 4), (3, 3), (2, 2)]"
  by code_simp

lemma sunk_boost:
  "boostCells 10
     [[0, 0, 2 / 15, 1 / 10, 1 / 15],
      [1 / 10, 2 / 15, 1 / 6, 2 / 15, 1 / 10],
      [2 / 15, 1 / 6, 1 / 5, 0, 2 / 15],
      [1 / 10, 2 / 15, 1 / 6, 2 / 15, 1 / 10],
      [0, 0, 2 / 15, 1 / 10, 1 / 15]]
     [(1, 3), (2, 4), (3, 3), (2, 2)]
   = Inr [[0, 0, 2 / 15, 1 / 10, 1 / 15],
      [1 / 10, 2 / 15, 1 / 6, 4 / 3, 1 / 10],
      [2 / 15, 1 / 6, 2, 0, 4 / 3],
      [1 / 10, 2 / 15, 1 / 6, 4 / 3, 1 / 10],
      [0, 0, 2 / 15, 1 / 10, 1 / 15]]"
  by code_simp

lemma sunk_smallest:
  "findSmallestRemainingShip
     [[0, 0, 2 / 15, 1 / 10, 1 / 15],
      [1 / 10, 2 / 15, 1 / 6, 4 / 3, 1 / 10],
      [2 / 15, 1 / 6, 2, 0, 4 / 3],
      [1 / 10, 2 / 15, 1 / 6, 4 / 3, 1 / 10],
      [0, 0, 2 / 15, 1 / 10, 1 / 15]] 5 5 = 5"
  by code_simp

lemma sunk_completions: "findPotentialCompletions 5 5 [(2, 3)] [] 5 = Inr []"
  by code_simp

lemma sunk_pattern:
  "applyEnhancedPatternRecognition
     [[0, 0, 2 / 15, 1 / 10, 1 / 15],
      [1 / 10, 2 / 15, 1 / 6, 4 / 3, 1 / 10],
      [2 / 15, 1 / 6, 2, 0, 4 / 3],
      [1 / 10, 2 / 15, 1 / 6, 4 / 3, 1 / 10],
      [0, 0, 2 / 15, 1 / 10, 1 / 15]] 5 5 [(2, 3)] []
   = [[0, 0, 2 / 15, 1 / 10, 1 / 15],
      [1 / 10, 2 / 15, 1 / 6, 8 / 3, 1 / 10],
      [2 / 15, 1 / 6, 4, 0, 8 / 3],
      [1 / 10, 2 / 15, 1 / 6, 8 / 3, 1 / 10],
      [0, 0, 2 / 15, 1 / 10, 1 / 15]]"
  by code_simp

lemma sunk_blend:
  "applyInformationEntropy
     [[0, 0, 2 / 15, 1 / 10, 1 / 15],
      [1 / 10, 2 / 15, 1 / 6, 8 / 3, 1 / 10],
      [2 / 15, 1 / 6, 4, 0, 8 / 3],
      [1 / 10, 2 / 15, 1 / 6, 8 / 3, 1 / 10],
      [0, 0, 2 / 15, 1 / 10, 1 / 15]] 5 5 [(2, 3)] [] [3]
   = [[0, 0, 22 / 75, 11 / 50, 11 / 75],
      [11 / 50, 22 / 75, 11 / 30, 31 / 15, 11 / 50],
      [22 / 75, 11 / 30, 31 / 10, 0, 31 / 15],
      [11 / 50, 22 / 75, 11 / 30, 31 / 15, 11 / 50],
      [0, 0, 22 / 75, 11 / 50, 11 / 75]]"
  by code_simp

lemma sunk_normalize:
  "normalizeMap
     [[0, 0, 2 / 15, 1 / 10, 1 / 15],
      [1 / 10, 2 / 15, 1 / 6, 8 / 3, 1 / 10],
      [2 / 15, 1 / 6, 4, 0, 8 / 3],
      [1 / 10, 2 / 15, 1 / 6, 8 / 3, 1 / 10],
      [0, 0, 2 / 15, 1 / 10, 1 / 15]] 5 5
   = [[0, 0, 4 / 417, 1 / 139, 2 / 417],
      [1 / 139, 4 / 417, 5 / 417, 80 / 417, 1 / 139],
      [4 / 417, 5 / 417, 40 / 139, 0, 80 / 417],
      [1 / 139, 4 / 417, 5 / 417, 80 / 417, 1 / 139],
      [0, 0, 4 / 417, 1 / 139, 2 / 417]]"
  by code_simp

lemma sunk_strategy:
  "applyOptimizedStrategy
     [[0, 0, 2 / 15, 1 / 10, 1 / 15],
      [1 / 10, 2 / 15, 1 / 6, 2 / 15, 1 / 10],
      [2 / 15, 1 / 6, 1 / 5, 0, 2 / 15],
      [1 / 10, 2 / 15, 1 / 6, 2 / 15, 1 / 10],
      [0, 0, 2 / 15, 1 / 10, 1 / 15]] 5 5 [(0, 0), (0, 1), (4, 0), (4, 1), (2, 3)] [] [3]
     [\<lparr>sunkLength = 2, positions = [(0, 0), (0, 1)]\<rparr>,
      \<lparr>sunkLength = 2, positions = [(4, 0), (4, 1)]\<rparr>]
   = Inr [[0, 0, 2 / 15, 1 / 10, 1 / 15],
      [1 / 10, 2 / 15, 1 / 6, 8 / 3, 1 / 10],
      [2 / 15, 1 / 6, 4, 0, 8 / 3],
      [1 / 10, 2 / 15, 1 / 6, 8 / 3, 1 / 10],
      [0, 0, 2 / 15, 1 / 10, 1 / 15]]"
  by (simp add: applyOptimizedStrategy_def sunk_active sunk_aligned_active sunk_adjacent
      OPTIMIZED_ADJACENCY_FACTOR_def OPTIMIZED_COMPLETION_FACTOR_def sunk_boost sunk_smallest
      sunk_completions sunk_pattern applyInformationEntropy_def sunk_aligned_all
      del: boostCells.simps(2))

text \<open>
  Claim C9 (the code departs from it). The input has one active hit, (2,3), and the active
  hits form no aligned group, so the claim expects the entropy blend. The engine skips it:
  \<open>applyInformationEntropy\<close> is handed all the hits, those of the two sunk ships included,
  counts their two aligned groups and returns the map unchanged. Handed the active hits,
  it would have changed the map.
\<close>

theorem C9_sunk_hits_switch_off_entropy_blend:
  "getActiveHits [(0, 0), (0, 1), (4, 0), (4, 1), (2, 3)]
     [\<lparr>sunkLength = 2, positions = [(0, 0), (0, 1)]\<rparr>,
      \<lparr>sunkLength = 2, positions = [(4, 0), (4, 1)]\<rparr>] = [(2, 3)]
   \<and> findAlignedHits [(2, 3)] = []
   \<and> heuristicMap 5 5 [(0, 0), (0, 1), (4, 0), (4, 1), (2, 3)] [] [3] OPTIMIZED
       [\<lparr>sunkLength = 2, positions = [(0, 0), (0, 1)]\<rparr>,
      \<lparr>sunkLength = 2, positions = [(4, 0), (4, 1)]\<rparr>]
     = Some (Inr [[0, 0, 2 / 15, 1 / 10, 1 / 15],
      [1 / 10, 2 / 15, 1 / 6, 8 / 3, 1 / 10],
      [2 / 15, 1 / 6, 4, 0, 8 / 3],
      [1 / 10, 2 / 15, 1 / 6, 8 / 3, 1 / 10],
      [0, 0, 2 / 15, 1 / 10, 1 / 15]])
   \<and> applyInformationEntropy
       [[0, 0, 2 / 15, 1 / 10, 1 / 15],
      [1 / 10, 2 / 15, 1 / 6, 8 / 3, 1 / 10],
      [2 / 15, 1 / 6, 4, 0, 8 / 3],
      [1 / 10, 2 / 15, 1 / 6, 8 / 3, 1 / 10],
      [0, 0, 2 / 15, 1 / 10, 1 / 15]] 5 5 [(0, 0), (0, 1), (4, 0), (4, 1), (2, 3)] [] [3]
     = [[0, 0, 2 / 15, 1 / 10, 1 / 15],
      [1 / 10, 2 / 15, 1 / 6, 8 / 3, 1 / 10],
      [2 / 15, 1 / 6, 4, 0, 8 / 3],
      [1 / 10, 2 / 15, 1 / 6, 8 / 3, 1 / 10],
      [0, 0, 2 / 15, 1 / 10, 1 / 15]]
   \<and> applyInformationEntropy
       [[0, 0, 2 / 15, 1 / 10, 1 / 15],
      [1 / 10, 2 / 15, 1 / 6, 8 / 3, 1 / 10],
      [2 / 15, 1 / 6, 4, 0, 8 / 3],
      [1 / 10, 2 / 15, 1 / 6, 8 / 3, 1 / 10],
      [0, 0, 2 / 15, 1 / 10, 1 / 15]] 5 5 [(2, 3)] [] [3]
     = [[0, 0, 22 / 75, 11 / 50, 11 / 75],
      [11 / 50, 22 / 75, 11 / 30, 31 / 15, 11 / 50],
      [22 / 75, 11 / 30, 31 / 10, 0, 31 / 15],
      [11 / 50, 22 / 75, 11 / 30, 31 / 15, 11 / 50],
      [0, 0, 22 / 75, 11 / 50, 11 / 75]]
   \<and> calculateProbabilityMap 5 5 [(0, 0), (0, 1), (4, 0), (4, 1), (2, 3)] [] [3] OPTIMIZED
       [\<lparr>sunkLength = 2, positions = [(0, 0), (0, 1)]\<rparr>,
      \<lparr>sunkLength = 2, positions = [(4, 0), (4, 1)]\<rparr>]
     = Inr [[0, 0, 4 / 417, 1 / 139, 2 / 417],
      [1 / 139, 4 / 417, 5 / 417, 80 / 417, 1 / 139],
      [4 / 417, 5 / 417, 40 / 139, 0, 80 / 417],
      [1 / 139, 4 / 417, 5 / 417, 80 / 417, 1 / 139],
      [0, 0, 4 / 417, 1 / 139, 2 / 417]]"
proof -
  have heur: "heuristicMap 5 5 [(0, 0), (0, 1), (4, 0), (4, 1), (2, 3)] [] [3] OPTIMIZED
       [\<lparr>sunkLength = 2, positions = [(0, 0), (0, 1)]\<rparr>,
      \<lparr>sunkLength = 2, positions = [(4, 0), (4, 1)]\<rparr>]
     = Some (Inr [[0, 0, 2 / 15, 1 / 10, 1 / 15],
      [1 / 10, 2 / 15, 1 / 6, 8 / 3, 1 / 10],
      [2 / 15, 1 / 6, 4, 0, 8 / 3],
      [1 / 10, 2 / 15, 1 / 6, 8 / 3, 1 / 10],
      [0, 0, 2 / 15, 1 / 10, 1 / 15]])"
    by (simp add: heuristicMap_def applyMode_def sunk_tally sunk_base sunk_strategy)
  then have "calculateProbabilityMap 5 5 [(0, 0), (0, 1), (4, 0), (4, 1), (2, 3)] [] [3] OPTIMIZED
       [\<lparr>sunkLength = 2, positions = [(0, 0), (0, 1)]\<rparr>,
      \<lparr>sunkLength = 2, positions = [(4, 0), (4, 1)]\<rparr>]
     = Inr [[0, 0, 4 / 417, 1 / 139, 2 / 417],
      [1 / 139, 4 / 417, 5 / 417, 80 / 417, 1 / 139],
      [4 / 417, 5 / 417, 40 / 139, 0, 80 / 417],
      [1 / 139, 4 / 417, 5 / 417, 80 / 417, 1 / 139],
      [0, 0, 4 / 417, 1 / 139, 2 / 417]]"
    by (simp add: calculateProbabilityMap_def sunk_normalize)
  moreover have "applyInformationEntropy
       [[0, 0, 2 / 15, 1 / 10, 1 / 15],
      [1 / 10, 2 / 15, 1 / 6, 8 / 3, 1 / 10],
      [2 / 15, 1 / 6, 4, 0, 8 / 3],
      [1 / 10, 2 / 15, 1 / 6, 8 / 3, 1 / 10],
      [0, 0, 2 / 15, 1 / 10, 1 / 15]] 5 5 [(0, 0), (0, 1), (4, 0), (4, 1), (2, 3)] [] [3]
     = [[0, 0, 2 / 15, 1 / 10, 1 / 15],
      [1 / 10, 2 / 15, 1 / 6, 8 / 3, 1 / 10],
      [2 / 15, 1 / 6, 4, 0, 8 / 3],
      [1 / 10, 2 / 15, 1 / 6, 8 / 3, 1 / 10],
      [0, 0, 2 / 15, 1 / 10, 1 / 15]]"
    by (simp add: applyInformationEntropy_def sunk_aligned_all)
  ultimately show ?thesis
    using heur sunk_active sunk_aligned_active sunk_blend by simp
qed

subsection \<open>What the boosts do to one cell\<close>










subsection \<open>Repeated corner boosts: a cross of hits on a board of 16 by 16 cells\<close>

text \<open>The stages of the optimized strategy on the board of 16 by 16 cells whose hits are
  the cross \<open>crossOfHits\<close>, with no miss, no sunk ship and the fleet of lengths 5, 4, 3, 3
  and 2 remaining: the input is well formed, the hits form four aligned groups, each with
  the single extension point (8,8), and every pair of a hit of row 8 and a hit of column 8
  has the cell (8,8) as a corner.\<close>

lemma cross_wellFormed: "wellFormedInput 16 16 crossOfHits []"
  unfolding wellFormedInput_def inBounds_def by code_simp



















end
